theory Spec2Isabelle
  imports Main
begin

section \<open>JavaScript values and primitives used by the program\<close>

text \<open>
  Strings are sequences of code units; the model covers code units below 256
  (\<^typ>\<open>char\<close>). Numbers that the program only compares and prints are
  integers: every comparison the code makes is against a bound far below
  \<open>2 ^ 53\<close>, where rounding of a parsed literal is monotone and cannot change
  the outcome.
\<close>

datatype json =
    JNull
  | JBool bool
  | JNum int
  | JStr string
  | JArr "json list"
  | JObj "(string \<times> json) list"

text \<open>White space and line terminators stripped by \<open>String.prototype.trim\<close> and
  skipped by \<open>parseInt\<close>: TAB, LF, VT, FF, CR, SP and NBSP.\<close>

definition js_whitespace :: "char \<Rightarrow> bool" where
  "js_whitespace c = ((of_char c :: nat) \<in> {9, 10, 11, 12, 13, 32, 160})"

definition trim :: "string \<Rightarrow> string" where
  "trim s = rev (dropWhile js_whitespace (rev (dropWhile js_whitespace s)))"

definition is_digit :: "char \<Rightarrow> bool" where
  "is_digit c = (48 \<le> (of_char c :: nat) \<and> (of_char c :: nat) \<le> 57)"

definition digit_val :: "char \<Rightarrow> int" where
  "digit_val c = int (of_char c) - 48"

text \<open>Value of a digit string, most significant digit first.\<close>

definition digits_val :: "string \<Rightarrow> int" where
  "digits_val ds = foldl (\<lambda>acc c. acc * 10 + digit_val c) 0 ds"

text \<open>
  \<open>parseInt(s, 10)\<close>: skip leading white space, read an optional sign, take the
  longest prefix of decimal digits; no digits is \<open>NaN\<close> (\<open>None\<close>), anything after
  the digits is ignored.
\<close>

definition parseInt :: "string \<Rightarrow> int option" where
  "parseInt s =
     (let t = dropWhile js_whitespace s;
          neg = (t \<noteq> [] \<and> hd t = CHR ''-'');
          u = (if t \<noteq> [] \<and> (hd t = CHR ''-'' \<or> hd t = CHR ''+'') then tl t else t);
          ds = takeWhile is_digit u
      in if ds = [] then None
         else Some (if neg then - digits_val ds else digits_val ds))"

text \<open>Decimal rendering of a natural number (\<open>String(n)\<close>, template literals).\<close>

definition digit_char :: "nat \<Rightarrow> char" where
  "digit_char n = ''0123456789abcdef'' ! (n mod 16)"

fun show_nat :: "nat \<Rightarrow> string" where
  "show_nat n =
     (if n < 10 then [digit_char n]
      else show_nat (n div 10) @ [digit_char (n mod 10)])"

declare show_nat.simps [simp del]

text \<open>\<open>s.includes(pat)\<close>: \<open>pat\<close> occurs in \<open>s\<close> as a contiguous substring.\<close>

definition starts_with :: "string \<Rightarrow> string \<Rightarrow> bool" where
  "starts_with s pat = (take (length pat) s = pat)"

fun str_includes :: "string \<Rightarrow> string \<Rightarrow> bool" where
  "str_includes [] pat = (pat = [])"
| "str_includes (c # cs) pat = (starts_with (c # cs) pat \<or> str_includes cs pat)"

text \<open>
  \<open>JSON.stringify\<close> of a string: quoted, with the quote, the backslash and the
  control characters escaped.
\<close>

definition json_escape :: "char \<Rightarrow> string" where
  "json_escape c =
     (let n = (of_char c :: nat) in
      if n = 34 then [CHR 0x5C, CHR 0x22]
      else if n = 92 then [CHR 0x5C, CHR 0x5C]
      else if n = 8 then [CHR 0x5C, CHR ''b'']
      else if n = 9 then [CHR 0x5C, CHR ''t'']
      else if n = 10 then [CHR 0x5C, CHR ''n'']
      else if n = 12 then [CHR 0x5C, CHR ''f'']
      else if n = 13 then [CHR 0x5C, CHR ''r'']
      else if n < 32 then
        [CHR 0x5C, CHR ''u'', CHR ''0'', CHR ''0'', digit_char (n div 16), digit_char (n mod 16)]
      else [c])"

definition json_quote :: "string \<Rightarrow> string" where
  "json_quote s = [CHR 0x22] @ concat (map json_escape s) @ [CHR 0x22]"

text \<open>Truthiness of a value, and of a possibly \<open>undefined\<close> one (\<open>None\<close>).\<close>

fun js_truthy :: "json \<Rightarrow> bool" where
  "js_truthy JNull = False"
| "js_truthy (JBool b) = b"
| "js_truthy (JNum n) = (n \<noteq> 0)"
| "js_truthy (JStr s) = (s \<noteq> [])"
| "js_truthy (JArr xs) = True"
| "js_truthy (JObj kvs) = True"

definition falsy :: "json option \<Rightarrow> bool" where
  "falsy v = (case v of None \<Rightarrow> True | Some j \<Rightarrow> \<not> js_truthy j)"

text \<open>
  Reading a property \<open>b.k\<close> of a parsed JSON value. On \<open>null\<close> the read throws
  a \<open>TypeError\<close> (\<open>Inl\<close> its message); on an object it is the member or
  \<open>undefined\<close>; on any other value it is \<open>undefined\<close>, none of the keys the
  program reads being a property of strings, numbers, booleans or arrays.
\<close>

definition js_get :: "json \<Rightarrow> string \<Rightarrow> string + json option" where
  "js_get b k =
     (case b of
        JNull \<Rightarrow>
          Inl (''Cannot read properties of null (reading '' @ [CHR 0x27] @ k @ [CHR 0x27] @ '')'')
      | JObj kvs \<Rightarrow> Inr (map_of kvs k)
      | _ \<Rightarrow> Inr None)"

section \<open>Command line: port parsing (cli.ts)\<close>

definition DEFAULT_PORT :: int where
  "DEFAULT_PORT = 4747"

definition parsePortInput :: "string \<Rightarrow> int" where
  "parsePortInput input =
     (let trimmed = trim input; parsed = parseInt trimmed
      in case parsed of
           None \<Rightarrow> DEFAULT_PORT
         | Some p \<Rightarrow>
             if trimmed = [] \<or> p < 1 \<or> p > 65535 then DEFAULT_PORT else p)"

text \<open>Reading \<open>args[i]\<close>: \<open>undefined\<close> (\<open>None\<close>) outside the array.\<close>

definition js_index :: "'a list \<Rightarrow> nat \<Rightarrow> 'a option" where
  "js_index xs i = (if i < length xs then Some (xs ! i) else None)"

text \<open>The body of the \<open>for\<close> loop of \<open>parsePortFromArgArray\<close> at index \<open>i\<close>:
  \<open>Some p\<close> when the iteration returns \<open>p\<close>, \<open>None\<close> when it falls through.\<close>

definition port_arg_at :: "json list \<Rightarrow> nat \<Rightarrow> int option" where
  "port_arg_at args i =
     (if js_index args i = Some (JStr ''--port'') then
        (case js_index args (i + 1) of
           Some (JStr s) \<Rightarrow>
             (case parseInt s of
                Some p \<Rightarrow> if p > 0 \<and> p < 65536 then Some p else None
              | None \<Rightarrow> None)
         | _ \<Rightarrow> None)
      else None)"

function port_arg_loop :: "json list \<Rightarrow> nat \<Rightarrow> int" where
  "port_arg_loop args i =
     (if i < length args then
        (case port_arg_at args i of
           Some p \<Rightarrow> p
         | None \<Rightarrow> port_arg_loop args (i + 1))
      else DEFAULT_PORT)"
  by pat_completeness auto
termination
  by (relation "measure (\<lambda>(args, i). length args - i)") auto

definition parsePortFromArgArray :: "json \<Rightarrow> int" where
  "parsePortFromArgArray args =
     (case args of
        JArr xs \<Rightarrow> port_arg_loop xs 0
      | _ \<Rightarrow> DEFAULT_PORT)"

section \<open>Data model\<close>

text \<open>
  The entities of the broker: \<open>Session\<close> and \<open>Annotation\<close> as \<open>mcp.ts\<close>
  declares them, completed with the attributes the specification lists (thread,
  resolver, timestamps). Timestamps are clock readings in milliseconds.
\<close>

datatype session_status = Active | Closed

datatype ann_status = Pending | Acknowledged | Resolved | Dismissed

datatype role = Human | Agent

record session =
  s_id :: string
  s_url :: string
  s_projectId :: "string option"
  s_status :: session_status
  s_createdAt :: nat

record thread_message =
  m_id :: string
  m_annotationId :: string
  m_role :: role
  m_content :: string
  m_timestamp :: nat

record annotation =
  a_id :: string
  a_sessionId :: string
  a_comment :: string
  a_element :: string
  a_elementPath :: string
  a_url :: "string option"
  a_intent :: "string option"
  a_severity :: "string option"
  a_timestamp :: "int option"
  a_nearbyText :: "string option"
  a_reactComponents :: "string option"
  a_extras :: "(string \<times> string) list"
  a_status :: ann_status
  a_resolvedBy :: "role option"
  a_resolvedAt :: "nat option"
  a_createdAt :: nat
  a_updatedAt :: nat
  a_thread :: "thread_message list"

datatype event_type =
    AnnotationCreated | AnnotationUpdated | AnnotationDeleted
  | SessionCreated | SessionUpdated | SessionClosed
  | ThreadMessage

datatype payload = PSession session | PAnnotation annotation | PThread thread_message

record event =
  e_type :: event_type
  e_timestamp :: nat
  e_sessionId :: string
  e_sequence :: nat
  e_payload :: payload

section \<open>The store interface and the platform\<close>

text \<open>
  \<open>server/http.ts\<close> imports its store from \<open>./store.js\<close> and the bus from
  \<open>./events.js\<close>. The HTTP surface is modelled over any store: \<open>'s\<close> is the
  store's state, and each imported function is a field of \<open>store_ops\<close>.
  \<^item> A read returns its value; \<open>None\<close> is \<open>undefined\<close>.
  \<^item> A mutation returns its result, the events it emitted on the bus (already
    numbered) and the new state. The mutations that take fields of a request body
    receive them as parsed JSON and may throw (\<open>Inl\<close> the message of the error).
  \<^item> \<open>tick\<close> is not a function of the store: it is the effect on the store's
    clock of \<open>n\<close> milliseconds passing.
\<close>

record 's store_ops =
  createSession :: "json \<Rightarrow> json option \<Rightarrow> 's \<Rightarrow> (string + session) \<times> event list \<times> 's"
  getSession :: "string \<Rightarrow> 's \<Rightarrow> session option"
  getSessionWithAnnotations :: "string \<Rightarrow> 's \<Rightarrow> (session \<times> annotation list) option"
  addAnnotation :: "string \<Rightarrow> json \<Rightarrow> 's \<Rightarrow> (string + annotation option) \<times> event list \<times> 's"
  updateAnnotation :: "string \<Rightarrow> json \<Rightarrow> 's \<Rightarrow> (string + annotation option) \<times> event list \<times> 's"
  getAnnotation :: "string \<Rightarrow> 's \<Rightarrow> annotation option"
  deleteAnnotation :: "string \<Rightarrow> 's \<Rightarrow> annotation option \<times> event list \<times> 's"
  listSessions :: "'s \<Rightarrow> session list"
  getPendingAnnotations :: "string \<Rightarrow> 's \<Rightarrow> annotation list"
  addThreadMessage ::
    "string \<Rightarrow> json \<Rightarrow> json \<Rightarrow> 's \<Rightarrow> (string + annotation option) \<times> event list \<times> 's"
  getEventsSince :: "string \<Rightarrow> int \<Rightarrow> 's \<Rightarrow> event list"
  tick :: "nat \<Rightarrow> 's \<Rightarrow> 's"

section \<open>HTTP surface (server/http.ts)\<close>

datatype req_body = NoBody | Malformed | Body json

text \<open>
  A request as the listener reads it: the method, \<open>url.pathname\<close> and
  \<open>url.searchParams\<close> of \<open>new URL(req.url, base)\<close>, the headers under their
  lower-case names, and the body text (\<open>NoBody\<close> empty, \<open>Malformed\<close> not JSON,
  \<open>Body j\<close> the text of \<open>j\<close>).
\<close>

record request =
  rq_method :: string
  rq_pathname :: string
  rq_query :: "(string \<times> string) list"
  rq_headers :: "(string \<times> string) list"
  rq_body :: req_body

datatype res_body =
    ErrorBody string
  | HealthBody
  | SessionBody session
  | SessionsBody "session list"
  | SessionDetailBody session "annotation list"
  | AnnotationBody annotation
  | DeletedBody string
  | PendingBody nat "annotation list"
  | EmptyBody
  | EventStream nat

record response =
  rs_status :: nat
  rs_body :: res_body

text \<open>
  What has been written to an open event stream: comment lines and event frames
  (the three writes of \<open>sendSSEEvent\<close>).
\<close>

datatype chunk = Comment string | EventFrame event

text \<open>The two subscriptions a stream can hold on the bus.\<close>

datatype sink = SessionSink string | DomainSink string

record connection =
  c_id :: nat
  c_sink :: sink
  c_out :: "chunk list"

text \<open>The process: the store, and \<open>sseConnections\<close> with the writes made to each.\<close>

record 's world =
  w_store :: 's
  w_conns :: "connection list"
  w_next :: nat

text \<open>
  The platform functions whose results the program depends on: \<open>new URL(u).host\<close>
  (\<open>None\<close> when the constructor throws), the path and search parameters that a
  request sent to \<open>base + path\<close> arrives with, and \<open>JSON.stringify\<close> of a body
  that carries data.
\<close>

record platform =
  url_host :: "string \<Rightarrow> string option"
  parse_target :: "string \<Rightarrow> string \<times> (string \<times> string) list"
  stringify :: "res_body \<Rightarrow> string"

definition parseBody :: "req_body \<Rightarrow> string + json" where
  "parseBody b =
     (case b of
        NoBody \<Rightarrow> Inr (JObj [])
      | Malformed \<Rightarrow> Inl ''Invalid JSON''
      | Body j \<Rightarrow> Inr j)"

definition sendJson :: "nat \<Rightarrow> res_body \<Rightarrow> response" where
  "sendJson status data = \<lparr>rs_status = status, rs_body = data\<rparr>"

definition sendError :: "nat \<Rightarrow> string \<Rightarrow> response" where
  "sendError status message = sendJson status (ErrorBody message)"

definition handleCors :: response where
  "handleCors = \<lparr>rs_status = 204, rs_body = EmptyBody\<rparr>"

text \<open>\<open>sendJson(res, status, annotation)\<close> where the store may have returned
  \<open>undefined\<close>: \<open>JSON.stringify(undefined)\<close> writes no body.\<close>

definition sendAnnotation :: "nat \<Rightarrow> annotation option \<Rightarrow> response" where
  "sendAnnotation status a =
     (case a of None \<Rightarrow> sendJson status EmptyBody | Some x \<Rightarrow> sendJson status (AnnotationBody x))"

text \<open>A property of the body that is read after an earlier read has succeeded
  (the body is not \<open>null\<close>).\<close>

definition js_field :: "json \<Rightarrow> string \<Rightarrow> json option" where
  "js_field b k = (case js_get b k of Inl _ \<Rightarrow> None | Inr v \<Rightarrow> v)"

text \<open>
  Delivery of an event to a subscription. \<open>subscribeToSession\<close> calls its sink
  for the events of that session; \<open>subscribe\<close> calls its sink for every event,
  and the sink of \<open>globalSseHandler\<close> writes the event when the owning session
  exists, its URL parses and its host equals the domain.
\<close>

definition sink_writes :: "platform \<Rightarrow> 's store_ops \<Rightarrow> 's \<Rightarrow> sink \<Rightarrow> event \<Rightarrow> chunk list" where
  "sink_writes pf ops s k ev =
     (case k of
        SessionSink sid \<Rightarrow> (if e_sessionId ev = sid then [EventFrame ev] else [])
      | DomainSink domain \<Rightarrow>
          (case getSession ops (e_sessionId ev) s of
             None \<Rightarrow> []
           | Some session \<Rightarrow>
               (case url_host pf (s_url session) of
                  None \<Rightarrow> []
                | Some sessionHost \<Rightarrow>
                    if sessionHost = domain then [EventFrame ev] else [])))"

text \<open>The events a store operation emitted reach every open stream, in order.\<close>

definition publish :: "platform \<Rightarrow> 's store_ops \<Rightarrow> event list \<Rightarrow> 's world \<Rightarrow> 's world" where
  "publish pf ops evs w =
     w\<lparr>w_conns :=
         map (\<lambda>c. c\<lparr>c_out := c_out c @ concat (map (sink_writes pf ops (w_store w) (c_sink c)) evs)\<rparr>)
           (w_conns w)\<rparr>"

definition param :: "(string \<times> string) list \<Rightarrow> string \<Rightarrow> string" where
  "param params k = (case map_of params k of Some v \<Rightarrow> v | None \<Rightarrow> [])"

type_synonym 's handler =
  "request \<Rightarrow> (string \<times> string) list \<Rightarrow> 's world \<Rightarrow> (string + response) \<times> 's world"

definition createSessionHandler :: "platform \<Rightarrow> 's store_ops \<Rightarrow> 's handler" where
  "createSessionHandler pf ops req params w =
     (case parseBody (rq_body req) of
        Inl m \<Rightarrow> (Inr (sendError 400 m), w)
      | Inr body \<Rightarrow>
          (case js_get body ''url'' of
             Inl m \<Rightarrow> (Inr (sendError 400 m), w)
           | Inr None \<Rightarrow> (Inr (sendError 400 ''url is required''), w)
           | Inr (Some url) \<Rightarrow>
               if \<not> js_truthy url then (Inr (sendError 400 ''url is required''), w)
               else
                 (case createSession ops url (js_field body ''projectId'') (w_store w) of
                    (r, evs, s') \<Rightarrow>
                      let w' = publish pf ops evs (w\<lparr>w_store := s'\<rparr>) in
                      (case r of
                         Inl m \<Rightarrow> (Inr (sendError 400 m), w')
                       | Inr session \<Rightarrow> (Inr (sendJson 201 (SessionBody session)), w')))))"

definition listSessionsHandler :: "platform \<Rightarrow> 's store_ops \<Rightarrow> 's handler" where
  "listSessionsHandler pf ops req params w =
     (Inr (sendJson 200 (SessionsBody (listSessions ops (w_store w)))), w)"

definition getSessionHandler :: "platform \<Rightarrow> 's store_ops \<Rightarrow> 's handler" where
  "getSessionHandler pf ops req params w =
     (case getSessionWithAnnotations ops (param params ''id'') (w_store w) of
        None \<Rightarrow> (Inr (sendError 404 ''Session not found''), w)
      | Some (session, anns) \<Rightarrow> (Inr (sendJson 200 (SessionDetailBody session anns)), w))"

definition addAnnotationHandler :: "platform \<Rightarrow> 's store_ops \<Rightarrow> 's handler" where
  "addAnnotationHandler pf ops req params w =
     (case parseBody (rq_body req) of
        Inl m \<Rightarrow> (Inr (sendError 400 m), w)
      | Inr body \<Rightarrow>
          (case js_get body ''comment'' of
             Inl m \<Rightarrow> (Inr (sendError 400 m), w)
           | Inr comment \<Rightarrow>
               if falsy comment \<or> falsy (js_field body ''element'')
                    \<or> falsy (js_field body ''elementPath'')
               then (Inr (sendError 400 ''comment, element, and elementPath are required''), w)
               else
                 (case addAnnotation ops (param params ''id'') body (w_store w) of
                    (r, evs, s') \<Rightarrow>
                      let w' = publish pf ops evs (w\<lparr>w_store := s'\<rparr>) in
                      (case r of
                         Inl m \<Rightarrow> (Inr (sendError 400 m), w')
                       | Inr None \<Rightarrow> (Inr (sendError 404 ''Session not found''), w')
                       | Inr (Some a) \<Rightarrow> (Inr (sendJson 201 (AnnotationBody a)), w')))))"

definition updateAnnotationHandler :: "platform \<Rightarrow> 's store_ops \<Rightarrow> 's handler" where
  "updateAnnotationHandler pf ops req params w =
     (case parseBody (rq_body req) of
        Inl m \<Rightarrow> (Inr (sendError 400 m), w)
      | Inr body \<Rightarrow>
          (case getAnnotation ops (param params ''id'') (w_store w) of
             None \<Rightarrow> (Inr (sendError 404 ''Annotation not found''), w)
           | Some existing \<Rightarrow>
               (case updateAnnotation ops (param params ''id'') body (w_store w) of
                  (r, evs, s') \<Rightarrow>
                    let w' = publish pf ops evs (w\<lparr>w_store := s'\<rparr>) in
                    (case r of
                       Inl m \<Rightarrow> (Inr (sendError 400 m), w')
                     | Inr a \<Rightarrow> (Inr (sendAnnotation 200 a), w')))))"

definition getAnnotationHandler :: "platform \<Rightarrow> 's store_ops \<Rightarrow> 's handler" where
  "getAnnotationHandler pf ops req params w =
     (case getAnnotation ops (param params ''id'') (w_store w) of
        None \<Rightarrow> (Inr (sendError 404 ''Annotation not found''), w)
      | Some a \<Rightarrow> (Inr (sendJson 200 (AnnotationBody a)), w))"

definition deleteAnnotationHandler :: "platform \<Rightarrow> 's store_ops \<Rightarrow> 's handler" where
  "deleteAnnotationHandler pf ops req params w =
     (case deleteAnnotation ops (param params ''id'') (w_store w) of
        (r, evs, s') \<Rightarrow>
          let w' = publish pf ops evs (w\<lparr>w_store := s'\<rparr>) in
          (case r of
             None \<Rightarrow> (Inr (sendError 404 ''Annotation not found''), w')
           | Some a \<Rightarrow> (Inr (sendJson 200 (DeletedBody (param params ''id''))), w')))"

definition getPendingHandler :: "platform \<Rightarrow> 's store_ops \<Rightarrow> 's handler" where
  "getPendingHandler pf ops req params w =
     (let pending = getPendingAnnotations ops (param params ''id'') (w_store w)
      in (Inr (sendJson 200 (PendingBody (length pending) pending)), w))"

definition getAllPendingHandler :: "platform \<Rightarrow> 's store_ops \<Rightarrow> 's handler" where
  "getAllPendingHandler pf ops req params w =
     (let sessions = listSessions ops (w_store w);
          allPending =
            concat (map (\<lambda>session. getPendingAnnotations ops (s_id session) (w_store w)) sessions)
      in (Inr (sendJson 200 (PendingBody (length allPending) allPending)), w))"

definition addThreadHandler :: "platform \<Rightarrow> 's store_ops \<Rightarrow> 's handler" where
  "addThreadHandler pf ops req params w =
     (case parseBody (rq_body req) of
        Inl m \<Rightarrow> (Inr (sendError 400 m), w)
      | Inr body \<Rightarrow>
          (case js_get body ''role'' of
             Inl m \<Rightarrow> (Inr (sendError 400 m), w)
           | Inr r \<Rightarrow>
               (case (r, js_field body ''content'') of
                  (Some role, Some content) \<Rightarrow>
                    if \<not> js_truthy role \<or> \<not> js_truthy content
                    then (Inr (sendError 400 ''role and content are required''), w)
                    else
                      (case addThreadMessage ops (param params ''id'') role content (w_store w) of
                         (res, evs, s') \<Rightarrow>
                           let w' = publish pf ops evs (w\<lparr>w_store := s'\<rparr>) in
                           (case res of
                              Inl m \<Rightarrow> (Inr (sendError 400 m), w')
                            | Inr None \<Rightarrow> (Inr (sendError 404 ''Annotation not found''), w')
                            | Inr (Some a) \<Rightarrow> (Inr (sendJson 201 (AnnotationBody a)), w')))
                | _ \<Rightarrow> (Inr (sendError 400 ''role and content are required''), w))))"

text \<open>Opening a stream: the response object joins \<open>sseConnections\<close>, the first
  writes are made, and the sink is subscribed.\<close>

definition open_stream :: "sink \<Rightarrow> chunk list \<Rightarrow> 's world \<Rightarrow> (string + response) \<times> 's world" where
  "open_stream k first w =
     (Inr (sendJson 200 (EventStream (w_next w))),
      w\<lparr>w_conns := w_conns w @ [\<lparr>c_id = w_next w, c_sink = k, c_out = first\<rparr>],
        w_next := w_next w + 1\<rparr>)"

definition sseHandler :: "platform \<Rightarrow> 's store_ops \<Rightarrow> 's handler" where
  "sseHandler pf ops req params w =
     (let sessionId = param params ''id'' in
      case getSessionWithAnnotations ops sessionId (w_store w) of
        None \<Rightarrow> (Inr (sendError 404 ''Session not found''), w)
      | Some session \<Rightarrow>
          let missedEvents =
                (case map_of (rq_headers req) ''last-event-id'' of
                   None \<Rightarrow> []
                 | Some lastEventId \<Rightarrow>
                     if lastEventId = [] then []
                     else
                       (case parseInt lastEventId of
                          None \<Rightarrow> []
                        | Some lastSequence \<Rightarrow>
                            getEventsSince ops sessionId lastSequence (w_store w)))
          in open_stream (SessionSink sessionId)
               (Comment ''connected'' # map EventFrame missedEvents) w)"

definition globalSseHandler :: "platform \<Rightarrow> 's store_ops \<Rightarrow> 's handler" where
  "globalSseHandler pf ops req params w =
     (case map_of (rq_query req) ''domain'' of
        None \<Rightarrow> (Inr (sendError 400 ''domain query parameter required''), w)
      | Some domain \<Rightarrow>
          if domain = [] then (Inr (sendError 400 ''domain query parameter required''), w)
          else open_stream (DomainSink domain) [Comment (''connected to domain '' @ domain)] w)"

subsection \<open>Router\<close>

text \<open>
  The route patterns are of two shapes: a fixed path, and a path with one
  parameter \<open>([^/]+)\<close> between a fixed prefix and a fixed suffix.
\<close>

datatype pattern = Exact string | Segment string string

definition match_pattern :: "pattern \<Rightarrow> string \<Rightarrow> string list option" where
  "match_pattern pat pathname =
     (case pat of
        Exact p \<Rightarrow> (if pathname = p then Some [] else None)
      | Segment pre suf \<Rightarrow>
          if starts_with pathname pre then
            (let rest = drop (length pre) pathname;
                 seg = takeWhile (\<lambda>c. c \<noteq> CHR ''/'') rest
             in if seg \<noteq> [] \<and> drop (length seg) rest = suf then Some [seg] else None)
          else None)"

record 's route =
  r_method :: string
  r_pattern :: pattern
  r_handler :: "'s handler"
  r_paramNames :: "string list"

definition routes :: "platform \<Rightarrow> 's store_ops \<Rightarrow> 's route list" where
  "routes pf ops =
     [\<lparr>r_method = ''GET'', r_pattern = Exact ''/events'',
        r_handler = globalSseHandler pf ops, r_paramNames = []\<rparr>,
      \<lparr>r_method = ''GET'', r_pattern = Exact ''/pending'',
        r_handler = getAllPendingHandler pf ops, r_paramNames = []\<rparr>,
      \<lparr>r_method = ''GET'', r_pattern = Exact ''/sessions'',
        r_handler = listSessionsHandler pf ops, r_paramNames = []\<rparr>,
      \<lparr>r_method = ''POST'', r_pattern = Exact ''/sessions'',
        r_handler = createSessionHandler pf ops, r_paramNames = []\<rparr>,
      \<lparr>r_method = ''GET'', r_pattern = Segment ''/sessions/'' [],
        r_handler = getSessionHandler pf ops, r_paramNames = [''id'']\<rparr>,
      \<lparr>r_method = ''GET'', r_pattern = Segment ''/sessions/'' ''/events'',
        r_handler = sseHandler pf ops, r_paramNames = [''id'']\<rparr>,
      \<lparr>r_method = ''GET'', r_pattern = Segment ''/sessions/'' ''/pending'',
        r_handler = getPendingHandler pf ops, r_paramNames = [''id'']\<rparr>,
      \<lparr>r_method = ''POST'', r_pattern = Segment ''/sessions/'' ''/annotations'',
        r_handler = addAnnotationHandler pf ops, r_paramNames = [''id'']\<rparr>,
      \<lparr>r_method = ''PATCH'', r_pattern = Segment ''/annotations/'' [],
        r_handler = updateAnnotationHandler pf ops, r_paramNames = [''id'']\<rparr>,
      \<lparr>r_method = ''GET'', r_pattern = Segment ''/annotations/'' [],
        r_handler = getAnnotationHandler pf ops, r_paramNames = [''id'']\<rparr>,
      \<lparr>r_method = ''DELETE'', r_pattern = Segment ''/annotations/'' [],
        r_handler = deleteAnnotationHandler pf ops, r_paramNames = [''id'']\<rparr>,
      \<lparr>r_method = ''POST'', r_pattern = Segment ''/annotations/'' ''/thread'',
        r_handler = addThreadHandler pf ops, r_paramNames = [''id'']\<rparr>]"

fun match_in :: "'s route list \<Rightarrow> string \<Rightarrow> string \<Rightarrow> ('s handler \<times> (string \<times> string) list) option" where
  "match_in [] method pathname = None"
| "match_in (route # rest) method pathname =
     (if r_method route \<noteq> method then match_in rest method pathname
      else
        (case match_pattern (r_pattern route) pathname of
           Some groups \<Rightarrow> Some (r_handler route, zip (r_paramNames route) groups)
         | None \<Rightarrow> match_in rest method pathname))"

definition matchRoute ::
  "platform \<Rightarrow> 's store_ops \<Rightarrow> string \<Rightarrow> string
     \<Rightarrow> ('s handler \<times> (string \<times> string) list) option" where
  "matchRoute pf ops method pathname = match_in (routes pf ops) method pathname"

subsection \<open>Server\<close>

text \<open>
  The callback that \<open>startHttpServer\<close> gives to \<open>createServer\<close>, from the point
  where the URL of the request has been parsed: \<open>rq_pathname\<close> and \<open>rq_query\<close> are
  \<open>url.pathname\<close> and \<open>url.searchParams\<close>. The operations of the store are total
  functions in \<open>store_ops\<close>: that a read or a delete of the store throws, which
  the \<open>catch\<close> of the callback answers 500, is outside the model, and no handler
  here throws an error that reaches this \<open>catch\<close>.
\<close>

definition requestListener :: "platform \<Rightarrow> 's store_ops \<Rightarrow> request \<Rightarrow> 's world \<Rightarrow> response \<times> 's world" where
  "requestListener pf ops req w =
     (let pathname = rq_pathname req;
          method = (if rq_method req = [] then ''GET'' else rq_method req)
      in if method = ''OPTIONS'' then (handleCors, w)
         else if pathname = ''/health'' \<and> method = ''GET'' then (sendJson 200 HealthBody, w)
         else
           (case matchRoute pf ops method pathname of
              None \<Rightarrow> (sendError 404 ''Not found'', w)
            | Some (handler, params) \<Rightarrow>
                (case handler req params w of
                   (Inl err, w') \<Rightarrow> (sendError 500 ''Internal server error'', w')
                 | (Inr res, w') \<Rightarrow> (res, w'))))"

text \<open>The request as it arrives, its target \<open>req.url\<close> not yet parsed.\<close>

record raw_request =
  rr_method :: string
  rr_url :: string
  rr_headers :: "(string \<times> string) list"
  rr_body :: req_body

text \<open>\<open>new URL(input, base)\<close>: the path and the search parameters of the URL, or
  nothing when the constructor throws.\<close>

type_synonym url_parser = "string \<Rightarrow> string \<Rightarrow> (string \<times> (string \<times> string) list) option"

text \<open>
  \<open>startHttpServer(port)\<close>: the whole callback. \<open>new URL(req.url || "/", ...)\<close>
  is evaluated before the \<open>try\<close>: when it throws, the callback throws and no
  answer is written (what the runtime does with the rejected promise is outside
  the model).
\<close>

definition startHttpServer ::
  "int \<Rightarrow> url_parser \<Rightarrow> platform \<Rightarrow> 's store_ops \<Rightarrow> raw_request \<Rightarrow> 's world
     \<Rightarrow> response option \<times> 's world" where
  "startHttpServer port new_URL pf ops raw w =
     (case new_URL (if rr_url raw = [] then ''/'' else rr_url raw)
             (''http://localhost:'' @ show_nat (nat port)) of
        None \<Rightarrow> (None, w)
      | Some (pathname, query) \<Rightarrow>
          (case requestListener pf ops
                  \<lparr>rq_method = rr_method raw, rq_pathname = pathname, rq_query = query,
                   rq_headers = rr_headers raw, rq_body = rr_body raw\<rparr> w of
             (res, w') \<Rightarrow> (Some res, w')))"

section \<open>The store and the event bus, from the specification\<close>

text \<open>
  \<open>server/store.ts\<close> and \<open>server/events.ts\<close> are not among the sources. The
  definitions of this section follow the specification (sections 3, 4.1 and
  4.2): an in-memory store holding the sessions, the annotations with their
  threads and the event log, and a bus with one sequence counter.
\<close>

record store =
  st_sessions :: "session list"
  st_annotations :: "annotation list"
  st_events :: "event list"
  st_sequence :: nat
  st_nextId :: nat
  st_clock :: nat

text \<open>Modelled from the spec: the state of a freshly started process; the counter
  has issued no number, so the first event is numbered 1.\<close>

definition empty_store :: store where
  "empty_store =
     \<lparr>st_sessions = [], st_annotations = [], st_events = [], st_sequence = 0,
      st_nextId = 0, st_clock = 0\<rparr>"

text \<open>Modelled from the spec: the bus (\<open>events.ts\<close>) gives the event the next
  number of its single counter and appends it to the log.\<close>

definition emit :: "event_type \<Rightarrow> string \<Rightarrow> payload \<Rightarrow> store \<Rightarrow> event \<times> store" where
  "emit ty sid pl s =
     (let ev = \<lparr>e_type = ty, e_timestamp = st_clock s, e_sessionId = sid,
                e_sequence = st_sequence s + 1, e_payload = pl\<rparr>
      in (ev, s\<lparr>st_sequence := st_sequence s + 1, st_events := st_events s @ [ev]\<rparr>))"

text \<open>Modelled from the spec: a fresh opaque id, here a prefix and the reading of a
  counter that only grows.\<close>

definition fresh_id :: "string \<Rightarrow> store \<Rightarrow> string \<times> store" where
  "fresh_id prefix s = (prefix @ show_nat (st_nextId s), s\<lparr>st_nextId := st_nextId s + 1\<rparr>)"

text \<open>Modelled from the spec: the transition lattice of section 3.\<close>

fun legal :: "ann_status \<Rightarrow> ann_status \<Rightarrow> bool" where
  "legal Pending Acknowledged = True"
| "legal Pending Dismissed = True"
| "legal Acknowledged Resolved = True"
| "legal Acknowledged Dismissed = True"
| "legal Resolved Pending = True"
| "legal Dismissed Pending = True"
| "legal _ _ = False"

text \<open>Modelled from the spec: the enumerations of section 3 as they stand on the
  wire.\<close>

definition parse_status :: "string \<Rightarrow> ann_status option" where
  "parse_status s =
     (if s = ''pending'' then Some Pending
      else if s = ''acknowledged'' then Some Acknowledged
      else if s = ''resolved'' then Some Resolved
      else if s = ''dismissed'' then Some Dismissed
      else None)"

definition parse_role :: "string \<Rightarrow> role option" where
  "parse_role s =
     (if s = ''human'' then Some Human else if s = ''agent'' then Some Agent else None)"

definition intents :: "string list" where
  "intents = [''fix'', ''change'', ''question'', ''approve'']"

definition severities :: "string list" where
  "severities = [''blocking'', ''important'', ''suggestion'']"

text \<open>Modelled from the spec: validation of the fields of a body (a malformed
  body or a bad enum value is a validation error). \<open>str_ok\<close>: the field is
  absent or a string; \<open>get_str\<close>: its value when it is a string.\<close>

definition str_ok :: "(string \<times> json) list \<Rightarrow> string \<Rightarrow> bool" where
  "str_ok kvs k = (case map_of kvs k of None \<Rightarrow> True | Some (JStr s) \<Rightarrow> True | Some _ \<Rightarrow> False)"

definition get_str :: "(string \<times> json) list \<Rightarrow> string \<Rightarrow> string option" where
  "get_str kvs k = (case map_of kvs k of Some (JStr s) \<Rightarrow> Some s | _ \<Rightarrow> None)"

definition enum_ok :: "string list \<Rightarrow> (string \<times> json) list \<Rightarrow> string \<Rightarrow> bool" where
  "enum_ok allowed kvs k =
     (case map_of kvs k of None \<Rightarrow> True | Some (JStr s) \<Rightarrow> s \<in> set allowed | Some _ \<Rightarrow> False)"

definition num_ok :: "(string \<times> json) list \<Rightarrow> string \<Rightarrow> bool" where
  "num_ok kvs k = (case map_of kvs k of None \<Rightarrow> True | Some (JNum n) \<Rightarrow> True | Some _ \<Rightarrow> False)"

definition get_num :: "(string \<times> json) list \<Rightarrow> string \<Rightarrow> int option" where
  "get_num kvs k = (case map_of kvs k of Some (JNum n) \<Rightarrow> Some n | _ \<Rightarrow> None)"

definition known_keys :: "string list" where
  "known_keys =
     [''id'', ''sessionId'', ''comment'', ''element'', ''elementPath'', ''url'', ''intent'',
      ''severity'', ''timestamp'', ''nearbyText'', ''reactComponents'', ''status'',
      ''resolvedBy'', ''resolvedAt'', ''createdAt'', ''updatedAt'', ''thread'']"

text \<open>Modelled from the spec: the optional context strings of a body, kept verbatim.\<close>

fun extras_of :: "(string \<times> json) list \<Rightarrow> (string \<times> string) list" where
  "extras_of [] = []"
| "extras_of ((k, JStr s) # kvs) =
     (if k \<in> set known_keys then extras_of kvs else (k, s) # extras_of kvs)"
| "extras_of (_ # kvs) = extras_of kvs"

definition merge_extras :: "(string \<times> string) list \<Rightarrow> (string \<times> string) list \<Rightarrow> (string \<times> string) list" where
  "merge_extras old new = filter (\<lambda>(k, v). k \<notin> fst ` set new) old @ new"

definition fields_ok :: "(string \<times> json) list \<Rightarrow> bool" where
  "fields_ok kvs =
     (str_ok kvs ''comment'' \<and> str_ok kvs ''element'' \<and> str_ok kvs ''elementPath''
      \<and> str_ok kvs ''url'' \<and> enum_ok intents kvs ''intent''
      \<and> enum_ok severities kvs ''severity'' \<and> num_ok kvs ''timestamp''
      \<and> str_ok kvs ''nearbyText'' \<and> str_ok kvs ''reactComponents'')"

definition validation_error :: string where
  "validation_error = ''Validation failed''"

definition transition_error :: string where
  "transition_error = ''Illegal status transition''"

subsection \<open>Sessions\<close>

text \<open>Modelled from the spec: \<open>createSession(url, projectId?)\<close> assigns a fresh id,
  status \<open>active\<close> and the creation time, and produces one event.\<close>

definition spec_createSession ::
  "json \<Rightarrow> json option \<Rightarrow> store \<Rightarrow> (string + session) \<times> event list \<times> store" where
  "spec_createSession url projectId s =
     (case (url, projectId) of
        (JStr u, None) \<Rightarrow>
          (let (i, s1) = fresh_id ''s'' s;
               session = \<lparr>s_id = i, s_url = u, s_projectId = None, s_status = Active,
                          s_createdAt = st_clock s\<rparr>;
               (ev, s2) = emit SessionCreated i (PSession session)
                            (s1\<lparr>st_sessions := st_sessions s1 @ [session]\<rparr>)
           in (Inr session, [ev], s2))
      | (JStr u, Some (JStr p)) \<Rightarrow>
          (let (i, s1) = fresh_id ''s'' s;
               session = \<lparr>s_id = i, s_url = u, s_projectId = Some p, s_status = Active,
                          s_createdAt = st_clock s\<rparr>;
               (ev, s2) = emit SessionCreated i (PSession session)
                            (s1\<lparr>st_sessions := st_sessions s1 @ [session]\<rparr>)
           in (Inr session, [ev], s2))
      | _ \<Rightarrow> (Inl validation_error, [], s))"

text \<open>Modelled from the spec: \<open>listSessions()\<close>, all sessions in creation order.\<close>

definition spec_listSessions :: "store \<Rightarrow> session list" where
  "spec_listSessions s = st_sessions s"

text \<open>Modelled from the spec: \<open>getSession(id)\<close>.\<close>

definition spec_getSession :: "string \<Rightarrow> store \<Rightarrow> session option" where
  "spec_getSession i s = find (\<lambda>x. s_id x = i) (st_sessions s)"

text \<open>Modelled from the spec: \<open>getSessionWithAnnotations(id)\<close> embeds the
  annotations of the session in insertion order.\<close>

definition spec_getSessionWithAnnotations :: "string \<Rightarrow> store \<Rightarrow> (session \<times> annotation list) option" where
  "spec_getSessionWithAnnotations i s =
     (case spec_getSession i s of
        None \<Rightarrow> None
      | Some x \<Rightarrow> Some (x, filter (\<lambda>a. a_sessionId a = i) (st_annotations s)))"

subsection \<open>Annotations\<close>

text \<open>Modelled from the spec: \<open>getAnnotation(id)\<close>.\<close>

definition spec_getAnnotation :: "string \<Rightarrow> store \<Rightarrow> annotation option" where
  "spec_getAnnotation i s = find (\<lambda>a. a_id a = i) (st_annotations s)"

text \<open>Modelled from the spec: \<open>getPendingAnnotations(sessionId)\<close>, the annotations
  of the session with status \<open>pending\<close>, in insertion order.\<close>

definition spec_getPendingAnnotations :: "string \<Rightarrow> store \<Rightarrow> annotation list" where
  "spec_getPendingAnnotations sid s =
     filter (\<lambda>a. a_sessionId a = sid \<and> a_status a = Pending) (st_annotations s)"

text \<open>Modelled from the spec: \<open>addAnnotation(sessionId, payload)\<close> rejects an
  unknown session; otherwise it assigns a fresh id, status \<open>pending\<close> and both
  timestamps, stores every recognised optional field verbatim, and produces one
  event.\<close>

definition spec_addAnnotation ::
  "string \<Rightarrow> json \<Rightarrow> store \<Rightarrow> (string + annotation option) \<times> event list \<times> store" where
  "spec_addAnnotation sid body s =
     (case spec_getSession sid s of
        None \<Rightarrow> (Inr None, [], s)
      | Some session \<Rightarrow>
          (case body of
             JObj kvs \<Rightarrow>
               (case (get_str kvs ''comment'', get_str kvs ''element'', get_str kvs ''elementPath'') of
                  (Some c, Some e, Some p) \<Rightarrow>
                    if \<not> fields_ok kvs then (Inl validation_error, [], s)
                    else
                      (let (i, s1) = fresh_id ''a'' s;
                           a = \<lparr>a_id = i, a_sessionId = sid, a_comment = c, a_element = e,
                                a_elementPath = p, a_url = get_str kvs ''url'',
                                a_intent = get_str kvs ''intent'',
                                a_severity = get_str kvs ''severity'',
                                a_timestamp = get_num kvs ''timestamp'',
                                a_nearbyText = get_str kvs ''nearbyText'',
                                a_reactComponents = get_str kvs ''reactComponents'',
                                a_extras = extras_of kvs, a_status = Pending,
                                a_resolvedBy = None, a_resolvedAt = None,
                                a_createdAt = st_clock s, a_updatedAt = st_clock s,
                                a_thread = []\<rparr>;
                           (ev, s2) = emit AnnotationCreated sid (PAnnotation a)
                                        (s1\<lparr>st_annotations := st_annotations s1 @ [a]\<rparr>)
                       in (Inr (Some a), [ev], s2))
                | _ \<Rightarrow> (Inl validation_error, [], s))
           | _ \<Rightarrow> (Inl validation_error, [], s)))"

text \<open>Modelled from the spec: the status an accepted patch leaves. A patch that
  names the current status changes nothing; a patch that names another status
  must follow an edge of the lattice.\<close>

definition patched_status :: "ann_status \<Rightarrow> (string \<times> json) list \<Rightarrow> string + ann_status" where
  "patched_status cur kvs =
     (case map_of kvs ''status'' of
        None \<Rightarrow> Inr cur
      | Some (JStr t) \<Rightarrow>
          (case parse_status t of
             None \<Rightarrow> Inl validation_error
           | Some new \<Rightarrow>
               if new = cur \<or> legal cur new then Inr new else Inl transition_error)
      | Some _ \<Rightarrow> Inl validation_error)"

text \<open>Modelled from the spec: the resolver a patch names; the field is absent, or
  \<open>human\<close> or \<open>agent\<close>.\<close>

definition patched_resolver :: "(string \<times> json) list \<Rightarrow> string + role option" where
  "patched_resolver kvs =
     (case map_of kvs ''resolvedBy'' of
        None \<Rightarrow> Inr None
      | Some (JStr t) \<Rightarrow>
          (case parse_role t of None \<Rightarrow> Inl validation_error | Some r \<Rightarrow> Inr (Some r))
      | Some _ \<Rightarrow> Inl validation_error)"

definition or_else :: "'a option \<Rightarrow> 'a \<Rightarrow> 'a" where
  "or_else v d = (case v of None \<Rightarrow> d | Some x \<Rightarrow> x)"

definition or_keep :: "'a option \<Rightarrow> 'a option \<Rightarrow> 'a option" where
  "or_keep v old = (case v of None \<Rightarrow> old | Some x \<Rightarrow> Some x)"

definition settled :: "ann_status \<Rightarrow> bool" where
  "settled st = (st = Resolved \<or> st = Dismissed)"

text \<open>Modelled from the spec: the fields of an accepted patch overwrite, absent
  fields are preserved, the update timestamp is bumped; the resolver and the
  resolution time are set exactly while the status is \<open>resolved\<close> or
  \<open>dismissed\<close> (the resolver is the one the patch names, else the one recorded,
  else \<open>human\<close>, the specification naming none for that case).\<close>

definition apply_patch ::
  "nat \<Rightarrow> (string \<times> json) list \<Rightarrow> ann_status \<Rightarrow> role option \<Rightarrow> annotation \<Rightarrow> annotation" where
  "apply_patch now kvs new rb a =
     a\<lparr>a_comment := or_else (get_str kvs ''comment'') (a_comment a),
       a_element := or_else (get_str kvs ''element'') (a_element a),
       a_elementPath := or_else (get_str kvs ''elementPath'') (a_elementPath a),
       a_url := or_keep (get_str kvs ''url'') (a_url a),
       a_intent := or_keep (get_str kvs ''intent'') (a_intent a),
       a_severity := or_keep (get_str kvs ''severity'') (a_severity a),
       a_timestamp := or_keep (get_num kvs ''timestamp'') (a_timestamp a),
       a_nearbyText := or_keep (get_str kvs ''nearbyText'') (a_nearbyText a),
       a_reactComponents := or_keep (get_str kvs ''reactComponents'') (a_reactComponents a),
       a_extras := merge_extras (a_extras a) (extras_of kvs),
       a_status := new,
       a_resolvedBy :=
         (if settled new then Some (or_else (or_keep rb (a_resolvedBy a)) Human) else None),
       a_resolvedAt :=
         (if settled new
          then (if new = a_status a then or_keep (a_resolvedAt a) (Some now) else Some now)
          else None),
       a_updatedAt := now\<rparr>"

definition replace_annotation :: "annotation \<Rightarrow> annotation list \<Rightarrow> annotation list" where
  "replace_annotation a' xs = map (\<lambda>x. if a_id x = a_id a' then a' else x) xs"

text \<open>Modelled from the spec: \<open>updateAnnotation(id, patch)\<close>. A status change is
  checked against the lattice; an illegal transition fails with a validation
  error and changes nothing. An accepted patch produces one event carrying the
  annotation after the change.\<close>

definition spec_updateAnnotation ::
  "string \<Rightarrow> json \<Rightarrow> store \<Rightarrow> (string + annotation option) \<times> event list \<times> store" where
  "spec_updateAnnotation i body s =
     (case spec_getAnnotation i s of
        None \<Rightarrow> (Inr None, [], s)
      | Some a \<Rightarrow>
          (case body of
             JObj kvs \<Rightarrow>
               if \<not> fields_ok kvs then (Inl validation_error, [], s)
               else
                 (case patched_status (a_status a) kvs of
                    Inl m \<Rightarrow> (Inl m, [], s)
                  | Inr new \<Rightarrow>
                      (case patched_resolver kvs of
                         Inl m \<Rightarrow> (Inl m, [], s)
                       | Inr rb \<Rightarrow>
                           (let a' = apply_patch (st_clock s) kvs new rb a;
                                (ev, s1) = emit AnnotationUpdated (a_sessionId a) (PAnnotation a')
                                    (s\<lparr>st_annotations := replace_annotation a' (st_annotations s)\<rparr>)
                            in (Inr (Some a'), [ev], s1))))
           | _ \<Rightarrow> (Inl validation_error, [], s)))"

text \<open>Modelled from the spec: \<open>deleteAnnotation(id)\<close> removes the annotation with
  its thread and returns the snapshot taken before; the event carries that
  snapshot.\<close>

definition spec_deleteAnnotation :: "string \<Rightarrow> store \<Rightarrow> annotation option \<times> event list \<times> store" where
  "spec_deleteAnnotation i s =
     (case spec_getAnnotation i s of
        None \<Rightarrow> (None, [], s)
      | Some a \<Rightarrow>
          (let (ev, s1) = emit AnnotationDeleted (a_sessionId a) (PAnnotation a)
                            (s\<lparr>st_annotations := filter (\<lambda>x. a_id x \<noteq> i) (st_annotations s)\<rparr>)
           in (Some a, [ev], s1)))"

text \<open>Modelled from the spec: \<open>addThreadMessage(annotationId, role, content)\<close>
  appends to the thread, bumps the update timestamp and returns the whole
  annotation; it produces one event.\<close>

definition spec_addThreadMessage ::
  "string \<Rightarrow> json \<Rightarrow> json \<Rightarrow> store \<Rightarrow> (string + annotation option) \<times> event list \<times> store" where
  "spec_addThreadMessage i role content s =
     (case spec_getAnnotation i s of
        None \<Rightarrow> (Inr None, [], s)
      | Some a \<Rightarrow>
          (case (role, content) of
             (JStr r, JStr c) \<Rightarrow>
               (case parse_role r of
                  None \<Rightarrow> (Inl validation_error, [], s)
                | Some ro \<Rightarrow>
                    (let (mi, s1) = fresh_id ''m'' s;
                         msg = \<lparr>m_id = mi, m_annotationId = i, m_role = ro, m_content = c,
                                m_timestamp = st_clock s\<rparr>;
                         a' = a\<lparr>a_thread := a_thread a @ [msg], a_updatedAt := st_clock s\<rparr>;
                         (ev, s2) = emit ThreadMessage (a_sessionId a) (PThread msg)
                             (s1\<lparr>st_annotations := replace_annotation a' (st_annotations s1)\<rparr>)
                     in (Inr (Some a'), [ev], s2)))
           | _ \<Rightarrow> (Inl validation_error, [], s)))"

subsection \<open>Event log\<close>

text \<open>Modelled from the spec: \<open>getEventsSince(sessionId, lastSequence, limit)\<close>,
  the logged events of the session numbered above \<open>lastSequence\<close>, in log order,
  at most \<open>limit\<close> of them when a limit is given.\<close>

definition spec_getEventsSince :: "string \<Rightarrow> int \<Rightarrow> nat option \<Rightarrow> store \<Rightarrow> event list" where
  "spec_getEventsSince sid lastSequence limit s =
     (let found = filter (\<lambda>e. e_sessionId e = sid \<and> lastSequence < int (e_sequence e)) (st_events s)
      in case limit of None \<Rightarrow> found | Some n \<Rightarrow> take n found)"

text \<open>Modelled from the spec: the store as \<open>http.ts\<close> imports it; the handler
  calls \<open>getEventsSince\<close> with no limit.\<close>

definition spec_store :: "store store_ops" where
  "spec_store =
     \<lparr>createSession = spec_createSession,
      getSession = spec_getSession,
      getSessionWithAnnotations = spec_getSessionWithAnnotations,
      addAnnotation = spec_addAnnotation,
      updateAnnotation = spec_updateAnnotation,
      getAnnotation = spec_getAnnotation,
      deleteAnnotation = spec_deleteAnnotation,
      listSessions = spec_listSessions,
      getPendingAnnotations = spec_getPendingAnnotations,
      addThreadMessage = spec_addThreadMessage,
      getEventsSince = (\<lambda>sid n. spec_getEventsSince sid n None),
      tick = (\<lambda>n s. s\<lparr>st_clock := st_clock s + n\<rparr>)\<rparr>"

section \<open>ACP dispatcher (server/mcp.ts)\<close>

subsection \<open>HTTP client\<close>

text \<open>
  What an awaited call does: it returns a value, throws an error (its message),
  or never settles.
\<close>

datatype 'a outcome = Return 'a | Throw string | Blocked

text \<open>
  \<open>fetch(httpBaseUrl + path, {method, body})\<close> against the HTTP surface of the
  same process: the request arrives with the path and search parameters that the
  platform derives from \<open>path\<close>; a body is sent as \<open>JSON.stringify(body)\<close>.
\<close>

definition fetch ::
  "platform \<Rightarrow> 's store_ops \<Rightarrow> string \<Rightarrow> string \<Rightarrow> json option \<Rightarrow> 's world \<Rightarrow> response \<times> 's world" where
  "fetch pf ops method path body w =
     requestListener pf ops
       \<lparr>rq_method = method,
        rq_pathname = fst (parse_target pf path),
        rq_query = snd (parse_target pf path),
        rq_headers = (case body of None \<Rightarrow> [] | Some b \<Rightarrow> [(''content-type'', ''application/json'')]),
        rq_body = (case body of None \<Rightarrow> NoBody | Some b \<Rightarrow> Body b)\<rparr>
       w"

definition res_ok :: "response \<Rightarrow> bool" where
  "res_ok res = (200 \<le> rs_status res \<and> rs_status res \<le> 299)"

text \<open>\<open>res.text()\<close>: the body as sent by \<open>sendJson\<close>. An event stream never ends.\<close>

definition res_text :: "platform \<Rightarrow> response \<Rightarrow> string outcome" where
  "res_text pf res =
     (case rs_body res of
        ErrorBody m \<Rightarrow>
          Return ([CHR ''{'', CHR 0x22] @ ''error'' @ [CHR 0x22, CHR '':''] @ json_quote m @ [CHR ''}''])
      | EmptyBody \<Rightarrow> Return []
      | EventStream c \<Rightarrow> Blocked
      | b \<Rightarrow> Return (stringify pf b))"

text \<open>\<open>res.json()\<close>: the data that was sent; an empty body does not parse.\<close>

definition res_json :: "response \<Rightarrow> res_body outcome" where
  "res_json res =
     (case rs_body res of
        EmptyBody \<Rightarrow> Throw ''Unexpected end of JSON input''
      | EventStream c \<Rightarrow> Blocked
      | b \<Rightarrow> Return b)"

definition http_result :: "platform \<Rightarrow> response \<Rightarrow> res_body outcome" where
  "http_result pf res =
     (if \<not> res_ok res then
        (case res_text pf res of
           Return body \<Rightarrow> Throw (''HTTP '' @ show_nat (rs_status res) @ '': '' @ body)
         | Throw m \<Rightarrow> Throw m
         | Blocked \<Rightarrow> Blocked)
      else res_json res)"

definition httpGet :: "platform \<Rightarrow> 's store_ops \<Rightarrow> string \<Rightarrow> 's world \<Rightarrow> res_body outcome \<times> 's world" where
  "httpGet pf ops path w =
     (case fetch pf ops ''GET'' path None w of (res, w') \<Rightarrow> (http_result pf res, w'))"

definition httpPatch ::
  "platform \<Rightarrow> 's store_ops \<Rightarrow> string \<Rightarrow> json \<Rightarrow> 's world \<Rightarrow> res_body outcome \<times> 's world" where
  "httpPatch pf ops path body w =
     (case fetch pf ops ''PATCH'' path (Some body) w of (res, w') \<Rightarrow> (http_result pf res, w'))"

definition httpPost ::
  "platform \<Rightarrow> 's store_ops \<Rightarrow> string \<Rightarrow> json \<Rightarrow> 's world \<Rightarrow> res_body outcome \<times> 's world" where
  "httpPost pf ops path body w =
     (case fetch pf ops ''POST'' path (Some body) w of (res, w') \<Rightarrow> (http_result pf res, w'))"

subsection \<open>Tool schemas\<close>

text \<open>
  \<open>Schema.parse(args)\<close> for the fields the schemas declare: a required string,
  and an optional string. The text of the error that the schema library throws is
  not reproduced: \<open>schema_error\<close> stands for it.
\<close>

definition schema_error :: "string \<Rightarrow> string" where
  "schema_error k = ''Invalid arguments: '' @ k"

definition required_string :: "json \<Rightarrow> string \<Rightarrow> string + string" where
  "required_string args k =
     (case args of
        JObj kvs \<Rightarrow> (case map_of kvs k of Some (JStr s) \<Rightarrow> Inr s | _ \<Rightarrow> Inl (schema_error k))
      | _ \<Rightarrow> Inl (schema_error k))"

definition optional_string :: "json \<Rightarrow> string \<Rightarrow> string + string option" where
  "optional_string args k =
     (case args of
        JObj kvs \<Rightarrow>
          (case map_of kvs k of
             None \<Rightarrow> Inr None
           | Some (JStr s) \<Rightarrow> Inr (Some s)
           | Some _ \<Rightarrow> Inl (schema_error k))
      | _ \<Rightarrow> Inl (schema_error k))"

subsection \<open>Tool definitions\<close>

text \<open>The catalog \<open>TOOLS\<close>: each tool with the properties of its input schema and
  those that are required (the descriptions are left out).\<close>

record tool =
  t_name :: string
  t_properties :: "string list"
  t_required :: "string list"

definition TOOLS :: "tool list" where
  "TOOLS =
     [\<lparr>t_name = ''agentation_list_sessions'', t_properties = [], t_required = []\<rparr>,
      \<lparr>t_name = ''agentation_get_session'', t_properties = [''sessionId''],
        t_required = [''sessionId'']\<rparr>,
      \<lparr>t_name = ''agentation_get_pending'', t_properties = [''sessionId''],
        t_required = [''sessionId'']\<rparr>,
      \<lparr>t_name = ''agentation_get_all_pending'', t_properties = [], t_required = []\<rparr>,
      \<lparr>t_name = ''agentation_acknowledge'', t_properties = [''annotationId''],
        t_required = [''annotationId'']\<rparr>,
      \<lparr>t_name = ''agentation_resolve'', t_properties = [''annotationId'', ''summary''],
        t_required = [''annotationId'']\<rparr>,
      \<lparr>t_name = ''agentation_dismiss'', t_properties = [''annotationId'', ''reason''],
        t_required = [''annotationId'', ''reason'']\<rparr>,
      \<lparr>t_name = ''agentation_reply'', t_properties = [''annotationId'', ''message''],
        t_required = [''annotationId'', ''message'']\<rparr>]"

subsection \<open>Tool handlers\<close>

text \<open>The fields of an annotation that the pending tools return.\<close>

record pending_view =
  pv_id :: string
  pv_comment :: string
  pv_element :: string
  pv_elementPath :: string
  pv_url :: "string option"
  pv_intent :: "string option"
  pv_severity :: "string option"
  pv_timestamp :: "int option"
  pv_nearbyText :: "string option"
  pv_reactComponents :: "string option"

definition pending_view_of :: "annotation \<Rightarrow> pending_view" where
  "pending_view_of a =
     \<lparr>pv_id = a_id a, pv_comment = a_comment a, pv_element = a_element a,
      pv_elementPath = a_elementPath a, pv_url = a_url a, pv_intent = a_intent a,
      pv_severity = a_severity a, pv_timestamp = a_timestamp a,
      pv_nearbyText = a_nearbyText a, pv_reactComponents = a_reactComponents a\<rparr>"

text \<open>The data of a successful result; the result carries its
  \<open>JSON.stringify(data, null, 2)\<close>. \<open>count\<close> is \<open>None\<close> when the response had
  none.\<close>

datatype tool_data =
    SessionsData "(string \<times> string \<times> session_status \<times> nat) list"
  | ResponseData res_body
  | PendingData "nat option" "pending_view list"
  | AcknowledgedData string
  | ResolvedData string "string option"
  | DismissedData string string
  | RepliedData string string

datatype tool_content = DataText tool_data | PlainText string

record tool_result =
  tr_content :: tool_content
  tr_isError :: bool

definition success :: "tool_data \<Rightarrow> tool_result" where
  "success data = \<lparr>tr_content = DataText data, tr_isError = False\<rparr>"

definition error :: "string \<Rightarrow> tool_result" where
  "error message = \<lparr>tr_content = PlainText message, tr_isError = True\<rparr>"

text \<open>The \<open>catch\<close> clause the tools share: an error whose message includes
  \<open>404\<close> becomes the result \<open>error(notFound)\<close>, any other error is thrown on.\<close>

definition catch_404 :: "string \<Rightarrow> tool_result outcome \<Rightarrow> tool_result outcome" where
  "catch_404 notFound r =
     (case r of
        Throw m \<Rightarrow> if str_includes m ''404'' then Return (error notFound) else Throw m
      | other \<Rightarrow> other)"

text \<open>\<open>response.annotations.map(...)\<close> and \<open>response.count\<close> on the data of a
  response: a pending response has both, a session detail has the annotations
  only, any other data has neither and the call throws.\<close>

definition pending_result :: "res_body outcome \<Rightarrow> tool_result outcome" where
  "pending_result r =
     (case r of
        Return (PendingBody n anns) \<Rightarrow>
          Return (success (PendingData (Some n) (map pending_view_of anns)))
      | Return (SessionDetailBody session anns) \<Rightarrow>
          Return (success (PendingData None (map pending_view_of anns)))
      | Return other \<Rightarrow>
          Throw (''Cannot read properties of undefined (reading '' @ [CHR 0x27] @ ''map''
                  @ [CHR 0x27] @ '')'')
      | Throw m \<Rightarrow> Throw m
      | Blocked \<Rightarrow> Blocked)"

definition agent_message :: "string \<Rightarrow> json" where
  "agent_message content = JObj [(''role'', JStr ''agent''), (''content'', JStr content)]"

definition handleTool ::
  "platform \<Rightarrow> 's store_ops \<Rightarrow> string \<Rightarrow> json \<Rightarrow> 's world \<Rightarrow> tool_result outcome \<times> 's world" where
  "handleTool pf ops name args w =
     (if name = ''agentation_list_sessions'' then
        (case httpGet pf ops ''/sessions'' w of
           (Return (SessionsBody sessions), w') \<Rightarrow>
             (Return (success (SessionsData
                (map (\<lambda>s. (s_id s, s_url s, s_status s, s_createdAt s)) sessions))), w')
         | (Return other, w') \<Rightarrow> (Throw ''sessions.map is not a function'', w')
         | (Throw m, w') \<Rightarrow> (Throw m, w')
         | (Blocked, w') \<Rightarrow> (Blocked, w'))
      else if name = ''agentation_get_session'' then
        (case required_string args ''sessionId'' of
           Inl m \<Rightarrow> (Throw m, w)
         | Inr sessionId \<Rightarrow>
             (case httpGet pf ops (''/sessions/'' @ sessionId) w of
                (r, w') \<Rightarrow>
                  (catch_404 (''Session not found: '' @ sessionId)
                     (case r of
                        Return session \<Rightarrow> Return (success (ResponseData session))
                      | Throw m \<Rightarrow> Throw m
                      | Blocked \<Rightarrow> Blocked), w')))
      else if name = ''agentation_get_pending'' then
        (case required_string args ''sessionId'' of
           Inl m \<Rightarrow> (Throw m, w)
         | Inr sessionId \<Rightarrow>
             (case httpGet pf ops (''/sessions/'' @ sessionId @ ''/pending'') w of
                (r, w') \<Rightarrow> (pending_result r, w')))
      else if name = ''agentation_get_all_pending'' then
        (case httpGet pf ops ''/pending'' w of (r, w') \<Rightarrow> (pending_result r, w'))
      else if name = ''agentation_acknowledge'' then
        (case required_string args ''annotationId'' of
           Inl m \<Rightarrow> (Throw m, w)
         | Inr annotationId \<Rightarrow>
             (case httpPatch pf ops (''/annotations/'' @ annotationId)
                     (JObj [(''status'', JStr ''acknowledged'')]) w of
                (r, w') \<Rightarrow>
                  (catch_404 (''Annotation not found: '' @ annotationId)
                     (case r of
                        Return x \<Rightarrow> Return (success (AcknowledgedData annotationId))
                      | Throw m \<Rightarrow> Throw m
                      | Blocked \<Rightarrow> Blocked), w')))
      else if name = ''agentation_resolve'' then
        (case required_string args ''annotationId'' of
           Inl m \<Rightarrow> (Throw m, w)
         | Inr annotationId \<Rightarrow>
             (case optional_string args ''summary'' of
                Inl m \<Rightarrow> (Throw m, w)
              | Inr summary \<Rightarrow>
                  (case httpPatch pf ops (''/annotations/'' @ annotationId)
                          (JObj [(''status'', JStr ''resolved''), (''resolvedBy'', JStr ''agent'')]) w of
                     (Return x, w1) \<Rightarrow>
                       (case summary of
                          Some (c # cs) \<Rightarrow>
                            (case httpPost pf ops (''/annotations/'' @ annotationId @ ''/thread'')
                                    (agent_message (''Resolved: '' @ c # cs)) w1 of
                               (r, w2) \<Rightarrow>
                                 (catch_404 (''Annotation not found: '' @ annotationId)
                                    (case r of
                                       Return y \<Rightarrow>
                                         Return (success (ResolvedData annotationId summary))
                                     | Throw m \<Rightarrow> Throw m
                                     | Blocked \<Rightarrow> Blocked), w2))
                        | _ \<Rightarrow> (Return (success (ResolvedData annotationId summary)), w1))
                   | (r, w1) \<Rightarrow>
                       (catch_404 (''Annotation not found: '' @ annotationId)
                          (case r of
                             Throw m \<Rightarrow> Throw m
                           | _ \<Rightarrow> Blocked), w1))))
      else if name = ''agentation_dismiss'' then
        (case required_string args ''annotationId'' of
           Inl m \<Rightarrow> (Throw m, w)
         | Inr annotationId \<Rightarrow>
             (case required_string args ''reason'' of
                Inl m \<Rightarrow> (Throw m, w)
              | Inr reason \<Rightarrow>
                  (case httpPatch pf ops (''/annotations/'' @ annotationId)
                          (JObj [(''status'', JStr ''dismissed''), (''resolvedBy'', JStr ''agent'')]) w of
                     (Return x, w1) \<Rightarrow>
                       (case httpPost pf ops (''/annotations/'' @ annotationId @ ''/thread'')
                               (agent_message (''Dismissed: '' @ reason)) w1 of
                          (r, w2) \<Rightarrow>
                            (catch_404 (''Annotation not found: '' @ annotationId)
                               (case r of
                                  Return y \<Rightarrow>
                                    Return (success (DismissedData annotationId reason))
                                | Throw m \<Rightarrow> Throw m
                                | Blocked \<Rightarrow> Blocked), w2))
                   | (r, w1) \<Rightarrow>
                       (catch_404 (''Annotation not found: '' @ annotationId)
                          (case r of
                             Throw m \<Rightarrow> Throw m
                           | _ \<Rightarrow> Blocked), w1))))
      else if name = ''agentation_reply'' then
        (case required_string args ''annotationId'' of
           Inl m \<Rightarrow> (Throw m, w)
         | Inr annotationId \<Rightarrow>
             (case required_string args ''message'' of
                Inl m \<Rightarrow> (Throw m, w)
              | Inr message \<Rightarrow>
                  (case httpPost pf ops (''/annotations/'' @ annotationId @ ''/thread'')
                          (agent_message message) w of
                     (r, w') \<Rightarrow>
                       (catch_404 (''Annotation not found: '' @ annotationId)
                          (case r of
                             Return y \<Rightarrow> Return (success (RepliedData annotationId message))
                           | Throw m \<Rightarrow> Throw m
                           | Blocked \<Rightarrow> Blocked), w'))))
      else (Return (error (''Unknown tool: '' @ name)), w))"

text \<open>The handler of \<open>CallToolRequestSchema\<close>: an error thrown by \<open>handleTool\<close>
  becomes an error result carrying its message.\<close>

definition callTool ::
  "platform \<Rightarrow> 's store_ops \<Rightarrow> string \<Rightarrow> json \<Rightarrow> 's world \<Rightarrow> tool_result outcome \<times> 's world" where
  "callTool pf ops name args w =
     (case handleTool pf ops name args w of
        (Throw message, w') \<Rightarrow> (Return (error message), w')
      | other \<Rightarrow> other)"

text \<open>The handler of \<open>ListToolsRequestSchema\<close>.\<close>

definition listTools :: "tool list" where
  "listTools = TOOLS"

section \<open>Command line: the server command (cli.ts)\<close>

record server_options =
  so_port :: int
  so_mcpOnly :: bool
  so_httpUrl :: string
  so_apiKeyArg :: "string option"

text \<open>\<open>args[i] === flag\<close>, and \<open>args[i]\<close> when it is truthy (present and not empty).\<close>

definition arg_is :: "string list \<Rightarrow> nat \<Rightarrow> string \<Rightarrow> bool" where
  "arg_is args i flag = (js_index args i = Some flag)"

definition arg_value :: "string list \<Rightarrow> nat \<Rightarrow> string option" where
  "arg_value args i =
     (case js_index args i of None \<Rightarrow> None | Some v \<Rightarrow> if v = [] then None else Some v)"

text \<open>One iteration of the loop over the arguments, from index \<open>i\<close>: the index
  after the four tests (each may skip the value it consumed) and the options.\<close>

definition server_arg_step :: "string list \<Rightarrow> nat \<Rightarrow> server_options \<Rightarrow> nat \<times> server_options" where
  "server_arg_step args i opts =
     (let (i1, o1) =
            (case (arg_is args i ''--port'', arg_value args (i + 1)) of
               (True, Some v) \<Rightarrow>
                 (i + 1,
                  case parseInt v of
                    None \<Rightarrow> opts
                  | Some parsed \<Rightarrow>
                      if parsed > 0 \<and> parsed < 65536 then
                        opts\<lparr>so_port := parsed,
                             so_httpUrl :=
                               (if ''--http-url'' \<in> set args then so_httpUrl opts
                                else ''http://localhost:'' @ show_nat (nat parsed))\<rparr>
                      else opts)
             | _ \<Rightarrow> (i, opts));
          o2 = (if arg_is args i1 ''--mcp-only'' then o1\<lparr>so_mcpOnly := True\<rparr> else o1);
          (i3, o3) =
            (case (arg_is args i1 ''--http-url'', arg_value args (i1 + 1)) of
               (True, Some v) \<Rightarrow> (i1 + 1, o2\<lparr>so_httpUrl := v\<rparr>)
             | _ \<Rightarrow> (i1, o2));
          (i4, o4) =
            (case (arg_is args i3 ''--api-key'', arg_value args (i3 + 1)) of
               (True, Some v) \<Rightarrow> (i3 + 1, o3\<lparr>so_apiKeyArg := Some v\<rparr>)
             | _ \<Rightarrow> (i3, o3))
      in (i4, o4))"

lemma server_arg_step_advances: "server_arg_step args i opts = (i', opts') \<Longrightarrow> i \<le> i'"
  by (auto simp: server_arg_step_def Let_def split: prod.splits bool.splits option.splits)

function server_args_loop :: "string list \<Rightarrow> nat \<Rightarrow> server_options \<Rightarrow> server_options" where
  "server_args_loop args i opts =
     (if i < length args then
        (case server_arg_step args i opts of (i', opts') \<Rightarrow> server_args_loop args (i' + 1) opts')
      else opts)"
  by pat_completeness auto
termination
  by (relation "measure (\<lambda>(args, i, opts). length args - i)")
     (auto dest!: server_arg_step_advances [OF sym])

declare server_args_loop.simps [simp del]

definition default_options :: server_options where
  "default_options =
     \<lparr>so_port = 4747, so_mcpOnly = False, so_httpUrl = ''http://localhost:4747'',
      so_apiKeyArg = None\<rparr>"

text \<open>\<open>apiKeyArg || process.env.AGENTATION_API_KEY\<close>, when it is truthy.\<close>

definition api_key :: "server_options \<Rightarrow> string option \<Rightarrow> string option" where
  "api_key opts env =
     (case so_apiKeyArg opts of
        Some k \<Rightarrow> Some k
      | None \<Rightarrow> (case env of None \<Rightarrow> None | Some k \<Rightarrow> if k = [] then None else Some k))"

text \<open>
  What the \<open>server\<close> command starts from the arguments after \<open>server\<close> and the
  environment variable: the HTTP listener unless \<open>--mcp-only\<close> was given, the
  base URL of the dispatcher, and the API key it holds. The command calls
  \<open>setApiKey(apiKey)\<close> when there is a key, then \<open>startHttpServer(port, apiKey)\<close>;
  the function has the port as its only parameter. \<open>setApiKey\<close> is imported from
  \<open>server/index.js\<close> and is not among the sources: the callback of
  \<open>startHttpServer\<close> reads no key, so what \<open>setApiKey\<close> can change for it is the
  store that it imports. It is a parameter here, any function from the key and
  the operations of the store to the operations of the store.
\<close>

record 's started =
  st_http :: "(url_parser \<Rightarrow> platform \<Rightarrow> raw_request \<Rightarrow> 's world \<Rightarrow> response option \<times> 's world) option"
  st_baseUrl :: string
  st_apiKey :: "string option"

definition server_command ::
  "(string \<Rightarrow> 's store_ops \<Rightarrow> 's store_ops) \<Rightarrow> 's store_ops \<Rightarrow> string list \<Rightarrow> string option
     \<Rightarrow> 's started" where
  "server_command setApiKey ops args env =
     (let opts = server_args_loop args 0 default_options;
          apiKey = api_key opts env;
          ops' = (case apiKey of None \<Rightarrow> ops | Some k \<Rightarrow> setApiKey k ops)
      in \<lparr>st_http =
            (if so_mcpOnly opts then None
             else Some (\<lambda>new_URL pf. startHttpServer (so_port opts) new_URL pf ops')),
          st_baseUrl = so_httpUrl opts,
          st_apiKey = apiKey\<rparr>)"

section \<open>The running process\<close>

text \<open>
  What happens to the process, one event at a time: an HTTP request arrives, the
  client of a stream disconnects, the keep-alive timer of a stream fires, the
  agent calls a tool, time passes.
\<close>

datatype input =
    Request request
  | Close nat
  | KeepAlive nat
  | ToolCall string json
  | Elapse nat

datatype reaction = Response response | ToolOutcome "tool_result outcome" | NoOutput

definition close_stream :: "nat \<Rightarrow> 's world \<Rightarrow> 's world" where
  "close_stream cid w = w\<lparr>w_conns := filter (\<lambda>c. c_id c \<noteq> cid) (w_conns w)\<rparr>"

definition keep_alive :: "nat \<Rightarrow> 's world \<Rightarrow> 's world" where
  "keep_alive cid w =
     w\<lparr>w_conns :=
         map (\<lambda>c. if c_id c = cid then c\<lparr>c_out := c_out c @ [Comment ''ping'']\<rparr> else c)
           (w_conns w)\<rparr>"

definition step :: "platform \<Rightarrow> 's store_ops \<Rightarrow> input \<Rightarrow> 's world \<Rightarrow> reaction \<times> 's world" where
  "step pf ops i w =
     (case i of
        Request req \<Rightarrow> (case requestListener pf ops req w of (res, w') \<Rightarrow> (Response res, w'))
      | Close cid \<Rightarrow> (NoOutput, close_stream cid w)
      | KeepAlive cid \<Rightarrow> (NoOutput, keep_alive cid w)
      | ToolCall name args \<Rightarrow>
          (case callTool pf ops name args w of (r, w') \<Rightarrow> (ToolOutcome r, w'))
      | Elapse n \<Rightarrow> (NoOutput, w\<lparr>w_store := tick ops n (w_store w)\<rparr>))"

fun run :: "platform \<Rightarrow> 's store_ops \<Rightarrow> 's world \<Rightarrow> input list \<Rightarrow> 's world" where
  "run pf ops w [] = w"
| "run pf ops w (i # rest) = run pf ops (snd (step pf ops i w)) rest"

definition start :: "'s \<Rightarrow> 's world" where
  "start s = \<lparr>w_store = s, w_conns = [], w_next = 0\<rparr>"

text \<open>A platform for the examples: the path of a target is what precedes \<open>?\<close>,
  the host of an absolute \<open>http://\<close> URL is what lies between the scheme and the
  next \<open>/\<close>; it agrees with the URL parser on the plain targets and URLs the
  examples use.\<close>

definition example_host :: "string \<Rightarrow> string option" where
  "example_host u =
     (if starts_with u ''http://'' \<and> length u > 7
      then Some (takeWhile (\<lambda>c. c \<noteq> CHR ''/'') (drop 7 u))
      else None)"

definition example_platform :: platform where
  "example_platform =
     \<lparr>url_host = example_host,
      parse_target = (\<lambda>t. (takeWhile (\<lambda>c. c \<noteq> CHR ''?'') t, [])),
      stringify = (\<lambda>b. [])\<rparr>"

section \<open>Requests and states of the examples\<close>

text \<open>\<open>GET /sessions\<close> with the given headers.\<close>

definition list_request :: "(string \<times> string) list \<Rightarrow> raw_request" where
  "list_request headers =
     \<lparr>rr_method = ''GET'', rr_url = ''/sessions'', rr_headers = headers, rr_body = NoBody\<rparr>"

text \<open>A URL parser for the examples: a target that begins with two slashes is
  refused, as the empty host makes \<open>new URL\<close> throw; of any other target the
  path is what precedes \<open>?\<close>. It agrees with \<open>new URL\<close> on the plain targets the
  examples use.\<close>

definition example_url :: url_parser where
  "example_url t base =
     (if starts_with t ''//'' then None
      else Some (takeWhile (\<lambda>c. c \<noteq> CHR ''?'') t, []))"


text \<open>The requests of the end-to-end scenarios of the specification.\<close>

definition json_request :: "string \<Rightarrow> string \<Rightarrow> (string \<times> json) list \<Rightarrow> request" where
  "json_request m p kvs =
     \<lparr>rq_method = m, rq_pathname = p, rq_query = [], rq_headers = [],
      rq_body = Body (JObj kvs)\<rparr>"

definition bare_request :: "string \<Rightarrow> string \<Rightarrow> request" where
  "bare_request m p =
     \<lparr>rq_method = m, rq_pathname = p, rq_query = [], rq_headers = [], rq_body = NoBody\<rparr>"

definition post_session :: input where
  "post_session = Request (json_request ''POST'' ''/sessions'' [(''url'', JStr ''http://localhost:3000/x'')])"

definition post_annotation :: input where
  "post_annotation =
     Request (json_request ''POST'' ''/sessions/s0/annotations''
       [(''comment'', JStr ''fix me''), (''element'', JStr ''button''),
        (''elementPath'', JStr ''body>button'')])"

definition patch_status :: "string \<Rightarrow> input" where
  "patch_status status =
     Request (json_request ''PATCH'' ''/annotations/a1'' [(''status'', JStr status)])"

text \<open>A process that has served the creation of a session \<open>s0\<close> and of an
  annotation \<open>a1\<close> in it.\<close>

definition pending_world :: "store world" where
  "pending_world = run example_platform spec_store (start empty_store) [post_session, post_annotation]"


text \<open>Arguments naming an annotation and a session that do not exist.\<close>

definition missing_args :: json where
  "missing_args =
     JObj [(''annotationId'', JStr ''a7''), (''sessionId'', JStr ''s9''),
           (''reason'', JStr ''duplicate''), (''message'', JStr ''hello'')]"

text \<open>The calls of the \<open>resolve\<close> tool in the examples, the body of its PATCH, and
  the annotation \<open>a1\<close> as the store returns it once resolved by the agent.\<close>

definition resolve_args :: "string \<Rightarrow> json" where
  "resolve_args summary = JObj [(''annotationId'', JStr ''a1''), (''summary'', JStr summary)]"


definition resolved_a1 :: annotation where
  "resolved_a1 =
     \<lparr>a_id = ''a1'', a_sessionId = ''s0'', a_comment = ''fix me'', a_element = ''button'',
      a_elementPath = ''body>button'', a_url = None, a_intent = None, a_severity = None,
      a_timestamp = None, a_nearbyText = None, a_reactComponents = None, a_extras = [],
      a_status = Resolved, a_resolvedBy = Some Agent, a_resolvedAt = Some 0,
      a_createdAt = 0, a_updatedAt = 0, a_thread = []\<rparr>"


text \<open>The domain scenario: sessions on the hosts \<open>localhost:3000\<close> (\<open>s0\<close>) and
  \<open>localhost:3001\<close> (\<open>s1\<close>), then a subscription to \<open>/events\<close> for the
  second host.\<close>

definition post_session_3001 :: input where
  "post_session_3001 =
     Request (json_request ''POST'' ''/sessions'' [(''url'', JStr ''http://localhost:3001/y'')])"

definition events_request :: "(string \<times> string) list \<Rightarrow> request" where
  "events_request q =
     \<lparr>rq_method = ''GET'', rq_pathname = ''/events'', rq_query = q, rq_headers = [],
      rq_body = NoBody\<rparr>"

definition two_hosts_world :: "store world" where
  "two_hosts_world =
     run example_platform spec_store (start empty_store) [post_session, post_session_3001]"

definition domain_world :: "store world" where
  "domain_world =
     run example_platform spec_store two_hosts_world
       [Request (events_request [(''domain'', ''localhost:3001'')])]"

text \<open>The annotation \<open>a1\<close> as created, and the request of a status patch on it.\<close>

definition pending_a1 :: annotation where
  "pending_a1 = resolved_a1\<lparr>a_status := Pending, a_resolvedBy := None, a_resolvedAt := None\<rparr>"

definition patch_request :: "string \<Rightarrow> request" where
  "patch_request status = json_request ''PATCH'' ''/annotations/a1'' [(''status'', JStr status)]"

text \<open>A reconnection to the stream of session \<open>s0\<close> after event 1, and the world
  after it and one more status change.\<close>

definition replay_request :: request where
  "replay_request =
     \<lparr>rq_method = ''GET'', rq_pathname = ''/sessions/s0/events'', rq_query = [],
      rq_headers = [(''last-event-id'', ''1'')], rq_body = NoBody\<rparr>"

definition replayed_world :: "store world" where
  "replayed_world =
     run example_platform spec_store
       (snd (requestListener example_platform spec_store replay_request pending_world))
       [patch_status ''acknowledged'']"

section \<open>What a request can do to the process\<close>

text \<open>
  A store mutation, as seen from the HTTP surface: the state before, the events
  emitted, the state after.
\<close>

inductive mutation :: "'s store_ops \<Rightarrow> 's \<Rightarrow> event list \<Rightarrow> 's \<Rightarrow> bool" for ops where
  session_created: "createSession ops u p s = (r, evs, s') \<Longrightarrow> mutation ops s evs s'"
| annotation_added: "addAnnotation ops i b s = (ra, evs, s') \<Longrightarrow> mutation ops s evs s'"
| annotation_updated: "updateAnnotation ops i b s = (ra, evs, s') \<Longrightarrow> mutation ops s evs s'"
| annotation_deleted: "deleteAnnotation ops i s = (rd, evs, s') \<Longrightarrow> mutation ops s evs s'"
| message_added: "addThreadMessage ops i ro c s = (ra, evs, s') \<Longrightarrow> mutation ops s evs s'"

text \<open>
  The effect of one request on the process: nothing, a new stream, or one store
  mutation whose events are published.
\<close>

inductive effect :: "platform \<Rightarrow> 's store_ops \<Rightarrow> 's world \<Rightarrow> 's world \<Rightarrow> bool" for pf ops where
  unchanged: "effect pf ops w w"
| opened: "effect pf ops w
     (w\<lparr>w_conns := w_conns w @ [\<lparr>c_id = w_next w, c_sink = k, c_out = first\<rparr>],
       w_next := w_next w + 1\<rparr>)"
| mutated: "mutation ops (w_store w) evs s' \<Longrightarrow>
     effect pf ops w (publish pf ops evs (w\<lparr>w_store := s'\<rparr>))"

text \<open>The event log is numbered \<open>1, 2, ..., n\<close>, \<open>n\<close> being the reading of the
  counter of the bus.\<close>

definition numbered :: "store \<Rightarrow> bool" where
  "numbered s = (map e_sequence (st_events s) = [1..<Suc (st_sequence s)])"

text \<open>The events that the frames written to a stream carry, and the stream of a
  given response object.\<close>

fun frames :: "chunk list \<Rightarrow> event list" where
  "frames [] = []"
| "frames (EventFrame ev # rest) = ev # frames rest"
| "frames (Comment c # rest) = frames rest"

definition stream :: "nat \<Rightarrow> 's world \<Rightarrow> connection option" where
  "stream cid w = find (\<lambda>c. c_id c = cid) (w_conns w)"

text \<open>A mutation appends its events to the log, numbered from the counter on.\<close>

definition appended :: "store \<Rightarrow> event list \<Rightarrow> store \<Rightarrow> bool" where
  "appended s evs s' =
     (st_events s' = st_events s @ evs
      \<and> st_sequence s' = st_sequence s + length evs
      \<and> map e_sequence evs = [Suc (st_sequence s)..<Suc (st_sequence s + length evs)])"

text \<open>Every annotation id in the store was issued by the id counter; an id was
  issued and is no longer in the store.\<close>

definition issued :: "store \<Rightarrow> bool" where
  "issued s = (\<forall>a \<in> set (st_annotations s). \<exists>k < st_nextId s. a_id a = ''a'' @ show_nat k)"

definition retired :: "string \<Rightarrow> store \<Rightarrow> bool" where
  "retired i s =
     ((\<exists>k < st_nextId s. i = ''a'' @ show_nat k) \<and> i \<notin> a_id ` set (st_annotations s))"

text \<open>From one state to the next the id counter does not go back, and an
  annotation id of the next state is one of the state before or the one the
  counter just issued.\<close>

definition ids_grow :: "store \<Rightarrow> store \<Rightarrow> bool" where
  "ids_grow s s' =
     (st_nextId s \<le> st_nextId s'
      \<and> (\<forall>x \<in> set (st_annotations s').
            a_id x \<in> a_id ` set (st_annotations s)
            \<or> (a_id x = ''a'' @ show_nat (st_nextId s) \<and> st_nextId s < st_nextId s')))"

text \<open>The ids of the open streams are below the next id to give.\<close>

definition fresh_conns :: "'s world \<Rightarrow> bool" where
  "fresh_conns w = (\<forall>c \<in> set (w_conns w). c_id c < w_next w)"

text \<open>The stream \<open>cid\<close> of session \<open>sid\<close>, opened with the chunks \<open>first\<close> when the
  log was \<open>log0\<close>, is open; the log has grown from \<open>log0\<close>, and what was written to
  the stream since carries exactly the events of the session logged since, in
  the order of the log.\<close>

definition follows :: "nat \<Rightarrow> string \<Rightarrow> chunk list \<Rightarrow> event list \<Rightarrow> store world \<Rightarrow> bool" where
  "follows cid sid first log0 w =
     (\<exists>more rest.
        st_events (w_store w) = log0 @ more
        \<and> stream cid w = Some \<lparr>c_id = cid, c_sink = SessionSink sid, c_out = first @ rest\<rparr>
        \<and> frames rest = filter (\<lambda>e. e_sessionId e = sid) more)"

section \<open>Port parsing: properties\<close>

lemma port_arg_at_range:
  "port_arg_at args i = Some p \<Longrightarrow> 1 \<le> p \<and> p \<le> 65535"
  by (auto simp: port_arg_at_def split: if_splits option.splits json.splits)

lemma port_arg_loop_range:
  "1 \<le> port_arg_loop args i \<and> port_arg_loop args i \<le> 65535"
proof (induction args i rule: port_arg_loop.induct)
  case (1 args i)
  show ?case
  proof (cases "i < length args")
    case False
    then show ?thesis by (simp add: DEFAULT_PORT_def)
  next
    case True
    show ?thesis
    proof (cases "port_arg_at args i")
      case None
      with True 1 show ?thesis by simp
    next
      case (Some p)
      with True port_arg_at_range [OF Some] show ?thesis by simp
    qed
  qed
qed

lemma port_arg_loop_none:
  "(\<And>j. i \<le> j \<Longrightarrow> j < length args \<Longrightarrow> port_arg_at args j = None)
     \<Longrightarrow> port_arg_loop args i = DEFAULT_PORT"
proof (induction args i rule: port_arg_loop.induct)
  case (1 args i)
  show ?case
  proof (cases "i < length args")
    case False
    then show ?thesis by simp
  next
    case True
    have here: "port_arg_at args i = None" using 1(2) True by simp
    have "port_arg_loop args (i + 1) = DEFAULT_PORT"
      using 1(1) [OF True here] 1(2) by simp
    with True here show ?thesis by simp
  qed
qed

lemma port_arg_loop_first:
  "i \<le> k \<Longrightarrow> k < length args \<Longrightarrow> port_arg_at args k = Some p
     \<Longrightarrow> (\<And>j. i \<le> j \<Longrightarrow> j < k \<Longrightarrow> port_arg_at args j = None)
     \<Longrightarrow> port_arg_loop args i = p"
proof (induction args i rule: port_arg_loop.induct)
  case (1 args i)
  have inb: "i < length args" using 1(2,3) by simp
  show ?case
  proof (cases "i = k")
    case True
    with inb 1(4) show ?thesis by simp
  next
    case False
    then have lt: "i < k" using 1(2) by simp
    have here: "port_arg_at args i = None" using 1(5) lt by simp
    have "port_arg_loop args (i + 1) = p"
      using 1(1) [OF inb here _ 1(3) 1(4)] lt 1(5) by simp
    with inb here show ?thesis by simp
  qed
qed

text \<open>
  C10. Port parsing is total and always yields a valid port.
  \<^item> For every input string, \<open>parsePortInput\<close> returns an integer between 1 and
    65535; it returns the default 4747 whenever the trimmed input is empty, is
    not numeric (\<open>parseInt\<close> of it is \<open>NaN\<close>) or parses to a number outside
    that range; otherwise it returns the parsed number.
  \<^item> For every value, \<open>parsePortFromArgArray\<close> returns an integer between 1 and
    65535; it returns 4747 unless the value is an array that holds \<open>"--port"\<close>
    immediately followed by a string parsing to an integer between 1 and 65535,
    and then it returns that integer (of the first such position).
\<close>

theorem port_parsing_total:
  "(1 \<le> parsePortInput input \<and> parsePortInput input \<le> 65535)
   \<and> (trim input = [] \<or> parseInt (trim input) = None
        \<or> (\<exists>p. parseInt (trim input) = Some p \<and> (p < 1 \<or> 65535 < p))
      \<longrightarrow> parsePortInput input = 4747)
   \<and> (trim input \<noteq> [] \<and> parseInt (trim input) = Some q \<and> 1 \<le> q \<and> q \<le> 65535
      \<longrightarrow> parsePortInput input = q)
   \<and> (1 \<le> parsePortFromArgArray v \<and> parsePortFromArgArray v \<le> 65535)
   \<and> (\<not> (\<exists>xs i s p. v = JArr xs \<and> i + 1 < length xs \<and> xs ! i = JStr ''--port''
            \<and> xs ! (i + 1) = JStr s \<and> parseInt s = Some p \<and> 1 \<le> p \<and> p \<le> 65535)
      \<longrightarrow> parsePortFromArgArray v = 4747)
   \<and> (i + 1 < length xs \<and> xs ! i = JStr ''--port'' \<and> xs ! (i + 1) = JStr s
        \<and> parseInt s = Some r \<and> 1 \<le> r \<and> r \<le> 65535
        \<and> (\<forall>j<i. \<forall>s' p'. xs ! j = JStr ''--port'' \<and> xs ! (j + 1) = JStr s'
               \<and> parseInt s' = Some p' \<longrightarrow> p' < 1 \<or> 65535 < p')
      \<longrightarrow> parsePortFromArgArray (JArr xs) = r)"
proof (intro conjI impI)
  show "1 \<le> parsePortInput input"
    by (simp add: parsePortInput_def DEFAULT_PORT_def Let_def split: option.splits)
  show "parsePortInput input \<le> 65535"
    by (simp add: parsePortInput_def DEFAULT_PORT_def Let_def split: option.splits)
next
  assume "trim input = [] \<or> parseInt (trim input) = None
        \<or> (\<exists>p. parseInt (trim input) = Some p \<and> (p < 1 \<or> 65535 < p))"
  then show "parsePortInput input = 4747"
    by (auto simp: parsePortInput_def DEFAULT_PORT_def Let_def split: option.splits)
next
  assume "trim input \<noteq> [] \<and> parseInt (trim input) = Some q \<and> 1 \<le> q \<and> q \<le> 65535"
  then show "parsePortInput input = q"
    by (auto simp: parsePortInput_def Let_def)
next
  show "1 \<le> parsePortFromArgArray v"
    by (cases v) (simp_all add: parsePortFromArgArray_def DEFAULT_PORT_def port_arg_loop_range
        del: port_arg_loop.simps)
  show "parsePortFromArgArray v \<le> 65535"
    by (cases v) (simp_all add: parsePortFromArgArray_def DEFAULT_PORT_def port_arg_loop_range
        del: port_arg_loop.simps)
next
  assume none: "\<not> (\<exists>xs i s p. v = JArr xs \<and> i + 1 < length xs \<and> xs ! i = JStr ''--port''
            \<and> xs ! (i + 1) = JStr s \<and> parseInt s = Some p \<and> 1 \<le> p \<and> p \<le> 65535)"
  show "parsePortFromArgArray v = 4747"
  proof (cases v)
    case (JArr xs)
    have "port_arg_at xs j = None" for j
    proof (rule ccontr)
      assume "port_arg_at xs j \<noteq> None"
      then obtain p where "port_arg_at xs j = Some p" by auto
      then have "\<exists>s. j + 1 < length xs \<and> xs ! j = JStr ''--port'' \<and> xs ! (j + 1) = JStr s
                  \<and> parseInt s = Some p \<and> 1 \<le> p \<and> p \<le> 65535"
        by (auto simp: port_arg_at_def js_index_def split: if_splits option.splits json.splits)
      with none JArr show False by blast
    qed
    then have "port_arg_loop xs 0 = DEFAULT_PORT"
      by (intro port_arg_loop_none) simp
    with JArr show ?thesis by (simp add: parsePortFromArgArray_def DEFAULT_PORT_def)
  qed (simp_all add: parsePortFromArgArray_def DEFAULT_PORT_def)
next
  assume h: "i + 1 < length xs \<and> xs ! i = JStr ''--port'' \<and> xs ! (i + 1) = JStr s
        \<and> parseInt s = Some r \<and> 1 \<le> r \<and> r \<le> 65535
        \<and> (\<forall>j<i. \<forall>s' p'. xs ! j = JStr ''--port'' \<and> xs ! (j + 1) = JStr s'
               \<and> parseInt s' = Some p' \<longrightarrow> p' < 1 \<or> 65535 < p')"
  then have hit: "port_arg_at xs i = Some r"
    by (simp add: port_arg_at_def js_index_def)
  have before: "port_arg_at xs j = None" if "j < i" for j
  proof (rule ccontr)
    assume "port_arg_at xs j \<noteq> None"
    then obtain p where "port_arg_at xs j = Some p" by auto
    then have "\<exists>s'. xs ! j = JStr ''--port'' \<and> xs ! (j + 1) = JStr s'
                \<and> parseInt s' = Some p \<and> 1 \<le> p \<and> p \<le> 65535"
      by (auto simp: port_arg_at_def js_index_def split: if_splits option.splits json.splits)
    with h that show False by fastforce
  qed
  have "port_arg_loop xs 0 = r"
    using h by (intro port_arg_loop_first [where k = i] hit before) simp_all
  then show "parsePortFromArgArray (JArr xs) = r"
    by (simp add: parsePortFromArgArray_def)
qed

lemma parseInt_8080: "parseInt ''8080'' = Some 8080"
  by (simp add: parseInt_def js_whitespace_def is_digit_def digits_val_def digit_val_def)

lemma trim_8080: "trim '' 8080 '' = ''8080''"
  by (simp add: trim_def js_whitespace_def)

theorem port_parsing_total_witness:
  "parsePortInput '' 8080 '' = 8080
   \<and> parsePortInput ''http'' = 4747
   \<and> parsePortFromArgArray (JArr [JStr ''agentation-mcp'', JStr ''server'']) = 4747
   \<and> parsePortFromArgArray
        (JArr [JStr ''agentation-mcp'', JStr ''server'', JStr ''--port'', JStr ''8080'']) = 8080"
proof -
  have a: "parsePortInput '' 8080 '' = 8080"
    using port_parsing_total [of "'' 8080 ''" 8080] parseInt_8080 trim_8080 by simp
  have "parseInt (trim ''http'') = None"
    by (simp add: parseInt_def trim_def js_whitespace_def is_digit_def)
  then have b: "parsePortInput ''http'' = 4747"
    using port_parsing_total [of "''http''"] by simp
  have "\<not> (\<exists>xs i s p. JArr [JStr ''agentation-mcp'', JStr ''server''] = JArr xs
           \<and> i + 1 < length xs \<and> xs ! i = JStr ''--port'' \<and> xs ! (i + 1) = JStr s
           \<and> parseInt s = Some p \<and> 1 \<le> p \<and> p \<le> 65535)"
    by (auto simp: less_Suc_eq nth_Cons')
  then have c: "parsePortFromArgArray (JArr [JStr ''agentation-mcp'', JStr ''server'']) = 4747"
    using port_parsing_total
      [where v = "JArr [JStr ''agentation-mcp'', JStr ''server'']"] by blast
  have d: "parsePortFromArgArray
        (JArr [JStr ''agentation-mcp'', JStr ''server'', JStr ''--port'', JStr ''8080'']) = 8080"
    using port_parsing_total
      [where xs = "[JStr ''agentation-mcp'', JStr ''server'', JStr ''--port'', JStr ''8080'']"
         and i = 2 and s = "''8080''" and r = 8080]
      parseInt_8080
    by (simp add: less_Suc_eq nth_Cons' numeral_2_eq_2)
  from a b c d show ?thesis by simp
qed

section \<open>HTTP surface: routing and statuses\<close>

lemma takeWhile_no_slash: "CHR ''/'' \<notin> set seg \<Longrightarrow> takeWhile (\<lambda>c. c \<noteq> CHR ''/'') (seg @ CHR ''/'' # rest) = seg"
  by (induction seg) auto

lemma takeWhile_no_slash_end: "CHR ''/'' \<notin> set seg \<Longrightarrow> takeWhile (\<lambda>c. c \<noteq> CHR ''/'') seg = seg"
  by (induction seg) auto

lemma takeWhile_slash_prefix: "length (takeWhile (\<lambda>c. c \<noteq> CHR ''/'') xs) \<le> length xs"
  by (rule length_takeWhile_le)

lemma match_in_handler:
  "match_in rs m p = Some (h, ps) \<Longrightarrow> h \<in> r_handler ` set rs"
  by (induction rs) (auto split: if_splits option.splits)

lemma route_patch_annotation:
  "i \<noteq> [] \<Longrightarrow> CHR ''/'' \<notin> set i \<Longrightarrow>
   matchRoute pf ops ''PATCH'' (''/annotations/'' @ i) = Some (updateAnnotationHandler pf ops, [(''id'', i)])"
  by (simp add: matchRoute_def routes_def match_pattern_def starts_with_def takeWhile_no_slash_end)

lemma route_delete_annotation:
  "i \<noteq> [] \<Longrightarrow> CHR ''/'' \<notin> set i \<Longrightarrow>
   matchRoute pf ops ''DELETE'' (''/annotations/'' @ i) = Some (deleteAnnotationHandler pf ops, [(''id'', i)])"
  by (simp add: matchRoute_def routes_def match_pattern_def starts_with_def takeWhile_no_slash_end)

lemma route_post_thread:
  "i \<noteq> [] \<Longrightarrow> CHR ''/'' \<notin> set i \<Longrightarrow>
   matchRoute pf ops ''POST'' (''/annotations/'' @ i @ ''/thread'') = Some (addThreadHandler pf ops, [(''id'', i)])"
  by (simp add: matchRoute_def routes_def match_pattern_def starts_with_def takeWhile_no_slash)

lemma route_get_session:
  "i \<noteq> [] \<Longrightarrow> CHR ''/'' \<notin> set i \<Longrightarrow>
   matchRoute pf ops ''GET'' (''/sessions/'' @ i) = Some (getSessionHandler pf ops, [(''id'', i)])"
  by (simp add: matchRoute_def routes_def match_pattern_def starts_with_def takeWhile_no_slash_end)

lemma route_get_session_events:
  "i \<noteq> [] \<Longrightarrow> CHR ''/'' \<notin> set i \<Longrightarrow>
   matchRoute pf ops ''GET'' (''/sessions/'' @ i @ ''/events'') = Some (sseHandler pf ops, [(''id'', i)])"
  by (simp add: matchRoute_def routes_def match_pattern_def starts_with_def takeWhile_no_slash
      takeWhile_no_slash_end)

lemma route_get_events:
  "matchRoute pf ops ''GET'' ''/events'' = Some (globalSseHandler pf ops, [])"
  by (simp add: matchRoute_def routes_def match_pattern_def)

lemma open_stream_status:
  "open_stream k first w = (Inr res, w') \<Longrightarrow> rs_status res = 200"
  by (auto simp: open_stream_def sendJson_def)

lemma sendAnnotation_status [simp]: "rs_status (sendAnnotation n a) = n"
  by (simp add: sendAnnotation_def sendJson_def split: option.splits)

lemma sendJson_status [simp]: "rs_status (sendJson n b) = n"
  by (simp add: sendJson_def)

lemma sendError_status [simp]: "rs_status (sendError n m) = n"
  by (simp add: sendError_def)

lemma createSessionHandler_status:
  "createSessionHandler pf ops req params w = (r, w') \<Longrightarrow>
   \<exists>res. r = Inr res \<and> rs_status res \<in> {200, 201, 400, 404}"
  by (auto simp: createSessionHandler_def Let_def
      split: sum.splits option.splits if_splits prod.splits)

lemma listSessionsHandler_status:
  "listSessionsHandler pf ops req params w = (r, w') \<Longrightarrow>
   \<exists>res. r = Inr res \<and> rs_status res \<in> {200, 201, 400, 404}"
  by (auto simp: listSessionsHandler_def)

lemma getSessionHandler_status:
  "getSessionHandler pf ops req params w = (r, w') \<Longrightarrow>
   \<exists>res. r = Inr res \<and> rs_status res \<in> {200, 201, 400, 404}"
  by (auto simp: getSessionHandler_def split: option.splits)

lemma addAnnotationHandler_status:
  "addAnnotationHandler pf ops req params w = (r, w') \<Longrightarrow>
   \<exists>res. r = Inr res \<and> rs_status res \<in> {200, 201, 400, 404}"
  by (auto simp: addAnnotationHandler_def Let_def
      split: sum.splits option.splits if_splits prod.splits)

lemma updateAnnotationHandler_status:
  "updateAnnotationHandler pf ops req params w = (r, w') \<Longrightarrow>
   \<exists>res. r = Inr res \<and> rs_status res \<in> {200, 201, 400, 404}"
  by (auto simp: updateAnnotationHandler_def Let_def
      split: sum.splits option.splits if_splits prod.splits)

lemma getAnnotationHandler_status:
  "getAnnotationHandler pf ops req params w = (r, w') \<Longrightarrow>
   \<exists>res. r = Inr res \<and> rs_status res \<in> {200, 201, 400, 404}"
  by (auto simp: getAnnotationHandler_def split: option.splits)

lemma deleteAnnotationHandler_status:
  "deleteAnnotationHandler pf ops req params w = (r, w') \<Longrightarrow>
   \<exists>res. r = Inr res \<and> rs_status res \<in> {200, 201, 400, 404}"
  by (auto simp: deleteAnnotationHandler_def Let_def split: option.splits prod.splits)

lemma getPendingHandler_status:
  "getPendingHandler pf ops req params w = (r, w') \<Longrightarrow>
   \<exists>res. r = Inr res \<and> rs_status res \<in> {200, 201, 400, 404}"
  by (auto simp: getPendingHandler_def Let_def)

lemma getAllPendingHandler_status:
  "getAllPendingHandler pf ops req params w = (r, w') \<Longrightarrow>
   \<exists>res. r = Inr res \<and> rs_status res \<in> {200, 201, 400, 404}"
  by (auto simp: getAllPendingHandler_def Let_def)

lemma addThreadHandler_status:
  "addThreadHandler pf ops req params w = (r, w') \<Longrightarrow>
   \<exists>res. r = Inr res \<and> rs_status res \<in> {200, 201, 400, 404}"
  by (auto simp: addThreadHandler_def Let_def
      split: sum.splits option.splits if_splits prod.splits)

lemma sseHandler_status:
  "sseHandler pf ops req params w = (r, w') \<Longrightarrow>
   \<exists>res. r = Inr res \<and> rs_status res \<in> {200, 201, 400, 404}"
  by (auto simp: sseHandler_def Let_def open_stream_def split: option.splits)

lemma globalSseHandler_status:
  "globalSseHandler pf ops req params w = (r, w') \<Longrightarrow>
   \<exists>res. r = Inr res \<and> rs_status res \<in> {200, 201, 400, 404}"
  by (auto simp: globalSseHandler_def open_stream_def split: option.splits if_splits)

lemma routed_handler_status:
  assumes "h \<in> r_handler ` set (routes pf ops)" and "h req params w = (r, w')"
  shows "\<exists>res. r = Inr res \<and> rs_status res \<in> {200, 201, 400, 404}"
proof -
  from assms(1) consider
      "h = globalSseHandler pf ops" | "h = getAllPendingHandler pf ops"
    | "h = listSessionsHandler pf ops" | "h = createSessionHandler pf ops"
    | "h = getSessionHandler pf ops" | "h = sseHandler pf ops"
    | "h = getPendingHandler pf ops" | "h = addAnnotationHandler pf ops"
    | "h = updateAnnotationHandler pf ops" | "h = getAnnotationHandler pf ops"
    | "h = deleteAnnotationHandler pf ops" | "h = addThreadHandler pf ops"
    by (auto simp: routes_def)
  then show ?thesis
  proof cases
    case 1 then show ?thesis using assms(2) globalSseHandler_status by blast
  next
    case 2 then show ?thesis using assms(2) getAllPendingHandler_status by blast
  next
    case 3 then show ?thesis using assms(2) listSessionsHandler_status by blast
  next
    case 4 then show ?thesis using assms(2) createSessionHandler_status by blast
  next
    case 5 then show ?thesis using assms(2) getSessionHandler_status by blast
  next
    case 6 then show ?thesis using assms(2) sseHandler_status by blast
  next
    case 7 then show ?thesis using assms(2) getPendingHandler_status by blast
  next
    case 8 then show ?thesis using assms(2) addAnnotationHandler_status by blast
  next
    case 9 then show ?thesis using assms(2) updateAnnotationHandler_status by blast
  next
    case 10 then show ?thesis using assms(2) getAnnotationHandler_status by blast
  next
    case 11 then show ?thesis using assms(2) deleteAnnotationHandler_status by blast
  next
    case 12 then show ?thesis using assms(2) addThreadHandler_status by blast
  qed
qed

lemma requestListener_status:
  "rs_status (fst (requestListener pf ops req w)) \<in> {200, 201, 204, 400, 404}"
proof -
  define m where "m = (if rq_method req = [] then ''GET'' else rq_method req)"
  show ?thesis
  proof (cases "m = ''OPTIONS'' \<or> (rq_pathname req = ''/health'' \<and> m = ''GET'')")
    case True
    then show ?thesis
      by (auto simp: requestListener_def Let_def m_def handleCors_def)
  next
    case False
    show ?thesis
    proof (cases "matchRoute pf ops m (rq_pathname req)")
      case None
      with False show ?thesis
        by (auto simp: requestListener_def Let_def m_def)
    next
      case (Some hp)
      obtain h params where hp: "hp = (h, params)" by (cases hp)
      obtain r w' where run: "h req params w = (r, w')" by (cases "h req params w")
      have "h \<in> r_handler ` set (routes pf ops)"
        using Some hp match_in_handler by (fastforce simp: matchRoute_def)
      from routed_handler_status [OF this run]
      obtain res where "r = Inr res" and "rs_status res \<in> {200, 201, 400, 404}" by blast
      with False Some hp run show ?thesis
        by (auto simp: requestListener_def Let_def m_def)
    qed
  qed
qed

section \<open>The server command and the API key\<close>

lemma show_nat_404: "show_nat 404 = ''404''"
  by (simp add: show_nat.simps digit_char_def)

lemma show_nat_400: "show_nat 400 = ''400''"
  by (simp add: show_nat.simps digit_char_def)

lemma server_command_http:
  "st_http (server_command setApiKey ops args env) = Some listener \<Longrightarrow>
   \<exists>port ops'. listener = (\<lambda>new_URL pf. startHttpServer port new_URL pf ops')"
  by (auto simp: server_command_def Let_def split: if_splits)

lemma api_key_args:
  "server_args_loop [''--api-key'', ''secret''] 0 default_options
     = default_options\<lparr>so_apiKeyArg := Some ''secret''\<rparr>"
  by (simp add: server_args_loop.simps server_arg_step_def arg_is_def arg_value_def
      js_index_def default_options_def Let_def)

lemma list_request_answer:
  "startHttpServer p example_url example_platform spec_store (list_request hs) (start empty_store)
     = (Some (sendJson 200 (SessionsBody [])), start empty_store)"
  by (simp add: startHttpServer_def example_url_def starts_with_def requestListener_def
      list_request_def matchRoute_def
      routes_def match_pattern_def listSessionsHandler_def spec_store_def spec_listSessions_def
      start_def empty_store_def Let_def)

text \<open>No handler reads a header other than \<open>last-event-id\<close>.\<close>

lemma handler_headers:
  assumes "h \<in> r_handler ` set (routes pf ops)"
    and "rq_body req' = rq_body req" and "rq_query req' = rq_query req"
    and "map_of (rq_headers req') ''last-event-id'' = map_of (rq_headers req) ''last-event-id''"
  shows "h req' params w = h req params w"
proof -
  from assms(1) consider
      "h = globalSseHandler pf ops" | "h = getAllPendingHandler pf ops"
    | "h = listSessionsHandler pf ops" | "h = createSessionHandler pf ops"
    | "h = getSessionHandler pf ops" | "h = sseHandler pf ops"
    | "h = getPendingHandler pf ops" | "h = addAnnotationHandler pf ops"
    | "h = updateAnnotationHandler pf ops" | "h = getAnnotationHandler pf ops"
    | "h = deleteAnnotationHandler pf ops" | "h = addThreadHandler pf ops"
    by (auto simp: routes_def)
  then show ?thesis
  proof cases
    case 1 then show ?thesis using assms(3) by (simp add: globalSseHandler_def)
  next
    case 2 then show ?thesis by (simp add: getAllPendingHandler_def)
  next
    case 3 then show ?thesis by (simp add: listSessionsHandler_def)
  next
    case 4 then show ?thesis using assms(2) by (simp add: createSessionHandler_def)
  next
    case 5 then show ?thesis by (simp add: getSessionHandler_def)
  next
    case 6 then show ?thesis by (simp only: sseHandler_def assms(4))
  next
    case 7 then show ?thesis by (simp add: getPendingHandler_def)
  next
    case 8 then show ?thesis using assms(2) by (simp add: addAnnotationHandler_def)
  next
    case 9 then show ?thesis using assms(2) by (simp add: updateAnnotationHandler_def)
  next
    case 10 then show ?thesis by (simp add: getAnnotationHandler_def)
  next
    case 11 then show ?thesis by (simp add: deleteAnnotationHandler_def)
  next
    case 12 then show ?thesis using assms(2) by (simp add: addThreadHandler_def)
  qed
qed

lemma requestListener_headers:
  assumes "rq_method req' = rq_method req" and "rq_pathname req' = rq_pathname req"
    and "rq_body req' = rq_body req" and "rq_query req' = rq_query req"
    and "map_of (rq_headers req') ''last-event-id'' = map_of (rq_headers req) ''last-event-id''"
  shows "requestListener pf ops req' w = requestListener pf ops req w"
proof -
  define m where "m = (if rq_method req = [] then ''GET'' else rq_method req)"
  show ?thesis
  proof (cases "matchRoute pf ops m (rq_pathname req)")
    case None
    show ?thesis
      unfolding requestListener_def Let_def assms(1,2) m_def [symmetric] None
      by (simp only: option.case)
  next
    case (Some hp)
    obtain h params where hp: "hp = (h, params)" by (cases hp)
    have "h \<in> r_handler ` set (routes pf ops)"
      using Some hp match_in_handler by (fastforce simp: matchRoute_def)
    then have "h req' params w = h req params w"
      using assms(3,4,5) by (rule handler_headers)
    then show ?thesis
      unfolding requestListener_def Let_def assms(1,2) m_def [symmetric] Some hp
      by (simp only: option.case prod.case)
  qed
qed

lemma startHttpServer_none:
  "new_URL (if rr_url raw = [] then ''/'' else rr_url raw)
      (''http://localhost:'' @ show_nat (nat port)) = None \<Longrightarrow>
   startHttpServer port new_URL pf ops raw w = (None, w)"
  by (simp only: startHttpServer_def option.case)

lemma startHttpServer_some:
  "new_URL (if rr_url raw = [] then ''/'' else rr_url raw)
      (''http://localhost:'' @ show_nat (nat port)) = Some (pathname, query) \<Longrightarrow>
   startHttpServer port new_URL pf ops raw w
     = (case requestListener pf ops
               \<lparr>rq_method = rr_method raw, rq_pathname = pathname, rq_query = query,
                rq_headers = rr_headers raw, rq_body = rr_body raw\<rparr> w of
          (res, w') \<Rightarrow> (Some res, w'))"
  by (simp only: startHttpServer_def option.case prod.case)

lemma startHttpServer_headers:
  assumes "rr_method raw' = rr_method raw" and "rr_url raw' = rr_url raw"
    and "rr_body raw' = rr_body raw"
    and "map_of (rr_headers raw') ''last-event-id'' = map_of (rr_headers raw) ''last-event-id''"
  shows "startHttpServer port new_URL pf ops raw' w = startHttpServer port new_URL pf ops raw w"
proof (cases "new_URL (if rr_url raw = [] then ''/'' else rr_url raw)
                (''http://localhost:'' @ show_nat (nat port))")
  case None
  then have "new_URL (if rr_url raw' = [] then ''/'' else rr_url raw')
                (''http://localhost:'' @ show_nat (nat port)) = None"
    by (simp only: assms(2))
  then show ?thesis
    using None
    by (simp only: startHttpServer_none [where raw = raw and new_URL = new_URL]
        startHttpServer_none [where raw = raw' and new_URL = new_URL])
next
  case (Some pq)
  obtain pathname query where pq: "pq = (pathname, query)" by (cases pq)
  have u: "new_URL (if rr_url raw = [] then ''/'' else rr_url raw)
                (''http://localhost:'' @ show_nat (nat port)) = Some (pathname, query)"
    using Some pq by (simp only:)
  then have u': "new_URL (if rr_url raw' = [] then ''/'' else rr_url raw')
                (''http://localhost:'' @ show_nat (nat port)) = Some (pathname, query)"
    by (simp only: assms(2))
  have "requestListener pf ops
          \<lparr>rq_method = rr_method raw', rq_pathname = pathname, rq_query = query,
           rq_headers = rr_headers raw', rq_body = rr_body raw'\<rparr> w
        = requestListener pf ops
          \<lparr>rq_method = rr_method raw, rq_pathname = pathname, rq_query = query,
           rq_headers = rr_headers raw, rq_body = rr_body raw\<rparr> w"
    using assms by (intro requestListener_headers) simp_all
  then show ?thesis
    by (simp only: startHttpServer_some [where raw = raw and new_URL = new_URL, OF u]
        startHttpServer_some [where raw = raw' and new_URL = new_URL, OF u'])
qed

lemma startHttpServer_not_401:
  "map_option rs_status (fst (startHttpServer port new_URL pf ops raw w)) \<noteq> Some 401"
proof (cases "new_URL (if rr_url raw = [] then ''/'' else rr_url raw)
                (''http://localhost:'' @ show_nat (nat port))")
  case None
  then show ?thesis
    by (simp only: startHttpServer_none [where raw = raw and new_URL = new_URL]) simp
next
  case (Some pq)
  obtain pathname query where pq: "pq = (pathname, query)" by (cases pq)
  have u: "new_URL (if rr_url raw = [] then ''/'' else rr_url raw)
                (''http://localhost:'' @ show_nat (nat port)) = Some (pathname, query)"
    using Some pq by (simp only:)
  let ?req = "\<lparr>rq_method = rr_method raw, rq_pathname = pathname, rq_query = query,
           rq_headers = rr_headers raw, rq_body = rr_body raw\<rparr>"
  have "rs_status (fst (requestListener pf ops ?req w)) \<in> {200, 201, 204, 400, 404}"
    by (rule requestListener_status)
  then have "rs_status (fst (requestListener pf ops ?req w)) \<noteq> 401" by auto
  then show ?thesis
    by (simp only: startHttpServer_some [where raw = raw and new_URL = new_URL, OF u])
      (auto split: prod.splits)
qed

text \<open>
  C2, as stated, fails: with the key \<open>secret\<close> configured by \<open>--api-key\<close> (and a
  \<open>setApiKey\<close> that leaves the store as it is), a request without any credential
  and a request with a wrong one are both answered 200.
\<close>

theorem api_key_counterexample:
  "st_apiKey (server_command (\<lambda>k ops. ops) spec_store [''--api-key'', ''secret''] None)
       = Some ''secret''
   \<and> st_http (server_command (\<lambda>k ops. ops) spec_store [''--api-key'', ''secret''] None)
       = Some (\<lambda>new_URL pf. startHttpServer 4747 new_URL pf spec_store)
   \<and> map_option rs_status (fst (startHttpServer 4747 example_url example_platform spec_store
         (list_request []) (start empty_store))) = Some 200
   \<and> map_option rs_status (fst (startHttpServer 4747 example_url example_platform spec_store
         (list_request [(''authorization'', ''Bearer wrong'')]) (start empty_store))) = Some 200"
  unfolding server_command_def api_key_args
  by (simp add: api_key_def default_options_def Let_def list_request_answer)

text \<open>
  C2, amended. Configuring a key (\<open>--api-key\<close> or \<open>AGENTATION_API_KEY\<close>) does
  not make the HTTP listener check a credential. Whatever the arguments, the
  environment and what \<open>setApiKey\<close> does to the store, the listener that the
  server command starts is the callback of \<open>startHttpServer\<close> over some store;
  two requests that differ only in headers other than \<open>Last-Event-ID\<close>, the
  place of a bearer credential, get the same answer (or both none) with the same
  effect; and no request is answered 401.
\<close>

theorem api_key_not_enforced:
  assumes "st_http (server_command setApiKey ops args env) = Some listener"
    and "rr_method raw' = rr_method raw" and "rr_url raw' = rr_url raw"
    and "rr_body raw' = rr_body raw"
    and "map_of (rr_headers raw') ''last-event-id'' = map_of (rr_headers raw) ''last-event-id''"
  shows "(\<exists>port ops'. listener = (\<lambda>new_URL pf. startHttpServer port new_URL pf ops'))
     \<and> listener new_URL pf raw' w = listener new_URL pf raw w
     \<and> map_option rs_status (fst (listener new_URL pf raw w)) \<noteq> Some 401"
proof -
  from assms(1) obtain port ops' where
    l: "listener = (\<lambda>new_URL pf. startHttpServer port new_URL pf ops')"
    using server_command_http by blast
  have "listener new_URL pf raw' w = listener new_URL pf raw w"
    unfolding l using assms(2-5) by (rule startHttpServer_headers)
  moreover have "map_option rs_status (fst (listener new_URL pf raw w)) \<noteq> Some 401"
    unfolding l by (rule startHttpServer_not_401)
  ultimately show ?thesis using l by blast
qed

theorem api_key_not_enforced_witness:
  "st_http (server_command (\<lambda>k ops. ops) spec_store [''--api-key'', ''secret''] None)
       = Some (\<lambda>new_URL pf. startHttpServer 4747 new_URL pf spec_store)
   \<and> startHttpServer 4747 example_url example_platform spec_store (list_request [])
         (start empty_store)
       = startHttpServer 4747 example_url example_platform spec_store
           (list_request [(''authorization'', ''Bearer secret'')]) (start empty_store)
   \<and> map_option rs_status (fst (startHttpServer 4747 example_url example_platform spec_store
         (list_request [(''authorization'', ''Bearer secret'')]) (start empty_store))) \<noteq> Some 401"
proof -
  have h: "st_http (server_command (\<lambda>k ops. ops) spec_store [''--api-key'', ''secret''] None)
       = Some (\<lambda>new_URL pf. startHttpServer 4747 new_URL pf spec_store)"
    unfolding server_command_def api_key_args
    by (simp add: api_key_def default_options_def Let_def)
  have r: "rr_method (list_request []) = rr_method (list_request [(''authorization'', ''Bearer secret'')])
      \<and> rr_url (list_request []) = rr_url (list_request [(''authorization'', ''Bearer secret'')])
      \<and> rr_body (list_request []) = rr_body (list_request [(''authorization'', ''Bearer secret'')])
      \<and> map_of (rr_headers (list_request [])) ''last-event-id''
          = map_of (rr_headers (list_request [(''authorization'', ''Bearer secret'')])) ''last-event-id''"
    by (simp add: list_request_def)
  from api_key_not_enforced [OF h, of "list_request []"
      "list_request [(''authorization'', ''Bearer secret'')]" example_url example_platform
      "start empty_store"] r h
  show ?thesis by blast
qed

section \<open>The tool catalog\<close>

lemma unknown_tool:
  "name \<notin> set (map t_name TOOLS) \<Longrightarrow>
   handleTool pf ops name args w = (Return (error (''Unknown tool: '' @ name)), w)"
  by (simp add: TOOLS_def handleTool_def)

text \<open>
  C1. The catalog has no tool named \<open>agentation_watch_annotations\<close>, and a
  call of that name does not block: in every state and for every argument it
  returns at once the error result \<open>Unknown tool: agentation_watch_annotations\<close>.
\<close>

theorem watch_annotations_unknown:
  "''agentation_watch_annotations'' \<notin> set (map t_name TOOLS)
   \<and> callTool pf ops ''agentation_watch_annotations'' args w
       = (Return (error ''Unknown tool: agentation_watch_annotations''), w)"
  by (simp add: TOOLS_def handleTool_def callTool_def)

section \<open>The dispatcher against a missing annotation or session\<close>

lemma segment_empty: "match_pattern (Segment pre suf) pre = None"
  by (simp add: match_pattern_def starts_with_def)

lemma drop_takeWhile_slash:
  "CHR ''/'' \<in> set i \<Longrightarrow> \<exists>b. drop (length (takeWhile (\<lambda>c. c \<noteq> CHR ''/'') i)) i = CHR ''/'' # b"
  by (induction i) auto

lemma route_patch_none:
  "i = [] \<or> CHR ''/'' \<in> set i \<Longrightarrow> matchRoute pf ops ''PATCH'' (''/annotations/'' @ i) = None"
  using drop_takeWhile_slash [of i]
  by (auto simp: matchRoute_def routes_def match_pattern_def starts_with_def Let_def)

lemma drop_takeWhile_slash_app:
  "CHR ''/'' \<in> set i \<Longrightarrow>
   length suf < length (drop (length (takeWhile (\<lambda>c. c \<noteq> CHR ''/'') (i @ suf))) (i @ suf))"
  by (induction i) auto

lemma route_post_thread_none:
  assumes "i = [] \<or> CHR ''/'' \<in> set i"
  shows "matchRoute pf ops ''POST'' (''/annotations/'' @ i @ ''/thread'') = None"
proof (cases "i = []")
  case True
  then show ?thesis
    by (simp add: matchRoute_def routes_def match_pattern_def starts_with_def)
next
  case False
  with assms have "CHR ''/'' \<in> set i" by simp
  from drop_takeWhile_slash_app [OF this, of "''/thread''"]
  have "drop (length (takeWhile (\<lambda>c. c \<noteq> CHR ''/'') (i @ ''/thread''))) (i @ ''/thread'')
          \<noteq> ''/thread''"
    by auto
  then show ?thesis
    by (simp add: matchRoute_def routes_def match_pattern_def starts_with_def Let_def)
qed

lemma route_get_session_none:
  "matchRoute pf ops ''GET'' ''/sessions/'' = None"
  by (simp add: matchRoute_def routes_def match_pattern_def starts_with_def)

lemma includes_404: "str_includes (''HTTP 404: '' @ t) ''404''"
  by (simp add: starts_with_def)

lemma not_found_result:
  "http_result pf (sendError 404 m)
     = Throw (''HTTP 404: '' @ [CHR ''{'', CHR 0x22] @ ''error'' @ [CHR 0x22, CHR '':'']
              @ json_quote m @ [CHR ''}''])"
  by (simp add: http_result_def res_ok_def sendError_def sendJson_def res_text_def show_nat_404)

lemma catch_404_not_found:
  "catch_404 nf (case http_result pf (sendError 404 m) of
                   Return x \<Rightarrow> f x | Throw e \<Rightarrow> Throw e | Blocked \<Rightarrow> Blocked)
     = Return (error nf)"
  by (simp add: not_found_result catch_404_def starts_with_def)

lemma patch_missing:
  assumes "fst (parse_target pf (''/annotations/'' @ i)) = ''/annotations/'' @ i"
    and "getAnnotation ops i (w_store w) = None"
  shows "\<exists>m. httpPatch pf ops (''/annotations/'' @ i) body w = (http_result pf (sendError 404 m), w)"
proof (cases "i = [] \<or> CHR ''/'' \<in> set i")
  case True
  then show ?thesis
    using assms(1) route_patch_none [OF True, of pf ops]
    by (auto simp: httpPatch_def fetch_def requestListener_def Let_def)
next
  case False
  then have "matchRoute pf ops ''PATCH'' (''/annotations/'' @ i)
               = Some (updateAnnotationHandler pf ops, [(''id'', i)])"
    using route_patch_annotation by blast
  then show ?thesis
    using assms
    by (auto simp: httpPatch_def fetch_def requestListener_def Let_def
        updateAnnotationHandler_def parseBody_def param_def)
qed

lemma get_session_missing:
  assumes "fst (parse_target pf (''/sessions/'' @ i)) = ''/sessions/'' @ i"
    and "CHR ''/'' \<notin> set i"
    and "getSessionWithAnnotations ops i (w_store w) = None"
  shows "\<exists>m. httpGet pf ops (''/sessions/'' @ i) w = (http_result pf (sendError 404 m), w)"
proof (cases "i = []")
  case True
  then show ?thesis
    using assms(1) route_get_session_none [of pf ops]
    by (auto simp: httpGet_def fetch_def requestListener_def Let_def)
next
  case False
  with assms(2) have "matchRoute pf ops ''GET'' (''/sessions/'' @ i)
               = Some (getSessionHandler pf ops, [(''id'', i)])"
    using False route_get_session by blast
  then show ?thesis
    using assms
    by (auto simp: httpGet_def fetch_def requestListener_def Let_def
        getSessionHandler_def param_def)
qed

lemma post_thread_missing:
  assumes "fst (parse_target pf (''/annotations/'' @ i @ ''/thread'')) = ''/annotations/'' @ i @ ''/thread''"
    and "content \<noteq> []"
    and "addThreadMessage ops i (JStr ''agent'') (JStr content) (w_store w) = (Inr None, evs, s')"
  shows "\<exists>m w'. httpPost pf ops (''/annotations/'' @ i @ ''/thread'') (agent_message content) w
           = (http_result pf (sendError 404 m), w')"
proof (cases "i = [] \<or> CHR ''/'' \<in> set i")
  case True
  then show ?thesis
    using assms(1) route_post_thread_none [OF True, of pf ops]
    by (auto simp: httpPost_def fetch_def requestListener_def Let_def)
next
  case False
  then have "matchRoute pf ops ''POST'' (''/annotations/'' @ i @ ''/thread'')
               = Some (addThreadHandler pf ops, [(''id'', i)])"
    using route_post_thread by blast
  then show ?thesis
    using assms
    by (auto simp: httpPost_def fetch_def requestListener_def Let_def agent_message_def
        addThreadHandler_def parseBody_def param_def js_get_def js_field_def)
qed

lemma acknowledge_missing:
  assumes "required_string args ''annotationId'' = Inr i"
    and "fst (parse_target pf (''/annotations/'' @ i)) = ''/annotations/'' @ i"
    and "getAnnotation ops i (w_store w) = None"
  shows "callTool pf ops ''agentation_acknowledge'' args w
           = (Return (error (''Annotation not found: '' @ i)), w)"
proof -
  obtain m where
    "httpPatch pf ops (''/annotations/'' @ i) (JObj [(''status'', JStr ''acknowledged'')]) w
       = (http_result pf (sendError 404 m), w)"
    using patch_missing [OF assms(2,3)] by blast
  then show ?thesis
    using assms(1) by (simp add: callTool_def handleTool_def catch_404_not_found)
qed

lemma resolve_missing:
  assumes "required_string args ''annotationId'' = Inr i"
    and "optional_string args ''summary'' = Inr summary"
    and "fst (parse_target pf (''/annotations/'' @ i)) = ''/annotations/'' @ i"
    and "getAnnotation ops i (w_store w) = None"
  shows "callTool pf ops ''agentation_resolve'' args w
           = (Return (error (''Annotation not found: '' @ i)), w)"
proof -
  obtain m where
    "httpPatch pf ops (''/annotations/'' @ i)
        (JObj [(''status'', JStr ''resolved''), (''resolvedBy'', JStr ''agent'')]) w
       = (http_result pf (sendError 404 m), w)"
    using patch_missing [OF assms(3,4)] by blast
  then show ?thesis
    using assms(1,2)
    by (simp add: callTool_def handleTool_def not_found_result catch_404_def starts_with_def)
qed

lemma dismiss_missing:
  assumes "required_string args ''annotationId'' = Inr i"
    and "required_string args ''reason'' = Inr reason"
    and "fst (parse_target pf (''/annotations/'' @ i)) = ''/annotations/'' @ i"
    and "getAnnotation ops i (w_store w) = None"
  shows "callTool pf ops ''agentation_dismiss'' args w
           = (Return (error (''Annotation not found: '' @ i)), w)"
proof -
  obtain m where
    "httpPatch pf ops (''/annotations/'' @ i)
        (JObj [(''status'', JStr ''dismissed''), (''resolvedBy'', JStr ''agent'')]) w
       = (http_result pf (sendError 404 m), w)"
    using patch_missing [OF assms(3,4)] by blast
  then show ?thesis
    using assms(1,2)
    by (simp add: callTool_def handleTool_def not_found_result catch_404_def starts_with_def)
qed

lemma reply_missing:
  assumes "required_string args ''annotationId'' = Inr i"
    and "required_string args ''message'' = Inr message"
    and "message \<noteq> []"
    and "fst (parse_target pf (''/annotations/'' @ i @ ''/thread'')) = ''/annotations/'' @ i @ ''/thread''"
    and "addThreadMessage ops i (JStr ''agent'') (JStr message) (w_store w) = (Inr None, evs, s')"
  shows "fst (callTool pf ops ''agentation_reply'' args w)
           = Return (error (''Annotation not found: '' @ i))"
proof -
  obtain m w' where
    "httpPost pf ops (''/annotations/'' @ i @ ''/thread'') (agent_message message) w
       = (http_result pf (sendError 404 m), w')"
    using post_thread_missing [OF assms(4,3,5)] by blast
  then show ?thesis
    using assms(1,2) by (simp add: callTool_def handleTool_def catch_404_not_found)
qed

lemma get_session_tool_missing:
  assumes "required_string args ''sessionId'' = Inr i"
    and "CHR ''/'' \<notin> set i"
    and "fst (parse_target pf (''/sessions/'' @ i)) = ''/sessions/'' @ i"
    and "getSessionWithAnnotations ops i (w_store w) = None"
  shows "callTool pf ops ''agentation_get_session'' args w
           = (Return (error (''Session not found: '' @ i)), w)"
proof -
  obtain m where
    "httpGet pf ops (''/sessions/'' @ i) w = (http_result pf (sendError 404 m), w)"
    using get_session_missing [OF assms(3,2,4)] by blast
  then show ?thesis
    using assms(1) by (simp add: callTool_def handleTool_def catch_404_not_found)
qed

lemma route_get_session_pending:
  "i \<noteq> [] \<Longrightarrow> CHR ''/'' \<notin> set i \<Longrightarrow>
   matchRoute pf ops ''GET'' (''/sessions/'' @ i @ ''/pending'')
     = Some (getPendingHandler pf ops, [(''id'', i)])"
  by (simp add: matchRoute_def routes_def match_pattern_def starts_with_def takeWhile_no_slash)

lemma get_pending_tool:
  assumes "required_string args ''sessionId'' = Inr j"
    and "j \<noteq> []" and "CHR ''/'' \<notin> set j"
    and "fst (parse_target pf (''/sessions/'' @ j @ ''/pending'')) = ''/sessions/'' @ j @ ''/pending''"
  shows "callTool pf ops ''agentation_get_pending'' args w
           = (Return (success (PendingData
                (Some (length (getPendingAnnotations ops j (w_store w))))
                (map pending_view_of (getPendingAnnotations ops j (w_store w))))), w)"
proof -
  have "matchRoute pf ops ''GET'' (''/sessions/'' @ j @ ''/pending'')
          = Some (getPendingHandler pf ops, [(''id'', j)])"
    using assms(2,3) route_get_session_pending by blast
  then have "httpGet pf ops (''/sessions/'' @ j @ ''/pending'') w
      = (Return (PendingBody (length (getPendingAnnotations ops j (w_store w)))
           (getPendingAnnotations ops j (w_store w))), w)"
    using assms(4)
    by (simp add: httpGet_def fetch_def requestListener_def Let_def getPendingHandler_def
        param_def http_result_def res_ok_def sendJson_def res_json_def)
  then show ?thesis
    using assms(1) by (simp add: callTool_def handleTool_def pending_result_def success_def)
qed

text \<open>
  C9, as stated, fails: \<open>agentation_get_pending\<close> for a session that does not
  exist returns a successful result holding an empty batch, not an error result.
\<close>

theorem get_pending_counterexample:
  "getSession spec_store ''nope'' (w_store (start empty_store)) = None
   \<and> callTool example_platform spec_store ''agentation_get_pending''
        (JObj [(''sessionId'', JStr ''nope'')]) (start empty_store)
       = (Return (success (PendingData (Some 0) [])), start empty_store)"
  by code_simp

text \<open>
  C9, amended. The HTTP calls of the tools are taken to reach the HTTP surface of
  this broker, and an id to reach it as sent: the path that the URL parser gives
  for the target is the target (an id with \<open>?\<close> or \<open>#\<close> does not qualify). The
  arguments are those the schema of the tool accepts. An unknown tool name
  returns the error result \<open>Unknown tool: <name>\<close>. A call of \<open>acknowledge\<close>,
  \<open>resolve\<close> or \<open>dismiss\<close> for an annotation the store does not have returns the
  error result \<open>Annotation not found: <id>\<close> and changes nothing; \<open>reply\<close>
  with a message that is not empty returns the same error result when the store
  finds no annotation to append to; \<open>get_session\<close> for a session the store does
  not have, the id without \<open>/\<close>, returns the error result
  \<open>Session not found: <id>\<close> and changes nothing.
  \<open>get_pending\<close> has no such answer: for a session id that is not empty and has
  no \<open>/\<close>, whether the store has the session or not, it returns the successful
  result that holds the count and the annotations the store reports pending under
  that id, and changes nothing.
\<close>

theorem tool_errors:
  "(name \<notin> set (map t_name TOOLS) \<longrightarrow>
      callTool pf ops name args w = (Return (error (''Unknown tool: '' @ name)), w))
   \<and> (required_string args ''annotationId'' = Inr i
        \<and> fst (parse_target pf (''/annotations/'' @ i)) = ''/annotations/'' @ i
        \<and> getAnnotation ops i (w_store w) = None \<longrightarrow>
      callTool pf ops ''agentation_acknowledge'' args w
        = (Return (error (''Annotation not found: '' @ i)), w)
      \<and> (optional_string args ''summary'' = Inr summary \<longrightarrow>
           callTool pf ops ''agentation_resolve'' args w
             = (Return (error (''Annotation not found: '' @ i)), w))
      \<and> (required_string args ''reason'' = Inr reason \<longrightarrow>
           callTool pf ops ''agentation_dismiss'' args w
             = (Return (error (''Annotation not found: '' @ i)), w)))
   \<and> (required_string args ''annotationId'' = Inr i
        \<and> required_string args ''message'' = Inr message \<and> message \<noteq> []
        \<and> fst (parse_target pf (''/annotations/'' @ i @ ''/thread''))
            = ''/annotations/'' @ i @ ''/thread''
        \<and> addThreadMessage ops i (JStr ''agent'') (JStr message) (w_store w) = (Inr None, evs, s') \<longrightarrow>
      fst (callTool pf ops ''agentation_reply'' args w)
        = Return (error (''Annotation not found: '' @ i)))
   \<and> (required_string args ''sessionId'' = Inr j \<and> CHR ''/'' \<notin> set j
        \<and> fst (parse_target pf (''/sessions/'' @ j)) = ''/sessions/'' @ j
        \<and> getSessionWithAnnotations ops j (w_store w) = None \<longrightarrow>
      callTool pf ops ''agentation_get_session'' args w
        = (Return (error (''Session not found: '' @ j)), w))
   \<and> (required_string args ''sessionId'' = Inr j \<and> j \<noteq> [] \<and> CHR ''/'' \<notin> set j
        \<and> fst (parse_target pf (''/sessions/'' @ j @ ''/pending''))
            = ''/sessions/'' @ j @ ''/pending'' \<longrightarrow>
      callTool pf ops ''agentation_get_pending'' args w
        = (Return (success (PendingData
             (Some (length (getPendingAnnotations ops j (w_store w))))
             (map pending_view_of (getPendingAnnotations ops j (w_store w))))), w))"
proof (intro conjI impI)
  assume "name \<notin> set (map t_name TOOLS)"
  then show "callTool pf ops name args w = (Return (error (''Unknown tool: '' @ name)), w)"
    by (simp add: callTool_def unknown_tool)
next
  assume h: "required_string args ''annotationId'' = Inr i
        \<and> fst (parse_target pf (''/annotations/'' @ i)) = ''/annotations/'' @ i
        \<and> getAnnotation ops i (w_store w) = None"
  then show "callTool pf ops ''agentation_acknowledge'' args w
        = (Return (error (''Annotation not found: '' @ i)), w)"
    by (intro acknowledge_missing) simp_all
  assume "optional_string args ''summary'' = Inr summary"
  with h show "callTool pf ops ''agentation_resolve'' args w
             = (Return (error (''Annotation not found: '' @ i)), w)"
    by (intro resolve_missing [where summary = summary]) simp_all
next
  assume h: "required_string args ''annotationId'' = Inr i
        \<and> fst (parse_target pf (''/annotations/'' @ i)) = ''/annotations/'' @ i
        \<and> getAnnotation ops i (w_store w) = None"
    and "required_string args ''reason'' = Inr reason"
  then show "callTool pf ops ''agentation_dismiss'' args w
             = (Return (error (''Annotation not found: '' @ i)), w)"
    by (intro dismiss_missing [where reason = reason]) simp_all
next
  assume "required_string args ''annotationId'' = Inr i
        \<and> required_string args ''message'' = Inr message \<and> message \<noteq> []
        \<and> fst (parse_target pf (''/annotations/'' @ i @ ''/thread''))
            = ''/annotations/'' @ i @ ''/thread''
        \<and> addThreadMessage ops i (JStr ''agent'') (JStr message) (w_store w) = (Inr None, evs, s')"
  then show "fst (callTool pf ops ''agentation_reply'' args w)
        = Return (error (''Annotation not found: '' @ i))"
    by (intro reply_missing [where message = message and evs = evs and s' = s']) simp_all
next
  assume "required_string args ''sessionId'' = Inr j \<and> CHR ''/'' \<notin> set j
        \<and> fst (parse_target pf (''/sessions/'' @ j)) = ''/sessions/'' @ j
        \<and> getSessionWithAnnotations ops j (w_store w) = None"
  then show "callTool pf ops ''agentation_get_session'' args w
        = (Return (error (''Session not found: '' @ j)), w)"
    by (intro get_session_tool_missing) simp_all
next
  assume "required_string args ''sessionId'' = Inr j \<and> j \<noteq> [] \<and> CHR ''/'' \<notin> set j
        \<and> fst (parse_target pf (''/sessions/'' @ j @ ''/pending''))
            = ''/sessions/'' @ j @ ''/pending''"
  then show "callTool pf ops ''agentation_get_pending'' args w
        = (Return (success (PendingData
             (Some (length (getPendingAnnotations ops j (w_store w))))
             (map pending_view_of (getPendingAnnotations ops j (w_store w))))), w)"
    by (intro get_pending_tool) simp_all
qed

theorem tool_errors_witness:
  "callTool example_platform spec_store ''agentation_watch'' missing_args (start empty_store)
     = (Return (error ''Unknown tool: agentation_watch''), start empty_store)
   \<and> callTool example_platform spec_store ''agentation_acknowledge'' missing_args (start empty_store)
     = (Return (error ''Annotation not found: a7''), start empty_store)
   \<and> callTool example_platform spec_store ''agentation_resolve'' missing_args (start empty_store)
     = (Return (error ''Annotation not found: a7''), start empty_store)
   \<and> callTool example_platform spec_store ''agentation_dismiss'' missing_args (start empty_store)
     = (Return (error ''Annotation not found: a7''), start empty_store)
   \<and> fst (callTool example_platform spec_store ''agentation_reply'' missing_args (start empty_store))
     = Return (error ''Annotation not found: a7'')
   \<and> callTool example_platform spec_store ''agentation_get_session'' missing_args (start empty_store)
     = (Return (error ''Session not found: s9''), start empty_store)
   \<and> callTool example_platform spec_store ''agentation_get_pending'' missing_args (start empty_store)
     = (Return (success (PendingData (Some 0) [])), start empty_store)"
proof -
  have h1: "''agentation_watch'' \<notin> set (map t_name TOOLS)"
    by (simp add: TOOLS_def)
  have h2: "required_string missing_args ''annotationId'' = Inr ''a7''
        \<and> fst (parse_target example_platform (''/annotations/'' @ ''a7'')) = ''/annotations/'' @ ''a7''
        \<and> getAnnotation spec_store ''a7'' (w_store (start empty_store)) = None"
    by code_simp
  have h3: "optional_string missing_args ''summary'' = Inr None"
    by code_simp
  have h4: "required_string missing_args ''reason'' = Inr ''duplicate''"
    by code_simp
  have h5: "required_string missing_args ''annotationId'' = Inr ''a7''
        \<and> required_string missing_args ''message'' = Inr ''hello'' \<and> ''hello'' \<noteq> []
        \<and> fst (parse_target example_platform (''/annotations/'' @ ''a7'' @ ''/thread''))
            = ''/annotations/'' @ ''a7'' @ ''/thread''
        \<and> addThreadMessage spec_store ''a7'' (JStr ''agent'') (JStr ''hello'')
             (w_store (start empty_store)) = (Inr None, [], empty_store)"
    by code_simp
  have h6: "required_string missing_args ''sessionId'' = Inr ''s9'' \<and> CHR ''/'' \<notin> set ''s9''
        \<and> fst (parse_target example_platform (''/sessions/'' @ ''s9'')) = ''/sessions/'' @ ''s9''
        \<and> getSessionWithAnnotations spec_store ''s9'' (w_store (start empty_store)) = None"
    by code_simp
  have h7: "required_string missing_args ''sessionId'' = Inr ''s9'' \<and> ''s9'' \<noteq> []
        \<and> CHR ''/'' \<notin> set ''s9''
        \<and> fst (parse_target example_platform (''/sessions/'' @ ''s9'' @ ''/pending''))
            = ''/sessions/'' @ ''s9'' @ ''/pending''
        \<and> getPendingAnnotations spec_store ''s9'' (w_store (start empty_store)) = []"
    by code_simp
  note t = tool_errors [where name = "''agentation_watch''" and pf = example_platform
      and ops = spec_store and args = missing_args and w = "start empty_store"
      and i = "''a7''" and summary = None and reason = "''duplicate''"
      and message = "''hello''" and evs = "[]" and s' = empty_store and j = "''s9''"]
  from t h1 h2 h3 h4 h5 h6 h7 show ?thesis by simp
qed

section \<open>The resolve tool\<close>

lemma publish_store [simp]: "w_store (publish pf ops evs w) = w_store w"
  by (simp add: publish_def)






section \<open>The per-domain event stream\<close>

lemma listener_events:
  "rq_method req = ''GET'' \<Longrightarrow> rq_pathname req = ''/events'' \<Longrightarrow>
   requestListener pf ops req w
     = (case globalSseHandler pf ops req [] w of
          (Inl err, w') \<Rightarrow> (sendError 500 ''Internal server error'', w')
        | (Inr res, w') \<Rightarrow> (res, w'))"
  by (simp add: requestListener_def route_get_events)

lemma domain_sink_writes:
  "sink_writes pf ops s (DomainSink d) ev
     = (if \<exists>session. getSession ops (e_sessionId ev) s = Some session
              \<and> url_host pf (s_url session) = Some d
        then [EventFrame ev] else [])"
  by (auto simp: sink_writes_def split: option.splits)

lemma concat_map_if:
  "concat (map (\<lambda>x. if P x then [f x] else []) xs) = map f (filter P xs)"
  by (induction xs) auto

lemma domain_sink_all:
  "concat (map (sink_writes pf ops s (DomainSink d)) evs)
     = map EventFrame (filter (\<lambda>ev. \<exists>session. getSession ops (e_sessionId ev) s = Some session
              \<and> url_host pf (s_url session) = Some d) evs)"
  by (simp add: domain_sink_writes [abs_def] concat_map_if)

lemma session_sink_all:
  "concat (map (sink_writes pf ops s (SessionSink sid)) evs)
     = map EventFrame (filter (\<lambda>ev. e_sessionId ev = sid) evs)"
  by (simp add: sink_writes_def [abs_def] concat_map_if)

text \<open>
  C6. \<open>GET /events\<close> without a domain (the parameter missing, or empty) is
  answered 400 with the error body \<open>domain query parameter required\<close> and
  changes nothing. With a domain it opens a stream subscribed to all events. Of
  the events that a store operation emits, such a stream is written exactly
  those, in order, whose owning session exists and has an origin URL that parses
  with a host equal to the domain; an event whose session URL does not parse
  writes nothing.
\<close>

theorem domain_stream:
  "(rq_method req = ''GET'' \<and> rq_pathname req = ''/events''
      \<and> (map_of (rq_query req) ''domain'' = None \<or> map_of (rq_query req) ''domain'' = Some []) \<longrightarrow>
      requestListener pf ops req w = (sendError 400 ''domain query parameter required'', w))
   \<and> (rq_method req = ''GET'' \<and> rq_pathname req = ''/events''
      \<and> map_of (rq_query req) ''domain'' = Some d \<and> d \<noteq> [] \<longrightarrow>
      requestListener pf ops req w
        = (sendJson 200 (EventStream (w_next w)),
           w\<lparr>w_conns := w_conns w @
                 [\<lparr>c_id = w_next w, c_sink = DomainSink d,
                   c_out = [Comment (''connected to domain '' @ d)]\<rparr>],
             w_next := w_next w + 1\<rparr>))
   \<and> (k < length (w_conns w) \<and> c_sink (w_conns w ! k) = DomainSink d \<longrightarrow>
      w_conns (publish pf ops evs w) ! k
        = (w_conns w ! k)\<lparr>c_out := c_out (w_conns w ! k) @
             map EventFrame
               (filter (\<lambda>ev. \<exists>session. getSession ops (e_sessionId ev) (w_store w) = Some session
                                \<and> url_host pf (s_url session) = Some d) evs)\<rparr>)
   \<and> (getSession ops (e_sessionId ev) s = Some session \<and> url_host pf (s_url session) = None \<longrightarrow>
      sink_writes pf ops s (DomainSink d) ev = [])"
proof (intro conjI impI)
  assume "rq_method req = ''GET'' \<and> rq_pathname req = ''/events''
      \<and> (map_of (rq_query req) ''domain'' = None \<or> map_of (rq_query req) ''domain'' = Some [])"
  then show "requestListener pf ops req w = (sendError 400 ''domain query parameter required'', w)"
    by (auto simp: listener_events globalSseHandler_def)
next
  assume "rq_method req = ''GET'' \<and> rq_pathname req = ''/events''
      \<and> map_of (rq_query req) ''domain'' = Some d \<and> d \<noteq> []"
  then show "requestListener pf ops req w
        = (sendJson 200 (EventStream (w_next w)),
           w\<lparr>w_conns := w_conns w @
                 [\<lparr>c_id = w_next w, c_sink = DomainSink d,
                   c_out = [Comment (''connected to domain '' @ d)]\<rparr>],
             w_next := w_next w + 1\<rparr>)"
    by (simp add: listener_events globalSseHandler_def open_stream_def)
next
  assume "k < length (w_conns w) \<and> c_sink (w_conns w ! k) = DomainSink d"
  then show "w_conns (publish pf ops evs w) ! k
        = (w_conns w ! k)\<lparr>c_out := c_out (w_conns w ! k) @
             map EventFrame
               (filter (\<lambda>ev. \<exists>session. getSession ops (e_sessionId ev) (w_store w) = Some session
                                \<and> url_host pf (s_url session) = Some d) evs)\<rparr>"
    by (simp add: publish_def domain_sink_all)
next
  assume "getSession ops (e_sessionId ev) s = Some session \<and> url_host pf (s_url session) = None"
  then show "sink_writes pf ops s (DomainSink d) ev = []"
    by (simp add: sink_writes_def)
qed

lemma domain_match_case:
  "(\<exists>session. getSession ops sid s = Some session \<and> url_host pf (s_url session) = Some d)
     = (case getSession ops sid s of None \<Rightarrow> False | Some x \<Rightarrow> url_host pf (s_url x) = Some d)"
  by (auto split: option.splits)

theorem domain_stream_witness:
  "requestListener example_platform spec_store (events_request []) two_hosts_world
     = (sendError 400 ''domain query parameter required'', two_hosts_world)
   \<and> w_conns (snd (requestListener example_platform spec_store
        (events_request [(''domain'', ''localhost:3001'')]) two_hosts_world))
     = [\<lparr>c_id = 0, c_sink = DomainSink ''localhost:3001'',
         c_out = [Comment ''connected to domain localhost:3001'']\<rparr>]
   \<and> w_conns (publish example_platform spec_store (st_events (w_store domain_world)) domain_world) ! 0
     = \<lparr>c_id = 0, c_sink = DomainSink ''localhost:3001'',
        c_out = [Comment ''connected to domain localhost:3001'',
                 EventFrame (st_events (w_store domain_world) ! 1)]\<rparr>"
proof -
  have h1: "rq_method (events_request []) = ''GET'' \<and> rq_pathname (events_request []) = ''/events''
      \<and> (map_of (rq_query (events_request [])) ''domain'' = None
          \<or> map_of (rq_query (events_request [])) ''domain'' = Some [])"
    by (simp add: events_request_def)
  have a: "requestListener example_platform spec_store (events_request []) two_hosts_world
     = (sendError 400 ''domain query parameter required'', two_hosts_world)"
    using domain_stream [where req = "events_request []" and pf = example_platform
        and ops = spec_store and w = two_hosts_world] h1
    by blast
  have h2: "rq_method (events_request [(''domain'', ''localhost:3001'')]) = ''GET''
      \<and> rq_pathname (events_request [(''domain'', ''localhost:3001'')]) = ''/events''
      \<and> map_of (rq_query (events_request [(''domain'', ''localhost:3001'')])) ''domain''
           = Some ''localhost:3001''
      \<and> ''localhost:3001'' \<noteq> []"
    by (simp add: events_request_def)
  have e: "w_conns two_hosts_world = [] \<and> w_next two_hosts_world = 0"
    by code_simp
  have "requestListener example_platform spec_store
          (events_request [(''domain'', ''localhost:3001'')]) two_hosts_world
        = (sendJson 200 (EventStream (w_next two_hosts_world)),
           two_hosts_world\<lparr>w_conns := w_conns two_hosts_world @
                 [\<lparr>c_id = w_next two_hosts_world, c_sink = DomainSink ''localhost:3001'',
                   c_out = [Comment (''connected to domain '' @ ''localhost:3001'')]\<rparr>],
             w_next := w_next two_hosts_world + 1\<rparr>)"
    using domain_stream [where req = "events_request [(''domain'', ''localhost:3001'')]"
        and pf = example_platform and ops = spec_store and w = two_hosts_world
        and d = "''localhost:3001''"] h2
    by blast
  then have b: "w_conns (snd (requestListener example_platform spec_store
        (events_request [(''domain'', ''localhost:3001'')]) two_hosts_world))
     = [\<lparr>c_id = 0, c_sink = DomainSink ''localhost:3001'',
         c_out = [Comment ''connected to domain localhost:3001'']\<rparr>]"
    using e by simp
  have h3: "0 < length (w_conns domain_world)
      \<and> c_sink (w_conns domain_world ! 0) = DomainSink ''localhost:3001''"
    by code_simp
  have f: "filter (\<lambda>ev. case getSession spec_store (e_sessionId ev) (w_store domain_world) of
                         None \<Rightarrow> False
                       | Some x \<Rightarrow> url_host example_platform (s_url x) = Some ''localhost:3001'')
             (st_events (w_store domain_world))
           = [st_events (w_store domain_world) ! 1]"
    by code_simp
  have g: "w_conns domain_world ! 0
             = \<lparr>c_id = 0, c_sink = DomainSink ''localhost:3001'',
                c_out = [Comment ''connected to domain localhost:3001'']\<rparr>"
    by code_simp
  have "w_conns (publish example_platform spec_store (st_events (w_store domain_world)) domain_world) ! 0
        = (w_conns domain_world ! 0)\<lparr>c_out := c_out (w_conns domain_world ! 0) @
             map EventFrame
               (filter (\<lambda>ev. \<exists>session. getSession spec_store (e_sessionId ev) (w_store domain_world)
                                  = Some session
                                \<and> url_host example_platform (s_url session) = Some ''localhost:3001'')
                  (st_events (w_store domain_world)))\<rparr>"
    using domain_stream [where pf = example_platform and ops = spec_store and w = domain_world
        and k = 0 and d = "''localhost:3001''" and evs = "st_events (w_store domain_world)"] h3
    by blast
  then have c: "w_conns (publish example_platform spec_store (st_events (w_store domain_world)) domain_world) ! 0
     = \<lparr>c_id = 0, c_sink = DomainSink ''localhost:3001'',
        c_out = [Comment ''connected to domain localhost:3001'',
                 EventFrame (st_events (w_store domain_world) ! 1)]\<rparr>"
    unfolding domain_match_case f g by simp
  from a b c show ?thesis by blast
qed

section \<open>Status transitions (store modelled from the specification)\<close>

lemma publish_nothing [simp]: "publish pf ops [] w = w"
  by (simp add: publish_def)

lemma legal_edges:
  "legal c n \<longleftrightarrow>
     (c, n) \<in> {(Pending, Acknowledged), (Pending, Dismissed), (Acknowledged, Resolved),
               (Acknowledged, Dismissed), (Resolved, Pending), (Dismissed, Pending)}"
  by (cases c; cases n) simp_all

lemma emit_result:
  "emit ty sid pl s
     = (\<lparr>e_type = ty, e_timestamp = st_clock s, e_sessionId = sid,
         e_sequence = st_sequence s + 1, e_payload = pl\<rparr>,
        s\<lparr>st_sequence := st_sequence s + 1,
          st_events := st_events s @
            [\<lparr>e_type = ty, e_timestamp = st_clock s, e_sessionId = sid,
              e_sequence = st_sequence s + 1, e_payload = pl\<rparr>]\<rparr>)"
  by (simp add: emit_def Let_def)

lemma update_illegal:
  assumes "spec_getAnnotation i s = Some a"
    and "map_of kvs ''status'' = Some (JStr t)" and "parse_status t = Some new"
    and "new \<noteq> a_status a" and "\<not> legal (a_status a) new"
  shows "\<exists>m. spec_updateAnnotation i (JObj kvs) s = (Inl m, [], s)"
  using assms by (simp add: spec_updateAnnotation_def patched_status_def)

lemma listener_patch:
  assumes "i \<noteq> []" and "CHR ''/'' \<notin> set i"
    and "rq_method req = ''PATCH''" and "rq_pathname req = ''/annotations/'' @ i"
  shows "requestListener pf ops req w
     = (case updateAnnotationHandler pf ops req [(''id'', i)] w of
          (Inl err, w') \<Rightarrow> (sendError 500 ''Internal server error'', w')
        | (Inr res, w') \<Rightarrow> (res, w'))"
proof -
  have "matchRoute pf ops ''PATCH'' (''/annotations/'' @ i)
          = Some (updateAnnotationHandler pf ops, [(''id'', i)])"
    using assms(1,2) route_patch_annotation by blast
  then show ?thesis
    using assms(3,4) by (simp add: requestListener_def)
qed

lemma spec_store_fields [simp]:
  "getAnnotation spec_store = spec_getAnnotation"
  "updateAnnotation spec_store = spec_updateAnnotation"
  "deleteAnnotation spec_store = spec_deleteAnnotation"
  "addThreadMessage spec_store = spec_addThreadMessage"
  "addAnnotation spec_store = spec_addAnnotation"
  "createSession spec_store = spec_createSession"
  "getSession spec_store = spec_getSession"
  "getSessionWithAnnotations spec_store = spec_getSessionWithAnnotations"
  "listSessions spec_store = spec_listSessions"
  "getPendingAnnotations spec_store = spec_getPendingAnnotations"
  "getEventsSince spec_store = (\<lambda>sid n. spec_getEventsSince sid n None)"
  "tick spec_store = (\<lambda>n s. s\<lparr>st_clock := st_clock s + n\<rparr>)"
  by (simp_all add: spec_store_def)

lemma patch_illegal_response:
  assumes "i \<noteq> []" and "CHR ''/'' \<notin> set i"
    and "rq_method req = ''PATCH''" and "rq_pathname req = ''/annotations/'' @ i"
    and "rq_body req = Body (JObj kvs)"
    and "spec_getAnnotation i (w_store w) = Some a"
    and "map_of kvs ''status'' = Some (JStr t)" and "parse_status t = Some new"
    and "new \<noteq> a_status a" and "\<not> legal (a_status a) new"
  shows "\<exists>m. requestListener pf spec_store req w = (sendError 400 m, w)"
proof -
  obtain m where "spec_updateAnnotation i (JObj kvs) (w_store w) = (Inl m, [], w_store w)"
    using update_illegal [OF assms(6-10)] by blast
  then have "requestListener pf spec_store req w = (sendError 400 m, w)"
    using assms(5,6)
    by (simp add: listener_patch [OF assms(1-4)] updateAnnotationHandler_def parseBody_def
        param_def)
  then show ?thesis by blast
qed

lemma patch_ok_legal:
  assumes "i \<noteq> []" and "CHR ''/'' \<notin> set i"
    and "rq_method req = ''PATCH''" and "rq_pathname req = ''/annotations/'' @ i"
    and "rq_body req = Body (JObj kvs)"
    and "spec_getAnnotation i (w_store w) = Some a"
    and "map_of kvs ''status'' = Some (JStr t)" and "parse_status t = Some new"
    and "new \<noteq> a_status a"
    and "rs_status (fst (requestListener pf spec_store req w)) = 200"
  shows "legal (a_status a) new"
proof (rule ccontr)
  assume "\<not> legal (a_status a) new"
  from patch_illegal_response [OF assms(1-9) this, of pf]
  obtain m where "requestListener pf spec_store req w = (sendError 400 m, w)" by blast
  with assms(10) show False by simp
qed

lemma find_replace_annotation:
  "find (\<lambda>x. a_id x = i) xs = Some a \<Longrightarrow> a_id a' = i \<Longrightarrow>
   find (\<lambda>x. a_id x = i) (replace_annotation a' xs) = Some a'"
  by (induction xs) (auto simp: replace_annotation_def)

lemma find_id: "find (\<lambda>x. a_id x = i) xs = Some a \<Longrightarrow> a_id a = i"
  by (induction xs) (auto split: if_splits)

lemma apply_patch_id [simp]: "a_id (apply_patch now kvs new rb a) = a_id a"
  by (simp add: apply_patch_def)

lemma apply_patch_status [simp]: "a_status (apply_patch now kvs new rb a) = new"
  by (simp add: apply_patch_def)

lemma status_only_fields: "fields_ok [(''status'', v)]"
  by (simp add: fields_ok_def str_ok_def enum_ok_def num_ok_def)

lemma update_legal:
  assumes "spec_getAnnotation i s = Some a"
    and "parse_status t = Some new" and "legal (a_status a) new"
  shows "\<exists>a' evs s'. spec_updateAnnotation i (JObj [(''status'', JStr t)]) s = (Inr (Some a'), evs, s')
           \<and> a_status a' = new \<and> spec_getAnnotation i s' = Some a'"
  using assms find_id [of i "st_annotations s" a]
  by (simp add: spec_updateAnnotation_def patched_status_def patched_resolver_def
      status_only_fields emit_result Let_def spec_getAnnotation_def find_replace_annotation)

lemma agent_patch_fields:
  "fields_ok [(''status'', v), (''resolvedBy'', u)]"
  by (simp add: fields_ok_def str_ok_def enum_ok_def num_ok_def)

lemma quoted_transition_error:
  "json_quote transition_error = [CHR 0x22] @ ''Illegal status transition'' @ [CHR 0x22]"
  by code_simp

lemma transition_error_result:
  "http_result pf (sendError 400 transition_error)
     = Throw (''HTTP 400: '' @ [CHR ''{'', CHR 0x22] @ ''error'' @ [CHR 0x22, CHR '':'', CHR 0x22]
              @ ''Illegal status transition'' @ [CHR 0x22, CHR ''}''])"
  by (simp add: http_result_def res_ok_def sendError_def sendJson_def res_text_def show_nat_400
      quoted_transition_error)

lemma agent_patch_illegal:
  assumes "i \<noteq> []" and "CHR ''/'' \<notin> set i"
    and "fst (parse_target pf (''/annotations/'' @ i)) = ''/annotations/'' @ i"
    and "spec_getAnnotation i (w_store w) = Some a"
    and "parse_status t = Some new"
    and "new \<noteq> a_status a" and "\<not> legal (a_status a) new"
  shows "httpPatch pf spec_store (''/annotations/'' @ i)
           (JObj [(''status'', JStr t), (''resolvedBy'', JStr ''agent'')]) w
         = (http_result pf (sendError 400 transition_error), w)"
proof -
  have "matchRoute pf spec_store ''PATCH'' (''/annotations/'' @ i)
               = Some (updateAnnotationHandler pf spec_store, [(''id'', i)])"
    using assms(1,2) route_patch_annotation by blast
  moreover have "spec_updateAnnotation i
      (JObj [(''status'', JStr t), (''resolvedBy'', JStr ''agent'')]) (w_store w)
      = (Inl transition_error, [], w_store w)"
    using assms(4-7)
    by (simp add: spec_updateAnnotation_def agent_patch_fields patched_status_def)
  ultimately show ?thesis
    using assms(3,4)
    by (simp add: httpPatch_def fetch_def requestListener_def Let_def
        updateAnnotationHandler_def parseBody_def param_def)
qed

lemma resolve_illegal:
  assumes "required_string args ''annotationId'' = Inr i"
    and "optional_string args ''summary'' = Inr summary"
    and "i \<noteq> []" and "CHR ''/'' \<notin> set i"
    and "fst (parse_target pf (''/annotations/'' @ i)) = ''/annotations/'' @ i"
    and "spec_getAnnotation i (w_store w) = Some a"
    and "Resolved \<noteq> a_status a" and "\<not> legal (a_status a) Resolved"
  shows "\<exists>m. callTool pf spec_store ''agentation_resolve'' args w = (Return (error m), w)"
proof -
  have "parse_status ''resolved'' = Some Resolved" by (simp add: parse_status_def)
  from agent_patch_illegal [OF assms(3-6) this assms(7,8)]
  show ?thesis
    using assms(1,2)
    by (auto simp: callTool_def handleTool_def transition_error_result catch_404_def
        starts_with_def)
qed

lemma dismiss_illegal:
  assumes "required_string args ''annotationId'' = Inr i"
    and "required_string args ''reason'' = Inr reason"
    and "i \<noteq> []" and "CHR ''/'' \<notin> set i"
    and "fst (parse_target pf (''/annotations/'' @ i)) = ''/annotations/'' @ i"
    and "spec_getAnnotation i (w_store w) = Some a"
    and "Dismissed \<noteq> a_status a" and "\<not> legal (a_status a) Dismissed"
  shows "\<exists>m. callTool pf spec_store ''agentation_dismiss'' args w = (Return (error m), w)"
proof -
  have "parse_status ''dismissed'' = Some Dismissed" by (simp add: parse_status_def)
  from agent_patch_illegal [OF assms(3-6) this assms(7,8)]
  show ?thesis
    using assms(1,2)
    by (auto simp: callTool_def handleTool_def transition_error_result catch_404_def
        starts_with_def)
qed

lemma patch_legal_response:
  assumes "i \<noteq> []" and "CHR ''/'' \<notin> set i"
    and "rq_method req = ''PATCH''" and "rq_pathname req = ''/annotations/'' @ i"
    and "rq_body req = Body (JObj [(''status'', JStr t)])"
    and "spec_getAnnotation i (w_store w) = Some a"
    and "parse_status t = Some new" and "legal (a_status a) new"
  shows "rs_status (fst (requestListener pf spec_store req w)) = 200
       \<and> map_option a_status (spec_getAnnotation i (w_store (snd (requestListener pf spec_store req w))))
           = Some new"
proof -
  obtain a' evs s' where
    "spec_updateAnnotation i (JObj [(''status'', JStr t)]) (w_store w) = (Inr (Some a'), evs, s')"
    and "a_status a' = new" and "spec_getAnnotation i s' = Some a'"
    using update_legal [OF assms(6-8)] by blast
  then show ?thesis
    using assms(5,6)
    by (simp add: listener_patch [OF assms(1-4)] updateAnnotationHandler_def parseBody_def
        param_def)
qed

text \<open>
  C3 (store modelled from the specification). For an existing annotation, a
  status change requested by \<open>PATCH /annotations/:id\<close> succeeds only along an
  edge of the lattice: pending to acknowledged or dismissed, acknowledged to
  resolved or dismissed, resolved or dismissed to pending. Any other requested
  change of status is answered 400 and changes nothing; a patch of the status
  alone along an edge is answered 200 and leaves the annotation in the new
  status. The \<open>resolve\<close> and \<open>dismiss\<close> tools issue such a PATCH: off the
  lattice they return an error result and change nothing.
\<close>

theorem status_lattice:
  assumes "i \<noteq> []" and "CHR ''/'' \<notin> set i"
    and "spec_getAnnotation i (w_store w) = Some a"
  shows
    "(\<forall>c n. legal c n \<longleftrightarrow>
        (c, n) \<in> {(Pending, Acknowledged), (Pending, Dismissed), (Acknowledged, Resolved),
                  (Acknowledged, Dismissed), (Resolved, Pending), (Dismissed, Pending)})
     \<and> (rq_method req = ''PATCH'' \<and> rq_pathname req = ''/annotations/'' @ i
         \<and> rq_body req = Body (JObj kvs) \<and> map_of kvs ''status'' = Some (JStr t)
         \<and> parse_status t = Some new \<and> new \<noteq> a_status a \<longrightarrow>
           (rs_status (fst (requestListener pf spec_store req w)) = 200 \<longrightarrow> legal (a_status a) new)
           \<and> (\<not> legal (a_status a) new \<longrightarrow>
                rs_status (fst (requestListener pf spec_store req w)) = 400
                \<and> snd (requestListener pf spec_store req w) = w))
     \<and> (rq_method req = ''PATCH'' \<and> rq_pathname req = ''/annotations/'' @ i
         \<and> rq_body req = Body (JObj [(''status'', JStr t)])
         \<and> parse_status t = Some new \<and> legal (a_status a) new \<longrightarrow>
           rs_status (fst (requestListener pf spec_store req w)) = 200
           \<and> map_option a_status
                (spec_getAnnotation i (w_store (snd (requestListener pf spec_store req w))))
               = Some new)
     \<and> (required_string args ''annotationId'' = Inr i
         \<and> fst (parse_target pf (''/annotations/'' @ i)) = ''/annotations/'' @ i
         \<and> optional_string args ''summary'' = Inr summary
         \<and> Resolved \<noteq> a_status a \<and> \<not> legal (a_status a) Resolved \<longrightarrow>
           (\<exists>m. callTool pf spec_store ''agentation_resolve'' args w = (Return (error m), w)))
     \<and> (required_string args ''annotationId'' = Inr i
         \<and> fst (parse_target pf (''/annotations/'' @ i)) = ''/annotations/'' @ i
         \<and> required_string args ''reason'' = Inr reason
         \<and> Dismissed \<noteq> a_status a \<and> \<not> legal (a_status a) Dismissed \<longrightarrow>
           (\<exists>m. callTool pf spec_store ''agentation_dismiss'' args w = (Return (error m), w)))"
proof (intro conjI impI allI)
  fix c n
  show "legal c n \<longleftrightarrow>
        (c, n) \<in> {(Pending, Acknowledged), (Pending, Dismissed), (Acknowledged, Resolved),
                  (Acknowledged, Dismissed), (Resolved, Pending), (Dismissed, Pending)}"
    by (rule legal_edges)
next
  assume h: "rq_method req = ''PATCH'' \<and> rq_pathname req = ''/annotations/'' @ i
         \<and> rq_body req = Body (JObj kvs) \<and> map_of kvs ''status'' = Some (JStr t)
         \<and> parse_status t = Some new \<and> new \<noteq> a_status a"
    and "rs_status (fst (requestListener pf spec_store req w)) = 200"
  then show "legal (a_status a) new"
    using patch_ok_legal [OF assms(1,2) _ _ _ assms(3), of req kvs t new pf] by blast
next
  assume h: "rq_method req = ''PATCH'' \<and> rq_pathname req = ''/annotations/'' @ i
         \<and> rq_body req = Body (JObj kvs) \<and> map_of kvs ''status'' = Some (JStr t)
         \<and> parse_status t = Some new \<and> new \<noteq> a_status a"
    and "\<not> legal (a_status a) new"
  then obtain m where m: "requestListener pf spec_store req w = (sendError 400 m, w)"
    using patch_illegal_response [OF assms(1,2) _ _ _ assms(3), of req kvs t new pf] by blast
  from m show "rs_status (fst (requestListener pf spec_store req w)) = 400" by simp
  from m show "snd (requestListener pf spec_store req w) = w" by simp
next
  assume h: "rq_method req = ''PATCH'' \<and> rq_pathname req = ''/annotations/'' @ i
         \<and> rq_body req = Body (JObj [(''status'', JStr t)])
         \<and> parse_status t = Some new \<and> legal (a_status a) new"
  then have r: "rs_status (fst (requestListener pf spec_store req w)) = 200
       \<and> map_option a_status (spec_getAnnotation i (w_store (snd (requestListener pf spec_store req w))))
           = Some new"
    using patch_legal_response [OF assms(1,2) _ _ _ assms(3), of req t new pf] by blast
  from r show "rs_status (fst (requestListener pf spec_store req w)) = 200" by simp
  from r show "map_option a_status
                (spec_getAnnotation i (w_store (snd (requestListener pf spec_store req w))))
               = Some new" by simp
next
  assume "required_string args ''annotationId'' = Inr i
         \<and> fst (parse_target pf (''/annotations/'' @ i)) = ''/annotations/'' @ i
         \<and> optional_string args ''summary'' = Inr summary
         \<and> Resolved \<noteq> a_status a \<and> \<not> legal (a_status a) Resolved"
  then show "\<exists>m. callTool pf spec_store ''agentation_resolve'' args w = (Return (error m), w)"
    using resolve_illegal [OF _ _ assms(1,2) _ assms(3), of args summary pf] by blast
next
  assume "required_string args ''annotationId'' = Inr i
         \<and> fst (parse_target pf (''/annotations/'' @ i)) = ''/annotations/'' @ i
         \<and> required_string args ''reason'' = Inr reason
         \<and> Dismissed \<noteq> a_status a \<and> \<not> legal (a_status a) Dismissed"
  then show "\<exists>m. callTool pf spec_store ''agentation_dismiss'' args w = (Return (error m), w)"
    using dismiss_illegal [OF _ _ assms(1,2) _ assms(3), of args reason pf] by blast
qed

theorem status_lattice_witness:
  "rs_status (fst (requestListener example_platform spec_store (patch_request ''resolved'')
       pending_world)) = 400
   \<and> snd (requestListener example_platform spec_store (patch_request ''resolved'') pending_world)
       = pending_world
   \<and> rs_status (fst (requestListener example_platform spec_store (patch_request ''acknowledged'')
       pending_world)) = 200
   \<and> map_option a_status (spec_getAnnotation ''a1'' (w_store (snd (requestListener
       example_platform spec_store (patch_request ''acknowledged'') pending_world))))
       = Some Acknowledged"
proof -
  have h1: "''a1'' \<noteq> []" and h2: "CHR ''/'' \<notin> set ''a1''" by simp_all
  have h3: "spec_getAnnotation ''a1'' (w_store pending_world) = Some pending_a1"
    by code_simp
  have st: "a_status pending_a1 = Pending" by code_simp
  have r: "rq_method (patch_request ''resolved'') = ''PATCH''
      \<and> rq_pathname (patch_request ''resolved'') = ''/annotations/'' @ ''a1''
      \<and> rq_body (patch_request ''resolved'') = Body (JObj [(''status'', JStr ''resolved'')])
      \<and> map_of [(''status'', JStr ''resolved'')] ''status'' = Some (JStr ''resolved'')
      \<and> parse_status ''resolved'' = Some Resolved \<and> Resolved \<noteq> a_status pending_a1"
    by code_simp
  have k: "rq_method (patch_request ''acknowledged'') = ''PATCH''
      \<and> rq_pathname (patch_request ''acknowledged'') = ''/annotations/'' @ ''a1''
      \<and> rq_body (patch_request ''acknowledged'') = Body (JObj [(''status'', JStr ''acknowledged'')])
      \<and> parse_status ''acknowledged'' = Some Acknowledged \<and> legal (a_status pending_a1) Acknowledged"
    by code_simp
  have n: "\<not> legal (a_status pending_a1) Resolved" by (simp add: st)
  from status_lattice [OF h1 h2 h3, where req = "patch_request ''resolved''"
      and kvs = "[(''status'', JStr ''resolved'')]" and t = "''resolved''" and new = Resolved
      and pf = example_platform] r n
  have a: "rs_status (fst (requestListener example_platform spec_store (patch_request ''resolved'')
       pending_world)) = 400
     \<and> snd (requestListener example_platform spec_store (patch_request ''resolved'') pending_world)
       = pending_world"
    by blast
  from status_lattice [OF h1 h2 h3, where req = "patch_request ''acknowledged''"
      and t = "''acknowledged''" and new = Acknowledged and pf = example_platform] k
  have b: "rs_status (fst (requestListener example_platform spec_store (patch_request ''acknowledged'')
       pending_world)) = 200
     \<and> map_option a_status (spec_getAnnotation ''a1'' (w_store (snd (requestListener
       example_platform spec_store (patch_request ''acknowledged'') pending_world))))
       = Some Acknowledged"
    by blast
  from a b show ?thesis by blast
qed

section \<open>Effects of requests, tool calls and runs\<close>

lemma open_stream_effect: "effect pf ops w (snd (open_stream k first w))"
  unfolding open_stream_def snd_conv by (rule effect.opened)

lemma handler_effects:
  "effect pf ops w (snd (createSessionHandler pf ops req params w))"
  "effect pf ops w (snd (listSessionsHandler pf ops req params w))"
  "effect pf ops w (snd (getSessionHandler pf ops req params w))"
  "effect pf ops w (snd (addAnnotationHandler pf ops req params w))"
  "effect pf ops w (snd (updateAnnotationHandler pf ops req params w))"
  "effect pf ops w (snd (getAnnotationHandler pf ops req params w))"
  "effect pf ops w (snd (deleteAnnotationHandler pf ops req params w))"
  "effect pf ops w (snd (getPendingHandler pf ops req params w))"
  "effect pf ops w (snd (getAllPendingHandler pf ops req params w))"
  "effect pf ops w (snd (addThreadHandler pf ops req params w))"
  "effect pf ops w (snd (sseHandler pf ops req params w))"
  "effect pf ops w (snd (globalSseHandler pf ops req params w))"
  by (auto simp: createSessionHandler_def listSessionsHandler_def getSessionHandler_def
      addAnnotationHandler_def updateAnnotationHandler_def getAnnotationHandler_def
      deleteAnnotationHandler_def getPendingHandler_def getAllPendingHandler_def
      addThreadHandler_def sseHandler_def globalSseHandler_def Let_def
      split: sum.splits option.splits prod.splits if_splits
      intro: effect.intros mutation.intros open_stream_effect)

lemma routed_handler_effect:
  assumes "h \<in> r_handler ` set (routes pf ops)"
  shows "effect pf ops w (snd (h req params w))"
  using assms handler_effects [of pf ops w req params]
  by (auto simp: routes_def)

lemma requestListener_effect: "effect pf ops w (snd (requestListener pf ops req w))"
proof -
  define m where "m = (if rq_method req = [] then ''GET'' else rq_method req)"
  show ?thesis
  proof (cases "m = ''OPTIONS'' \<or> (rq_pathname req = ''/health'' \<and> m = ''GET'')")
    case True
    then show ?thesis
      by (auto simp: requestListener_def Let_def m_def intro: effect.unchanged)
  next
    case False
    show ?thesis
    proof (cases "matchRoute pf ops m (rq_pathname req)")
      case None
      with False show ?thesis
        by (auto simp: requestListener_def Let_def m_def intro: effect.unchanged)
    next
      case (Some hp)
      obtain h params where hp: "hp = (h, params)" by (cases hp)
      have "h \<in> r_handler ` set (routes pf ops)"
        using Some hp match_in_handler by (fastforce simp: matchRoute_def)
      from routed_handler_effect [OF this, of w req params]
      show ?thesis
        using False Some hp
        by (auto simp: requestListener_def Let_def m_def split: prod.splits sum.splits)
    qed
  qed
qed

lemma fetch_effect: "effect pf ops w (snd (fetch pf ops m path body w))"
  by (simp add: fetch_def requestListener_effect)

lemma http_effects:
  "httpGet pf ops path w = (r, w') \<Longrightarrow> effect pf ops w w'"
  "httpPatch pf ops path body w = (r, w') \<Longrightarrow> effect pf ops w w'"
  "httpPost pf ops path body w = (r, w') \<Longrightarrow> effect pf ops w w'"
proof -
  assume "httpGet pf ops path w = (r, w')"
  then have "w' = snd (fetch pf ops ''GET'' path None w)"
    by (auto simp: httpGet_def split: prod.splits)
  then show "effect pf ops w w'" by (simp add: fetch_effect)
next
  assume "httpPatch pf ops path body w = (r, w')"
  then have "w' = snd (fetch pf ops ''PATCH'' path (Some body) w)"
    by (auto simp: httpPatch_def split: prod.splits)
  then show "effect pf ops w w'" by (simp add: fetch_effect)
next
  assume "httpPost pf ops path body w = (r, w')"
  then have "w' = snd (fetch pf ops ''POST'' path (Some body) w)"
    by (auto simp: httpPost_def split: prod.splits)
  then show "effect pf ops w w'" by (simp add: fetch_effect)
qed

lemma effect_twice:
  "effect pf ops w w1 \<Longrightarrow> effect pf ops w1 w2 \<Longrightarrow> rtranclp (effect pf ops) w w2"
  by (meson rtranclp.rtrancl_into_rtrancl r_into_rtranclp)

lemma tool_effect_list:
  "rtranclp (effect pf ops) w (snd (handleTool pf ops ''agentation_list_sessions'' args w))"
  by (auto simp: handleTool_def
      split: prod.splits outcome.splits res_body.splits
      dest: http_effects)

lemma tool_effect_get_session:
  "rtranclp (effect pf ops) w (snd (handleTool pf ops ''agentation_get_session'' args w))"
  by (auto simp: handleTool_def
      split: sum.splits prod.splits
      dest: http_effects)

lemma tool_effect_get_pending:
  "rtranclp (effect pf ops) w (snd (handleTool pf ops ''agentation_get_pending'' args w))"
  by (auto simp: handleTool_def
      split: sum.splits prod.splits
      dest: http_effects)

lemma tool_effect_get_all_pending:
  "rtranclp (effect pf ops) w (snd (handleTool pf ops ''agentation_get_all_pending'' args w))"
  by (auto simp: handleTool_def
      split: sum.splits prod.splits
      dest: http_effects)

lemma tool_effect_acknowledge:
  "rtranclp (effect pf ops) w (snd (handleTool pf ops ''agentation_acknowledge'' args w))"
  by (auto simp: handleTool_def
      split: sum.splits prod.splits
      dest: http_effects)

lemma tool_effect_reply:
  "rtranclp (effect pf ops) w (snd (handleTool pf ops ''agentation_reply'' args w))"
  by (auto simp: handleTool_def
      split: sum.splits prod.splits
      dest: http_effects)

lemma tool_effect_resolve:
  "rtranclp (effect pf ops) w (snd (handleTool pf ops ''agentation_resolve'' args w))"
  by (auto simp: handleTool_def
      split: sum.splits prod.splits outcome.splits option.splits list.splits
      dest: http_effects intro: effect_twice [OF http_effects(2) http_effects(3)])

lemma tool_effect_dismiss:
  "rtranclp (effect pf ops) w (snd (handleTool pf ops ''agentation_dismiss'' args w))"
  by (auto simp: handleTool_def
      split: sum.splits prod.splits outcome.splits
      dest: http_effects intro: effect_twice [OF http_effects(2) http_effects(3)])

lemma handleTool_effect: "rtranclp (effect pf ops) w (snd (handleTool pf ops name args w))"
proof (cases "name \<in> set (map t_name TOOLS)")
  case False
  then show ?thesis by (simp add: unknown_tool)
next
  case True
  then have "name = ''agentation_list_sessions'' \<or> name = ''agentation_get_session''
    \<or> name = ''agentation_get_pending'' \<or> name = ''agentation_get_all_pending''
    \<or> name = ''agentation_acknowledge'' \<or> name = ''agentation_resolve''
    \<or> name = ''agentation_dismiss'' \<or> name = ''agentation_reply''"
    by (simp add: TOOLS_def)
  then show ?thesis
    by (elim disjE)
      (simp_all only: tool_effect_list tool_effect_get_session tool_effect_get_pending
        tool_effect_get_all_pending tool_effect_acknowledge tool_effect_resolve
        tool_effect_dismiss tool_effect_reply)
qed

lemma callTool_effect: "rtranclp (effect pf ops) w (snd (callTool pf ops name args w))"
  using handleTool_effect [of pf ops w name args]
  by (auto simp: callTool_def split: prod.splits outcome.splits)

lemma effect_store:
  assumes "effect pf ops w w'"
    and "\<And>s evs s'. mutation ops s evs s' \<Longrightarrow> P s \<Longrightarrow> P s'"
    and "P (w_store w)"
  shows "P (w_store w')"
  using assms by cases auto

lemma effects_store:
  assumes "rtranclp (effect pf ops) w w'"
    and "\<And>s evs s'. mutation ops s evs s' \<Longrightarrow> P s \<Longrightarrow> P s'"
    and "P (w_store w)"
  shows "P (w_store w')"
  using assms
proof (induction rule: rtranclp_induct)
  case base
  then show ?case by simp
next
  case (step y z)
  then show ?case using effect_store [of pf ops y z P] by blast
qed

lemma step_store:
  assumes "\<And>s evs s'. mutation ops s evs s' \<Longrightarrow> P s \<Longrightarrow> P s'"
    and "\<And>n s. P s \<Longrightarrow> P (tick ops n s)"
    and "P (w_store w)"
  shows "P (w_store (snd (step pf ops i w)))"
proof (cases i)
  case (Request req)
  then show ?thesis
    using effect_store [OF requestListener_effect [of pf ops w req], of P] assms
    by (auto simp: step_def split: prod.splits)
next
  case (ToolCall name args)
  then show ?thesis
    using effects_store [OF callTool_effect [of pf ops w name args], of P] assms
    by (auto simp: step_def split: prod.splits)
qed (use assms in \<open>auto simp: step_def close_stream_def keep_alive_def\<close>)

lemma run_store:
  assumes "\<And>s evs s'. mutation ops s evs s' \<Longrightarrow> P s \<Longrightarrow> P s'"
    and "\<And>n s. P s \<Longrightarrow> P (tick ops n s)"
    and "P (w_store w)"
  shows "P (w_store (run pf ops w inputs))"
  using assms(3)
proof (induction inputs arbitrary: w)
  case Nil
  then show ?case by simp
next
  case (Cons i rest)
  have "P (w_store (snd (step pf ops i w)))"
    using step_store [of ops P w pf i] assms(1,2) Cons.prems by blast
  then show ?case using Cons.IH by simp
qed

section \<open>Sequence numbers (bus modelled from the specification)\<close>

lemma createSession_appended:
  "spec_createSession u p s = (r, evs, s') \<Longrightarrow> appended s evs s'"
  by (auto simp: spec_createSession_def emit_result fresh_id_def Let_def appended_def
      split: json.splits option.splits)

lemma addAnnotation_appended:
  "spec_addAnnotation i b s = (r, evs, s') \<Longrightarrow> appended s evs s'"
  by (auto simp: spec_addAnnotation_def emit_result fresh_id_def Let_def appended_def
      split: json.splits option.splits if_splits)

lemma updateAnnotation_appended:
  "spec_updateAnnotation i b s = (r, evs, s') \<Longrightarrow> appended s evs s'"
  by (auto simp: spec_updateAnnotation_def emit_result Let_def appended_def
      split: json.splits option.splits if_splits sum.splits)

lemma deleteAnnotation_appended:
  "spec_deleteAnnotation i s = (r, evs, s') \<Longrightarrow> appended s evs s'"
  by (auto simp: spec_deleteAnnotation_def emit_result Let_def appended_def
      split: option.splits)

lemma addThreadMessage_appended:
  "spec_addThreadMessage i ro c s = (r, evs, s') \<Longrightarrow> appended s evs s'"
  by (auto simp: spec_addThreadMessage_def emit_result fresh_id_def Let_def appended_def
      split: json.splits option.splits)

lemma mutation_appended:
  "mutation spec_store s evs s' \<Longrightarrow> appended s evs s'"
  by (cases rule: mutation.cases)
    (auto simp: createSession_appended addAnnotation_appended updateAnnotation_appended
      deleteAnnotation_appended addThreadMessage_appended)

lemma numbered_appended:
  assumes "appended s evs s'" and "numbered s"
  shows "numbered s'"
proof -
  have "[1..<Suc (st_sequence s + length evs)]
          = [1..<Suc (st_sequence s)] @ [Suc (st_sequence s)..<Suc (st_sequence s + length evs)]"
    by (metis Suc_eq_plus1_left Suc_le_mono le_add1 plus_1_eq_Suc upt_add_eq_append add_Suc)
  with assms show ?thesis
    by (simp add: appended_def numbered_def)
qed

lemma numbered_run:
  "numbered (w_store w) \<Longrightarrow> numbered (w_store (run pf spec_store w inputs))"
proof (rule run_store [where P = numbered])
  fix s evs s'
  assume "mutation spec_store s evs s'" and "numbered s"
  then show "numbered s'" using mutation_appended numbered_appended by blast
next
  fix n s
  assume "numbered s"
  then show "numbered (tick spec_store n s)" by (simp add: numbered_def)
qed

lemma numbered_start: "numbered (w_store (start empty_store))"
  by (simp add: numbered_def start_def empty_store_def)

text \<open>
  C5 (bus modelled from the specification). Whatever the process is given from
  its start (requests, tool calls, disconnections, timer ticks, time passing), the
  sequence numbers of the event log are \<open>1, 2, ..., n\<close> in this order, \<open>n\<close>
  being the reading of the single counter: the first number is 1, the numbers
  are strictly increasing and gap-free, and none is used twice.
\<close>

theorem sequence_numbers:
  "map e_sequence (st_events (w_store (run pf spec_store (start empty_store) inputs)))
     = [1..<Suc (st_sequence (w_store (run pf spec_store (start empty_store) inputs)))]
   \<and> sorted_wrt (<) (map e_sequence (st_events (w_store (run pf spec_store (start empty_store) inputs))))
   \<and> distinct (map e_sequence (st_events (w_store (run pf spec_store (start empty_store) inputs))))"
proof -
  have "numbered (w_store (run pf spec_store (start empty_store) inputs))"
    using numbered_start by (rule numbered_run)
  then have eq: "map e_sequence (st_events (w_store (run pf spec_store (start empty_store) inputs)))
     = [1..<Suc (st_sequence (w_store (run pf spec_store (start empty_store) inputs)))]"
    by (simp add: numbered_def)
  show ?thesis
    unfolding eq by (simp add: sorted_wrt_upt del: upt_Suc)
qed

theorem sequence_numbers_witness:
  "map e_sequence (st_events (w_store (run example_platform spec_store (start empty_store)
       [post_session, post_annotation, patch_status ''acknowledged'',
        ToolCall ''agentation_resolve'' (resolve_args ''fixed padding'')])))
     = [1, 2, 3, 4, 5]"
proof -
  have n: "st_sequence (w_store (run example_platform spec_store (start empty_store)
       [post_session, post_annotation, patch_status ''acknowledged'',
        ToolCall ''agentation_resolve'' (resolve_args ''fixed padding'')])) = 5"
    by code_simp
  have u: "[1..<Suc 5] = [1, 2, 3, 4, 5]" by code_simp
  from sequence_numbers [of example_platform
      "[post_session, post_annotation, patch_status ''acknowledged'',
        ToolCall ''agentation_resolve'' (resolve_args ''fixed padding'')]"]
  show ?thesis unfolding n u by blast
qed

section \<open>Deleting an annotation (store modelled from the specification)\<close>

lemma digit_char_val: "d < 10 \<Longrightarrow> digit_val (digit_char d) = int d"
proof -
  assume "d < 10"
  then have "d \<in> {0, 1, 2, 3, 4, 5, 6, 7, 8, 9}" by auto
  then show ?thesis
    by (auto simp: digit_char_def digit_val_def)
qed

lemma digit_char_digit: "d < 10 \<Longrightarrow> digit_char d \<in> set ''0123456789''"
proof -
  assume "d < 10"
  then have "d \<in> {0, 1, 2, 3, 4, 5, 6, 7, 8, 9}" by auto
  then show ?thesis
    by (auto simp: digit_char_def)
qed

lemma digits_val_snoc: "digits_val (xs @ [c]) = digits_val xs * 10 + digit_val c"
  by (simp add: digits_val_def)

lemma digits_val_show_nat: "digits_val (show_nat n) = int n"
proof (induction n rule: show_nat.induct)
  case (1 n)
  show ?case
  proof (cases "n < 10")
    case True
    then show ?thesis
      by (simp add: show_nat.simps [of n] digits_val_def digit_char_val)
  next
    case False
    have "digits_val (show_nat n) = digits_val (show_nat (n div 10)) * 10 + digit_val (digit_char (n mod 10))"
      using False by (simp add: show_nat.simps [of n] digits_val_snoc)
    also have "\<dots> = int (n div 10) * 10 + int (n mod 10)"
      using 1 False by (simp add: digit_char_val)
    also have "\<dots> = int n" by (simp add: zdiv_int zmod_int)
    finally show ?thesis .
  qed
qed

lemma show_nat_inj: "show_nat n = show_nat m \<Longrightarrow> n = m"
  by (metis digits_val_show_nat of_nat_eq_iff)

lemma show_nat_digits: "set (show_nat n) \<subseteq> set ''0123456789''"
proof (induction n rule: show_nat.induct)
  case (1 n)
  show ?case
  proof (cases "n < 10")
    case True
    then show ?thesis
      using digit_char_digit [of n] by (simp add: show_nat.simps [of n])
  next
    case False
    then show ?thesis
      using 1 digit_char_digit [of "n mod 10"] by (simp add: show_nat.simps [of n])
  qed
qed

lemma show_nat_no_slash: "CHR ''/'' \<notin> set (show_nat n)"
  using show_nat_digits [of n] by auto

lemma replace_annotation_ids: "map a_id (replace_annotation a' xs) = map a_id xs"
  by (induction xs) (auto simp: replace_annotation_def)

lemma replace_annotation_id_set:
  "x \<in> set (replace_annotation a' xs) \<Longrightarrow> a_id x \<in> a_id ` set xs"
  by (metis image_eqI image_set replace_annotation_ids)

lemma createSession_ids:
  "spec_createSession u p s = (r, evs, s') \<Longrightarrow> ids_grow s s'"
  by (auto simp: spec_createSession_def emit_result fresh_id_def Let_def ids_grow_def
      split: json.splits option.splits)

lemma addAnnotation_ids:
  "spec_addAnnotation i b s = (r, evs, s') \<Longrightarrow> ids_grow s s'"
  by (auto simp: spec_addAnnotation_def emit_result fresh_id_def Let_def ids_grow_def
      split: json.splits option.splits if_splits)

lemma updateAnnotation_ids:
  "spec_updateAnnotation i b s = (r, evs, s') \<Longrightarrow> ids_grow s s'"
  by (auto simp: spec_updateAnnotation_def emit_result Let_def ids_grow_def
      split: json.splits option.splits if_splits sum.splits
      dest: replace_annotation_id_set)

lemma deleteAnnotation_ids:
  "spec_deleteAnnotation i s = (r, evs, s') \<Longrightarrow> ids_grow s s'"
  by (auto simp: spec_deleteAnnotation_def emit_result Let_def ids_grow_def
      split: option.splits)

lemma addThreadMessage_ids:
  "spec_addThreadMessage i ro c s = (r, evs, s') \<Longrightarrow> ids_grow s s'"
  by (auto simp: spec_addThreadMessage_def emit_result fresh_id_def Let_def ids_grow_def
      split: json.splits option.splits
      dest: replace_annotation_id_set)

lemma mutation_ids:
  "mutation spec_store s evs s' \<Longrightarrow> ids_grow s s'"
  by (cases rule: mutation.cases)
    (auto simp: createSession_ids addAnnotation_ids updateAnnotation_ids
      deleteAnnotation_ids addThreadMessage_ids)

lemma issued_grow:
  assumes "ids_grow s s'" and "issued s"
  shows "issued s'"
  unfolding issued_def
proof
  fix x
  assume x: "x \<in> set (st_annotations s')"
  from assms(1) x consider "a_id x \<in> a_id ` set (st_annotations s)"
    | "a_id x = ''a'' @ show_nat (st_nextId s)" and "st_nextId s < st_nextId s'"
    by (auto simp: ids_grow_def)
  then show "\<exists>k < st_nextId s'. a_id x = ''a'' @ show_nat k"
  proof cases
    case 1
    then obtain y where "y \<in> set (st_annotations s)" and "a_id x = a_id y" by auto
    with assms(2) obtain k where "k < st_nextId s" and "a_id x = ''a'' @ show_nat k"
      by (auto simp: issued_def)
    moreover have "st_nextId s \<le> st_nextId s'" using assms(1) by (simp add: ids_grow_def)
    ultimately show ?thesis by (meson less_le_trans)
  next
    case 2
    then show ?thesis by blast
  qed
qed

lemma retired_grow:
  assumes "ids_grow s s'" and "retired i s"
  shows "retired i s'"
proof -
  from assms(2) obtain k where k: "k < st_nextId s" and i: "i = ''a'' @ show_nat k"
    and gone: "i \<notin> a_id ` set (st_annotations s)"
    by (auto simp: retired_def)
  have le: "st_nextId s \<le> st_nextId s'" using assms(1) by (simp add: ids_grow_def)
  have "i \<notin> a_id ` set (st_annotations s')"
  proof
    assume "i \<in> a_id ` set (st_annotations s')"
    then obtain x where x: "x \<in> set (st_annotations s')" and xi: "a_id x = i" by auto
    from assms(1) x consider "a_id x \<in> a_id ` set (st_annotations s)"
      | "a_id x = ''a'' @ show_nat (st_nextId s)"
      by (auto simp: ids_grow_def)
    then show False
    proof cases
      case 1
      with xi gone show False by simp
    next
      case 2
      with xi i have "show_nat k = show_nat (st_nextId s)" by simp
      then have "k = st_nextId s" by (rule show_nat_inj)
      with k show False by simp
    qed
  qed
  moreover have "k < st_nextId s'" using k le by simp
  ultimately show ?thesis using i unfolding retired_def by blast
qed

lemma issued_run:
  "issued (w_store w) \<Longrightarrow> issued (w_store (run pf spec_store w inputs))"
proof (rule run_store [where P = issued])
  fix s evs s'
  assume "mutation spec_store s evs s'" and "issued s"
  then show "issued s'" using mutation_ids issued_grow by blast
next
  fix n s
  assume "issued s"
  then show "issued (tick spec_store n s)" by (simp add: issued_def)
qed

lemma retired_run:
  "retired i (w_store w) \<Longrightarrow> retired i (w_store (run pf spec_store w inputs))"
proof (rule run_store [where P = "retired i"])
  fix s evs s'
  assume "mutation spec_store s evs s'" and "retired i s"
  then show "retired i s'" using mutation_ids retired_grow by blast
next
  fix n s
  assume "retired i s"
  then show "retired i (tick spec_store n s)" by (simp add: retired_def)
qed

lemma issued_start: "issued (w_store (start empty_store))"
  by (simp add: issued_def start_def empty_store_def)

lemma find_in_set: "find P xs = Some a \<Longrightarrow> a \<in> set xs"
  by (induction xs) (auto split: if_splits)

lemma listener_delete:
  assumes "i \<noteq> []" and "CHR ''/'' \<notin> set i"
    and "rq_method req = ''DELETE''" and "rq_pathname req = ''/annotations/'' @ i"
  shows "requestListener pf ops req w
     = (case deleteAnnotationHandler pf ops req [(''id'', i)] w of
          (Inl err, w') \<Rightarrow> (sendError 500 ''Internal server error'', w')
        | (Inr res, w') \<Rightarrow> (res, w'))"
proof -
  have "matchRoute pf ops ''DELETE'' (''/annotations/'' @ i)
          = Some (deleteAnnotationHandler pf ops, [(''id'', i)])"
    using assms(1,2) route_delete_annotation by blast
  then show ?thesis
    using assms(3,4) by (simp add: requestListener_def)
qed

lemma issued_plain:
  assumes "issued s" and "spec_getAnnotation i s = Some a"
  shows "i \<noteq> [] \<and> CHR ''/'' \<notin> set i \<and> (\<exists>k < st_nextId s. i = ''a'' @ show_nat k)"
proof -
  have "a \<in> set (st_annotations s)" and "a_id a = i"
    using assms(2) find_in_set find_id by (fastforce simp: spec_getAnnotation_def)+
  with assms(1) obtain k where "k < st_nextId s" and "i = ''a'' @ show_nat k"
    by (auto simp: issued_def)
  then show ?thesis using show_nat_no_slash [of k] by auto
qed

lemma delete_present:
  assumes "i \<noteq> []" and "CHR ''/'' \<notin> set i"
    and "rq_method req = ''DELETE''" and "rq_pathname req = ''/annotations/'' @ i"
    and "spec_getAnnotation i (w_store w) = Some a"
  shows "fst (requestListener pf spec_store req w) = sendJson 200 (DeletedBody i)"
    and "st_annotations (w_store (snd (requestListener pf spec_store req w)))
           = filter (\<lambda>x. a_id x \<noteq> i) (st_annotations (w_store w))"
    and "st_nextId (w_store (snd (requestListener pf spec_store req w))) = st_nextId (w_store w)"
  using assms(5)
  by (simp_all add: listener_delete [OF assms(1-4)] deleteAnnotationHandler_def param_def
      spec_deleteAnnotation_def emit_result Let_def)

lemma delete_absent:
  assumes "i \<noteq> []" and "CHR ''/'' \<notin> set i"
    and "rq_method req = ''DELETE''" and "rq_pathname req = ''/annotations/'' @ i"
    and "spec_getAnnotation i (w_store w) = None"
  shows "requestListener pf spec_store req w = (sendError 404 ''Annotation not found'', w)"
  using assms(5)
  by (simp add: listener_delete [OF assms(1-4)] deleteAnnotationHandler_def param_def
      spec_deleteAnnotation_def)

lemma retired_absent:
  assumes "retired i s"
  shows "spec_getAnnotation i s = None"
proof -
  have "i \<notin> a_id ` set (st_annotations s)" using assms by (simp add: retired_def)
  then have "\<forall>x \<in> set (st_annotations s). a_id x \<noteq> i" by blast
  then show ?thesis by (simp add: spec_getAnnotation_def find_None_iff)
qed

text \<open>Claim C7. With the store of the specification, started empty and driven by any
  inputs: for the id of an annotation that exists, the first
  \<open>DELETE /annotations/:id\<close> answers 200 with the body
  \<open>{deleted: true, annotationId: id}\<close>, the store operation it calls having
  returned the annotation as it was before the delete; the annotation is gone
  afterwards, and after any further inputs every \<open>DELETE\<close> of the same id answers
  404 \<open>Annotation not found\<close> and changes nothing.\<close>

theorem delete_then_not_found:
  assumes "w = run pf spec_store (start empty_store) before"
    and "spec_getAnnotation i (w_store w) = Some a"
    and "rq_method req = ''DELETE''" and "rq_pathname req = ''/annotations/'' @ i"
    and "w' = run pf spec_store (snd (requestListener pf spec_store req w)) later"
  shows "fst (requestListener pf spec_store req w) = sendJson 200 (DeletedBody i)
     \<and> fst (deleteAnnotation spec_store i (w_store w)) = Some a
     \<and> spec_getAnnotation i (w_store (snd (requestListener pf spec_store req w))) = None
     \<and> requestListener pf spec_store req w' = (sendError 404 ''Annotation not found'', w')"
proof -
  let ?w1 = "snd (requestListener pf spec_store req w)"
  have "issued (w_store w)"
    unfolding assms(1) by (rule issued_run [OF issued_start])
  from issued_plain [OF this assms(2)]
  obtain k where i: "i \<noteq> []" "CHR ''/'' \<notin> set i"
    and k: "k < st_nextId (w_store w)" "i = ''a'' @ show_nat k"
    by blast
  note present = delete_present [OF i assms(3,4,2), of pf]
  have "i \<notin> a_id ` set (st_annotations (w_store ?w1))"
    unfolding present(2) by auto
  with k have gone: "retired i (w_store ?w1)"
    unfolding retired_def present(3) by blast
  then have "retired i (w_store w')"
    unfolding assms(5) by (rule retired_run)
  then have "spec_getAnnotation i (w_store w') = None" by (rule retired_absent)
  then have later: "requestListener pf spec_store req w' = (sendError 404 ''Annotation not found'', w')"
    by (rule delete_absent [OF i assms(3,4)])
  have snapshot: "fst (deleteAnnotation spec_store i (w_store w)) = Some a"
    using assms(2) by (simp add: spec_deleteAnnotation_def emit_result Let_def)
  from present(1) snapshot retired_absent [OF gone] later show ?thesis by blast
qed

theorem delete_then_not_found_witness:
  "fst (requestListener example_platform spec_store (bare_request ''DELETE'' ''/annotations/a1'')
       pending_world) = sendJson 200 (DeletedBody ''a1'')
   \<and> fst (deleteAnnotation spec_store ''a1'' (w_store pending_world)) = Some pending_a1
   \<and> spec_getAnnotation ''a1'' (w_store (snd (requestListener example_platform spec_store
       (bare_request ''DELETE'' ''/annotations/a1'') pending_world))) = None
   \<and> fst (requestListener example_platform spec_store (bare_request ''DELETE'' ''/annotations/a1'')
       (run example_platform spec_store (snd (requestListener example_platform spec_store
          (bare_request ''DELETE'' ''/annotations/a1'') pending_world)) [post_annotation]))
       = sendError 404 ''Annotation not found''"
proof -
  have h: "spec_getAnnotation ''a1'' (w_store pending_world) = Some pending_a1"
    by code_simp
  have r: "rq_method (bare_request ''DELETE'' ''/annotations/a1'') = ''DELETE''
      \<and> rq_pathname (bare_request ''DELETE'' ''/annotations/a1'') = ''/annotations/'' @ ''a1''"
    by code_simp
  from delete_then_not_found [OF pending_world_def h, of "bare_request ''DELETE'' ''/annotations/a1''"
      _ "[post_annotation]"] r
  show ?thesis by (metis fst_conv)
qed

section \<open>Replay on reconnection (store modelled from the specification)\<close>

lemma step_world:
  assumes "\<And>w w'. effect pf ops w w' \<Longrightarrow> Q w \<Longrightarrow> Q w'"
    and "\<And>cid w. Q w \<Longrightarrow> Q (keep_alive cid w)"
    and "\<And>cid w. i = Close cid \<Longrightarrow> Q w \<Longrightarrow> Q (close_stream cid w)"
    and "\<And>n w. Q w \<Longrightarrow> Q (w\<lparr>w_store := tick ops n (w_store w)\<rparr>)"
    and "Q w"
  shows "Q (snd (step pf ops i w))"
proof (cases i)
  case (Request req)
  then show ?thesis
    using assms(1) [OF requestListener_effect [of pf ops w req]] assms(5)
    by (auto simp: step_def split: prod.splits)
next
  case (ToolCall name args)
  have "Q (snd (callTool pf ops name args w))"
    using callTool_effect [of pf ops w name args] assms(5)
  proof (induction rule: rtranclp_induct)
    case base
    then show ?case by simp
  next
    case (step y z)
    then show ?case using assms(1) by blast
  qed
  with ToolCall show ?thesis by (auto simp: step_def split: prod.splits)
next
  case (Close cid)
  then show ?thesis using assms(3,5) by (simp add: step_def)
next
  case (KeepAlive cid)
  then show ?thesis using assms(2,5) by (simp add: step_def)
next
  case (Elapse n)
  then show ?thesis using assms(4,5) by (simp add: step_def)
qed

lemma run_world:
  assumes "\<And>w w'. effect pf ops w w' \<Longrightarrow> Q w \<Longrightarrow> Q w'"
    and "\<And>cid w. Q w \<Longrightarrow> Q (keep_alive cid w)"
    and "\<And>cid w. Close cid \<in> set inputs \<Longrightarrow> Q w \<Longrightarrow> Q (close_stream cid w)"
    and "\<And>n w. Q w \<Longrightarrow> Q (w\<lparr>w_store := tick ops n (w_store w)\<rparr>)"
    and "Q w"
  shows "Q (run pf ops w inputs)"
  using assms(3,5)
proof (induction inputs arbitrary: w)
  case Nil
  then show ?case by simp
next
  case (Cons i rest)
  have "Q (snd (step pf ops i w))"
  proof (rule step_world [of pf ops Q])
    fix cid w
    assume "i = Close cid" and "Q w"
    then show "Q (close_stream cid w)" using Cons.prems(1) by simp
  qed (use assms(1,2,4) Cons.prems(2) in blast)+
  moreover have "\<And>cid w. Close cid \<in> set rest \<Longrightarrow> Q w \<Longrightarrow> Q (close_stream cid w)"
    using Cons.prems(1) by simp
  ultimately show ?case using Cons.IH by simp
qed

lemma fresh_conns_effect:
  assumes "effect pf ops w w'" and "fresh_conns w"
  shows "fresh_conns w'"
  using assms by cases (auto simp: fresh_conns_def publish_def less_Suc_eq)

lemma fresh_conns_run:
  "fresh_conns w \<Longrightarrow> fresh_conns (run pf ops w inputs)"
proof (rule run_world [where Q = fresh_conns])
  fix w w' :: "'a world"
  assume "effect pf ops w w'" and "fresh_conns w"
  then show "fresh_conns w'" by (rule fresh_conns_effect)
qed (auto simp: fresh_conns_def keep_alive_def close_stream_def)

lemma fresh_conns_start: "fresh_conns (start s)"
  by (simp add: fresh_conns_def start_def)

lemma find_map_id:
  "(\<And>c. c_id (f c) = c_id c) \<Longrightarrow>
   find (\<lambda>c. c_id c = cid) (map f xs) = map_option f (find (\<lambda>c. c_id c = cid) xs)"
  by (induction xs) auto

lemma find_append_some: "find P xs = Some x \<Longrightarrow> find P (xs @ ys) = Some x"
  by (induction xs) (auto split: if_splits)

lemma find_append_none: "find P xs = None \<Longrightarrow> find P (xs @ ys) = find P ys"
  by (induction xs) (auto split: if_splits)

lemma find_filter_other: "(\<And>x. P x \<Longrightarrow> R x) \<Longrightarrow> find P (filter R xs) = find P xs"
  by (induction xs) auto

lemma frames_append: "frames (xs @ ys) = frames xs @ frames ys"
  by (induction xs rule: frames.induct) auto

lemma frames_map: "frames (map EventFrame evs) = evs"
  by (induction evs) auto

lemma stream_publish:
  "stream cid (publish pf ops evs w)
     = map_option (\<lambda>c. c\<lparr>c_out := c_out c @ concat (map (sink_writes pf ops (w_store w) (c_sink c)) evs)\<rparr>)
         (stream cid w)"
  by (simp add: stream_def publish_def find_map_id)

lemma stream_keep_alive:
  "stream cid (keep_alive k w)
     = map_option (\<lambda>c. if c_id c = k then c\<lparr>c_out := c_out c @ [Comment ''ping'']\<rparr> else c)
         (stream cid w)"
  by (simp add: stream_def keep_alive_def find_map_id)

lemma stream_close_other:
  "k \<noteq> cid \<Longrightarrow> stream cid (close_stream k w) = stream cid w"
  unfolding stream_def close_stream_def
  by (simp add: find_filter_other [of "\<lambda>c. c_id c = cid" "\<lambda>c. c_id c \<noteq> k"])

lemma follows_effect:
  assumes "effect pf spec_store w w'" and "follows cid sid first log0 w"
  shows "follows cid sid first log0 w'"
  using assms
proof cases
  case unchanged
  with assms(2) show ?thesis by simp
next
  case (opened k first')
  with assms(2) show ?thesis
    by (auto simp: follows_def stream_def find_append_some)
next
  case (mutated evs s')
  from assms(2) obtain more rest where
    log: "st_events (w_store w) = log0 @ more"
    and str: "stream cid w = Some \<lparr>c_id = cid, c_sink = SessionSink sid, c_out = first @ rest\<rparr>"
    and fr: "frames rest = filter (\<lambda>e. e_sessionId e = sid) more"
    by (auto simp: follows_def)
  have "appended (w_store w) evs s'" using mutated(2) by (rule mutation_appended)
  then have log': "st_events s' = log0 @ (more @ evs)" using log by (simp add: appended_def)
  have str': "stream cid w' = Some \<lparr>c_id = cid, c_sink = SessionSink sid,
      c_out = first @ (rest @ map EventFrame (filter (\<lambda>e. e_sessionId e = sid) evs))\<rparr>"
    unfolding mutated(1) stream_publish
    using str by (simp add: stream_def session_sink_all)
  have "frames (rest @ map EventFrame (filter (\<lambda>e. e_sessionId e = sid) evs))
          = filter (\<lambda>e. e_sessionId e = sid) (more @ evs)"
    by (simp add: frames_append frames_map fr)
  with log' str' show ?thesis
    unfolding follows_def mutated(1) by (auto simp: publish_def)
qed

lemma follows_keep_alive:
  assumes "follows cid sid first log0 w"
  shows "follows cid sid first log0 (keep_alive k w)"
proof -
  from assms obtain more rest where
    log: "st_events (w_store w) = log0 @ more"
    and str: "stream cid w = Some \<lparr>c_id = cid, c_sink = SessionSink sid, c_out = first @ rest\<rparr>"
    and fr: "frames rest = filter (\<lambda>e. e_sessionId e = sid) more"
    by (auto simp: follows_def)
  show ?thesis
  proof (cases "k = cid")
    case True
    have "stream cid (keep_alive k w) = Some \<lparr>c_id = cid, c_sink = SessionSink sid,
        c_out = first @ (rest @ [Comment ''ping''])\<rparr>"
      using str True by (simp add: stream_keep_alive)
    moreover have "frames (rest @ [Comment ''ping'']) = filter (\<lambda>e. e_sessionId e = sid) more"
      by (simp add: frames_append fr)
    moreover have "st_events (w_store (keep_alive k w)) = log0 @ more"
      using log by (simp add: keep_alive_def)
    ultimately show ?thesis unfolding follows_def by blast
  next
    case False
    have "stream cid (keep_alive k w) = stream cid w"
      using str False by (simp add: stream_keep_alive)
    moreover have "st_events (w_store (keep_alive k w)) = log0 @ more"
      using log by (simp add: keep_alive_def)
    ultimately show ?thesis using str fr unfolding follows_def by metis
  qed
qed

lemma follows_run:
  assumes "follows cid sid first log0 w" and "Close cid \<notin> set inputs"
  shows "follows cid sid first log0 (run pf spec_store w inputs)"
proof (rule run_world [where Q = "follows cid sid first log0"])
  fix w w' :: "store world"
  assume "effect pf spec_store w w'" and "follows cid sid first log0 w"
  then show "follows cid sid first log0 w'" by (rule follows_effect)
next
  fix k and w :: "store world"
  assume "follows cid sid first log0 w"
  then show "follows cid sid first log0 (keep_alive k w)" by (rule follows_keep_alive)
next
  fix k and w :: "store world"
  assume "Close k \<in> set inputs" and f: "follows cid sid first log0 w"
  then have "k \<noteq> cid" using assms(2) by auto
  then have "stream cid (close_stream k w) = stream cid w" by (rule stream_close_other)
  moreover have "w_store (close_stream k w) = w_store w" by (simp add: close_stream_def)
  ultimately show "follows cid sid first log0 (close_stream k w)"
    using f by (simp add: follows_def)
next
  fix n and w :: "store world"
  assume "follows cid sid first log0 w"
  then show "follows cid sid first log0 (w\<lparr>w_store := tick spec_store n (w_store w)\<rparr>)"
    by (simp add: follows_def stream_def)
qed (rule assms(1))

lemma parseInt_empty: "parseInt [] = None"
  by (simp add: parseInt_def)

lemma listener_session_events:
  assumes "i \<noteq> []" and "CHR ''/'' \<notin> set i"
    and "rq_method req = ''GET''" and "rq_pathname req = ''/sessions/'' @ i @ ''/events''"
  shows "requestListener pf ops req w
     = (case sseHandler pf ops req [(''id'', i)] w of
          (Inl err, w') \<Rightarrow> (sendError 500 ''Internal server error'', w')
        | (Inr res, w') \<Rightarrow> (res, w'))"
proof -
  have "matchRoute pf ops ''GET'' (''/sessions/'' @ i @ ''/events'')
          = Some (sseHandler pf ops, [(''id'', i)])"
    using assms(1,2) route_get_session_events by blast
  then show ?thesis
    using assms(3,4) by (simp add: requestListener_def)
qed

lemma replay_opens:
  assumes "sid \<noteq> []" and "CHR ''/'' \<notin> set sid"
    and "rq_method req = ''GET''" and "rq_pathname req = ''/sessions/'' @ sid @ ''/events''"
    and "spec_getSessionWithAnnotations sid (w_store w) = Some sw"
    and "map_of (rq_headers req) ''last-event-id'' = Some h" and "parseInt h = Some n"
  shows "requestListener pf spec_store req w
     = (sendJson 200 (EventStream (w_next w)),
        w\<lparr>w_conns := w_conns w @ [\<lparr>c_id = w_next w, c_sink = SessionSink sid,
             c_out = Comment ''connected'' # map EventFrame
               (filter (\<lambda>e. e_sessionId e = sid \<and> n < int (e_sequence e))
                  (st_events (w_store w)))\<rparr>],
          w_next := w_next w + 1\<rparr>)"
proof -
  have "h \<noteq> []" using assms(7) parseInt_empty by auto
  then show ?thesis
    using assms(5,6,7)
    by (simp add: listener_session_events [OF assms(1-4)] sseHandler_def param_def
        spec_getEventsSince_def open_stream_def Let_def)
qed

lemma sorted_filter_append:
  "sorted_wrt R (xs @ ys) \<Longrightarrow> sorted_wrt R (filter P xs @ filter Q ys)"
  by (auto simp: sorted_wrt_append sorted_wrt_filter)

lemma numbered_sorted:
  assumes "numbered s"
  shows "sorted_wrt (\<lambda>a b. e_sequence a < e_sequence b) (st_events s)"
proof -
  have "sorted_wrt (<) [1..<Suc (st_sequence s)]"
    by (rule sorted_wrt_upt)
  then have "sorted_wrt (<) (map e_sequence (st_events s))"
    using assms unfolding numbered_def by simp
  then show ?thesis by (simp add: sorted_wrt_map)
qed

lemma stream_opened:
  assumes "fresh_conns w"
  shows "stream (w_next w)
           (w\<lparr>w_conns := w_conns w @ [\<lparr>c_id = w_next w, c_sink = k, c_out = first\<rparr>],
              w_next := w_next w + 1\<rparr>)
         = Some \<lparr>c_id = w_next w, c_sink = k, c_out = first\<rparr>"
proof -
  have "find (\<lambda>c. c_id c = w_next w) (w_conns w) = None"
    using assms by (auto simp: fresh_conns_def find_None_iff)
  then show ?thesis by (simp add: stream_def find_append_none)
qed

text \<open>Claim C4. With the store of the specification, started empty and driven by any
  inputs: a \<open>GET /sessions/:id/events\<close> for an existing session whose
  \<open>Last-Event-ID\<close> header reads as the number \<open>n\<close> is answered 200 with a new
  stream. Whatever happens afterwards, as long as that stream is not closed, what
  has been written to it is the comment \<open>connected\<close>, then the events of the
  session that were in the log at the connection with a sequence number greater
  than \<open>n\<close>, in the order of the log, and after them chunks whose event frames
  are exactly the events of the session logged since the connection, in the
  order of the log. The sequence numbers of the frames are strictly
  increasing.\<close>

theorem replay_then_live:
  assumes "w = run pf spec_store (start empty_store) before"
    and "sid \<noteq> []" and "CHR ''/'' \<notin> set sid"
    and "rq_method req = ''GET''" and "rq_pathname req = ''/sessions/'' @ sid @ ''/events''"
    and "spec_getSessionWithAnnotations sid (w_store w) = Some sw"
    and "map_of (rq_headers req) ''last-event-id'' = Some h" and "parseInt h = Some n"
    and "Close (w_next w) \<notin> set later"
    and "w' = run pf spec_store (snd (requestListener pf spec_store req w)) later"
    and "replayed = filter (\<lambda>e. e_sessionId e = sid \<and> n < int (e_sequence e)) (st_events (w_store w))"
  shows "fst (requestListener pf spec_store req w) = sendJson 200 (EventStream (w_next w))
     \<and> (\<exists>live rest.
          st_events (w_store w') = st_events (w_store w) @ live
          \<and> stream (w_next w) w'
              = Some \<lparr>c_id = w_next w, c_sink = SessionSink sid,
                   c_out = (Comment ''connected'' # map EventFrame replayed) @ rest\<rparr>
          \<and> frames rest = filter (\<lambda>e. e_sessionId e = sid) live
          \<and> sorted_wrt (<) (map e_sequence (replayed @ frames rest)))"
proof -
  let ?first = "Comment ''connected'' # map EventFrame replayed"
  let ?new = "\<lparr>c_id = w_next w, c_sink = SessionSink sid, c_out = ?first\<rparr>"
  let ?w1 = "w\<lparr>w_conns := w_conns w @ [?new], w_next := w_next w + 1\<rparr>"
  have opens: "requestListener pf spec_store req w = (sendJson 200 (EventStream (w_next w)), ?w1)"
    unfolding assms(11) by (rule replay_opens [OF assms(2-8)])
  have "fresh_conns w"
    unfolding assms(1) by (rule fresh_conns_run [OF fresh_conns_start])
  then have "stream (w_next w) ?w1 = Some ?new" by (rule stream_opened)
  then have "follows (w_next w) sid ?first (st_events (w_store w)) ?w1"
    by (simp add: follows_def)
  then have "follows (w_next w) sid ?first (st_events (w_store w)) w'"
    unfolding assms(10) opens snd_conv using assms(9) by (rule follows_run)
  then obtain live rest where
    log: "st_events (w_store w') = st_events (w_store w) @ live"
    and str: "stream (w_next w) w' = Some \<lparr>c_id = w_next w, c_sink = SessionSink sid,
        c_out = ?first @ rest\<rparr>"
    and fr: "frames rest = filter (\<lambda>e. e_sessionId e = sid) live"
    unfolding follows_def by blast
  have "numbered (w_store w)"
    unfolding assms(1) by (rule numbered_run [OF numbered_start])
  then have "numbered (w_store ?w1)" by simp
  then have "numbered (w_store w')"
    unfolding assms(10) opens snd_conv by (rule numbered_run)
  then have "sorted_wrt (\<lambda>a b. e_sequence a < e_sequence b) (st_events (w_store w) @ live)"
    using numbered_sorted log by metis
  then have "sorted_wrt (\<lambda>a b. e_sequence a < e_sequence b) (replayed @ frames rest)"
    unfolding assms(11) fr by (rule sorted_filter_append)
  then have "sorted_wrt (<) (map e_sequence (replayed @ frames rest))"
    by (simp only: sorted_wrt_map)
  with opens log str fr show ?thesis by auto
qed

theorem replay_then_live_witness:
  "fst (requestListener example_platform spec_store replay_request pending_world)
     = sendJson 200 (EventStream (w_next pending_world))
   \<and> (\<exists>live rest.
        st_events (w_store replayed_world) = st_events (w_store pending_world) @ live
        \<and> stream (w_next pending_world) replayed_world
            = Some \<lparr>c_id = w_next pending_world, c_sink = SessionSink ''s0'',
                 c_out = (Comment ''connected'' # map EventFrame
                    (filter (\<lambda>e. e_sessionId e = ''s0'' \<and> 1 < int (e_sequence e))
                       (st_events (w_store pending_world)))) @ rest\<rparr>
        \<and> frames rest = filter (\<lambda>e. e_sessionId e = ''s0'') live
        \<and> sorted_wrt (<) (map e_sequence
             (filter (\<lambda>e. e_sessionId e = ''s0'' \<and> 1 < int (e_sequence e))
                (st_events (w_store pending_world)) @ frames rest)))"
proof -
  have "spec_getSessionWithAnnotations ''s0'' (w_store pending_world) \<noteq> None"
    by code_simp
  then obtain sw where h: "spec_getSessionWithAnnotations ''s0'' (w_store pending_world) = Some sw"
    by blast
  have r: "''s0'' \<noteq> [] \<and> CHR ''/'' \<notin> set ''s0''
      \<and> rq_method replay_request = ''GET''
      \<and> rq_pathname replay_request = ''/sessions/'' @ ''s0'' @ ''/events''
      \<and> map_of (rq_headers replay_request) ''last-event-id'' = Some ''1''
      \<and> parseInt ''1'' = Some 1
      \<and> Close (w_next pending_world) \<notin> set [patch_status ''acknowledged'']"
    by code_simp
  from replay_then_live [OF pending_world_def _ _ _ _ h _ _ _ replayed_world_def refl,
      of "''1''" 1] r
  show ?thesis by blast
qed

end
